(* ===== verification/Prelude.thy ===== *)
theory Prelude
  imports Main "HOL-Library.Word" "HOL-Library.Sublist" "HOL-Library.Multiset"
begin

text \<open>
  Generic facts and hint collections shared by every component of the development:
  searching a list of table rows, keys kept distinct by updates, pages of a list, and
  the named collections that the component theories fill
  (\<open>sql_defs\<close>: the definitions of the SQL statements,
   \<open>handler_defs\<close>: the definitions of handler steps,
   \<open>frame\<close>: which tables and fields an operation leaves alone).
\<close>

named_theorems sql_defs "definitions of the SQL primitives and statements"
named_theorems handler_defs "definitions of the HTTP writer operations and handler steps"
named_theorems frame "tables and fields that an operation leaves unchanged"

section \<open>Results\<close>

text \<open>A Go pair \<open>(value, error)\<close> whose value is only used when the error is nil.\<close>

type_synonym ('e, 'a) result = "'e + 'a"

abbreviation is_ok :: "('e, 'a) result \<Rightarrow> bool" where
  "is_ok r \<equiv> \<not> isl r"

section \<open>Rows found by key\<close>

lemma find_SomeD: "List.find P xs = Some x \<Longrightarrow> x \<in> set xs \<and> P x"
  by (induction xs) (auto split: if_splits)

lemma find_None_conv: "List.find P xs = None \<longleftrightarrow> (\<forall>x\<in>set xs. \<not> P x)"
  by (induction xs) auto

lemma find_append: "List.find P (xs @ ys) =
  (case List.find P xs of None \<Rightarrow> List.find P ys | Some x \<Rightarrow> Some x)"
  by (induction xs) auto

lemma find_cong_set:
  "(\<And>x. x \<in> set xs \<Longrightarrow> P x = Q x) \<Longrightarrow> List.find P xs = List.find Q xs"
  by (induction xs) auto

text \<open>With distinct keys, the row found by its key is the row.\<close>

lemma find_distinct_key:
  assumes "distinct (map f xs)" and "x \<in> set xs" and "P x"
    and "\<And>y. y \<in> set xs \<Longrightarrow> P y \<Longrightarrow> f y = f x"
  shows "List.find P xs = Some x"
  using assms
proof (induction xs)
  case Nil
  then show ?case by simp
next
  case (Cons a xs)
  show ?case
  proof (cases "a = x")
    case True
    with Cons.prems(3) show ?thesis by simp
  next
    case False
    with Cons.prems(1,2) have "x \<in> set xs" and "f a \<noteq> f x" by (auto simp: image_iff)
    have "\<not> P a"
    proof
      assume "P a"
      then have "f a = f x" by (rule Cons.prems(4) [OF list.set_intros(1)])
      with \<open>f a \<noteq> f x\<close> show False by contradiction
    qed
    moreover have "List.find P xs = Some x"
    proof (rule Cons.IH)
      show "distinct (map f xs)" using Cons.prems(1) by simp
      show "x \<in> set xs" and "P x" by fact+
      show "f y = f x" if "y \<in> set xs" and "P y" for y
        using that by (intro Cons.prems(4)) (simp_all only: list.set_intros)
    qed
    ultimately show ?thesis by simp
  qed
qed

lemma find_map_same:
  assumes "\<And>x. x \<in> set xs \<Longrightarrow> P (g x) = P x"
  shows "List.find P (map g xs) = map_option g (List.find P xs)"
  using assms by (induction xs) auto

lemma find_filter: "List.find P (filter Q xs) = List.find (\<lambda>x. Q x \<and> P x) xs"
  by (induction xs) auto

section \<open>Tables with a key column\<close>

definition keyed :: "('r \<Rightarrow> 'k) \<Rightarrow> 'r list \<Rightarrow> bool" where
  "keyed k rs \<longleftrightarrow> distinct (map k rs)"

lemma keyed_Nil [simp]: "keyed k []"
  by (simp add: keyed_def)

lemma keyed_map: "(\<And>r. r \<in> set rs \<Longrightarrow> k (g r) = k r) \<Longrightarrow> keyed k (map g rs) = keyed k rs"
  by (simp add: keyed_def o_def cong: map_cong)

lemma keyed_filter: "keyed k rs \<Longrightarrow> keyed k (filter P rs)"
  by (simp add: keyed_def distinct_map_filter)

lemma keyed_snoc: "keyed k (rs @ [r]) \<longleftrightarrow> keyed k rs \<and> k r \<notin> k ` set rs"
  by (auto simp: keyed_def)

lemma keyed_unique: "keyed k rs \<Longrightarrow> r \<in> set rs \<Longrightarrow> s \<in> set rs \<Longrightarrow> k r = k s \<Longrightarrow> r = s"
  unfolding keyed_def by (meson distinct_map inj_onD)

lemma keyed_find:
  assumes "keyed k rs" and "r \<in> set rs" and "P r" and "\<And>s. s \<in> set rs \<Longrightarrow> P s \<Longrightarrow> k s = k r"
  shows "List.find P rs = Some r"
  using assms unfolding keyed_def by (rule find_distinct_key)

section \<open>Pages of a list\<close>

definition page_of :: "nat \<Rightarrow> nat \<Rightarrow> 'a list \<Rightarrow> 'a list" where
  "page_of n off xs = take n (drop off xs)"

lemma length_page_of: "length (page_of n off xs) \<le> n"
  by (simp add: page_of_def)

lemma set_page_of: "set (page_of n off xs) \<subseteq> set xs"
  by (auto simp: page_of_def dest: in_set_takeD in_set_dropD)

lemma pages_concat: "concat (map (\<lambda>p. page_of s (p * s) xs) [0..<k]) = take (k * s) xs"
proof (induction k)
  case 0
  then show ?case by simp
next
  case (Suc k)
  have "take (Suc k * s) xs = take (k * s) xs @ take s (drop (k * s) xs)"
    by (metis mult_Suc add.commute take_add)
  with Suc show ?case by (simp add: page_of_def)
qed

lemma pages_cover: "length xs \<le> k * s \<Longrightarrow> concat (map (\<lambda>p. page_of s (p * s) xs) [0..<k]) = xs"
  by (simp add: pages_concat)

end
