(* ===== verification/Go_Strings.thy ===== *)
theory Go_Strings
  imports Prelude
begin

text \<open>
  The part of Go's \<open>strings\<close> package that the program uses. A Go string is a byte
  sequence; it is modelled as a \<^typ>\<open>string\<close> whose characters are its bytes.
  \<open>TrimSpace\<close> trims Unicode white space, so the trimmed units are the UTF-8 encodings
  of the White\_Space code points.
\<close>

section \<open>Splitting\<close>

text \<open>\<open>strings.Split(s, sep)\<close> for a one-byte separator.\<close>

fun go_split :: "char \<Rightarrow> string \<Rightarrow> string list" where
  "go_split c [] = [ [] ]"
| "go_split c (x # xs) =
     (if x = c then [] # go_split c xs
      else (case go_split c xs of [] \<Rightarrow> [ [x] ] | p # ps \<Rightarrow> (x # p) # ps))"

text \<open>\<open>strings.IndexByte\<close>, with \<open>None\<close> for -1.\<close>

fun go_index :: "char \<Rightarrow> string \<Rightarrow> nat option" where
  "go_index c [] = None"
| "go_index c (x # xs) = (if x = c then Some 0 else map_option Suc (go_index c xs))"

text \<open>\<open>strings.SplitN(s, sep, 2)\<close>: at most one cut.\<close>

definition go_splitn2 :: "char \<Rightarrow> string \<Rightarrow> string list" where
  "go_splitn2 c s =
     (case go_index c s of None \<Rightarrow> [s] | Some i \<Rightarrow> [take i s, drop (Suc i) s])"

text \<open>\<open>strings.HasPrefix\<close>, \<open>strings.TrimPrefix\<close>.\<close>

definition has_prefix :: "string \<Rightarrow> string \<Rightarrow> bool" where
  "has_prefix s p \<longleftrightarrow> take (length p) s = p"

definition trim_prefix :: "string \<Rightarrow> string \<Rightarrow> string" where
  "trim_prefix s p = (if has_prefix s p then drop (length p) s else s)"

lemma has_prefix_iff: "has_prefix s p \<longleftrightarrow> (\<exists>t. s = p @ t)"
  unfolding has_prefix_def by (metis append_eq_conv_conj append_take_drop_id)

lemma trim_prefix_append [simp]: "trim_prefix (p @ t) p = t"
  by (simp add: trim_prefix_def has_prefix_def)

lemma has_prefix_append [simp]: "has_prefix (p @ t) p"
  by (simp add: has_prefix_def)

lemma go_split_ne: "go_split c s \<noteq> []"
  by (induction s) (auto split: list.splits)

lemma go_split_no_sep: "c \<notin> set s \<Longrightarrow> go_split c s = [s]"
  by (induction s) auto

lemma go_split_app_left:
  "c \<notin> set p \<Longrightarrow> go_split c (p @ s) = (p @ hd (go_split c s)) # tl (go_split c s)"
proof (induction p)
  case Nil
  then show ?case by (simp add: go_split_ne)
next
  case (Cons x p)
  then show ?case by (auto split: list.splits)
qed

lemma go_split_app_right:
  "c \<notin> set p \<Longrightarrow>
   go_split c (s @ p) = butlast (go_split c s) @ [last (go_split c s) @ p]"
proof (induction s)
  case Nil
  then show ?case by (simp add: go_split_no_sep)
next
  case (Cons x s)
  show ?case
  proof (cases "go_split c s")
    case Nil
    then show ?thesis by (simp add: go_split_ne)
  next
    case (Cons q qs)
    with Cons.IH[OF Cons.prems] show ?thesis by (cases qs) auto
  qed
qed

lemma go_split_sep_free: "p \<in> set (go_split c s) \<Longrightarrow> c \<notin> set p"
  by (induction s arbitrary: p) (auto split: list.splits if_splits)

lemma go_index_None: "go_index c s = None \<longleftrightarrow> c \<notin> set s"
  by (induction s) auto

lemma go_index_Some:
  "go_index c s = Some i \<Longrightarrow> i < length s \<and> s ! i = c \<and> c \<notin> set (take i s)"
  by (induction s arbitrary: i) (auto split: if_splits)

section \<open>TrimSpace\<close>

text \<open>
  The code points with the White\_Space property in UTF-8: the six ASCII ones, then
  U+0085, U+00A0, U+1680, U+2000 to U+200A, U+2028, U+2029, U+202F, U+205F, U+3000.
\<close>

definition space_seqs :: "string list" where
  "space_seqs =
    [ [CHR 0x09], [CHR 0x0A], [CHR 0x0B], [CHR 0x0C], [CHR 0x0D], [CHR 0x20],
      [CHR 0xC2, CHR 0x85], [CHR 0xC2, CHR 0xA0],
      [CHR 0xE1, CHR 0x9A, CHR 0x80],
      [CHR 0xE2, CHR 0x80, CHR 0x80], [CHR 0xE2, CHR 0x80, CHR 0x81],
      [CHR 0xE2, CHR 0x80, CHR 0x82], [CHR 0xE2, CHR 0x80, CHR 0x83],
      [CHR 0xE2, CHR 0x80, CHR 0x84], [CHR 0xE2, CHR 0x80, CHR 0x85],
      [CHR 0xE2, CHR 0x80, CHR 0x86], [CHR 0xE2, CHR 0x80, CHR 0x87],
      [CHR 0xE2, CHR 0x80, CHR 0x88], [CHR 0xE2, CHR 0x80, CHR 0x89],
      [CHR 0xE2, CHR 0x80, CHR 0x8A],
      [CHR 0xE2, CHR 0x80, CHR 0xA8], [CHR 0xE2, CHR 0x80, CHR 0xA9],
      [CHR 0xE2, CHR 0x80, CHR 0xAF], [CHR 0xE2, CHR 0x81, CHR 0x9F],
      [CHR 0xE3, CHR 0x80, CHR 0x80] ]"

text \<open>Remove a unit of \<open>ps\<close> from the front for as long as there is one.\<close>

function strip_units :: "string list \<Rightarrow> string \<Rightarrow> string" where
  "strip_units ps s =
     (case List.find (\<lambda>p. p \<noteq> [] \<and> has_prefix s p) ps of
        None \<Rightarrow> s
      | Some p \<Rightarrow> strip_units ps (drop (length p) s))"
  by pat_completeness auto
termination
  by (relation "measure (\<lambda>(ps, s). length s)")
    (auto dest!: find_SomeD simp: has_prefix_iff)

declare strip_units.simps [simp del]

definition trim_left :: "string \<Rightarrow> string" where
  "trim_left s = strip_units space_seqs s"

definition trim_right :: "string \<Rightarrow> string" where
  "trim_right s = rev (strip_units (map rev space_seqs) (rev s))"

text \<open>\<open>strings.TrimSpace\<close>.\<close>

definition trim_space :: "string \<Rightarrow> string" where
  "trim_space s = trim_right (trim_left s)"

lemma strip_units_None:
  "List.find (\<lambda>p. p \<noteq> [] \<and> has_prefix s p) ps = None \<Longrightarrow> strip_units ps s = s"
  by (subst strip_units.simps) simp

lemma strip_units_Some:
  "List.find (\<lambda>p. p \<noteq> [] \<and> has_prefix s p) ps = Some q \<Longrightarrow>
   strip_units ps s = strip_units ps (drop (length q) s)"
  by (subst strip_units.simps) simp

lemma strip_units_stop:
  "(\<forall>p\<in>set ps. p = [] \<or> \<not> has_prefix s p) \<Longrightarrow> strip_units ps s = s"
  by (rule strip_units_None) (auto simp: find_None_conv)

lemma strip_units_result:
  "p \<in> set ps \<Longrightarrow> p \<noteq> [] \<Longrightarrow> \<not> has_prefix (strip_units ps s) p"
proof (induction ps s rule: strip_units.induct)
  case (1 ps s)
  show ?case
  proof (cases "List.find (\<lambda>p. p \<noteq> [] \<and> has_prefix s p) ps")
    case None
    then show ?thesis using 1 by (auto simp: strip_units_None find_None_conv)
  next
    case (Some q)
    with 1 show ?thesis by (simp add: strip_units_Some)
  qed
qed

lemma strip_units_suffix: "\<exists>q. s = q @ strip_units ps s"
proof (induction ps s rule: strip_units.induct)
  case (1 ps s)
  show ?case
  proof (cases "List.find (\<lambda>p. p \<noteq> [] \<and> has_prefix s p) ps")
    case None
    then show ?thesis by (simp add: strip_units_None)
  next
    case (Some q)
    with 1 obtain r where "drop (length q) s = r @ strip_units ps (drop (length q) s)"
      by blast
    moreover from Some have "strip_units ps s = strip_units ps (drop (length q) s)"
      by (rule strip_units_Some)
    ultimately have "s = (take (length q) s @ r) @ strip_units ps s"
      by (metis append_assoc append_take_drop_id)
    then show ?thesis by blast
  qed
qed

lemma strip_units_Nil [simp]: "strip_units ps [] = []"
  using strip_units_suffix [of "[]" ps] by simp

lemma strip_units_idem: "strip_units ps (strip_units ps s) = strip_units ps s"
  by (rule strip_units_stop) (auto simp: strip_units_result)

text \<open>A unit in front is dropped when no unit is a proper prefix of another.\<close>

definition prefix_free :: "string list \<Rightarrow> bool" where
  "prefix_free ps \<longleftrightarrow> (\<forall>p\<in>set ps. p \<noteq> [] \<and> (\<forall>q\<in>set ps. has_prefix q p \<longrightarrow> p = q))"

lemma has_prefix_total:
  "has_prefix s p \<Longrightarrow> has_prefix s q \<Longrightarrow> has_prefix p q \<or> has_prefix q p"
  unfolding has_prefix_iff by (metis append_eq_append_conv2)

lemma strip_units_app:
  assumes "prefix_free ps" and "p \<in> set ps"
  shows "strip_units ps (p @ s) = strip_units ps s"
proof -
  have "p \<noteq> []" using assms by (auto simp: prefix_free_def)
  with assms(2) have "List.find (\<lambda>p'. p' \<noteq> [] \<and> has_prefix (p @ s) p') ps \<noteq> None"
    by (auto simp: find_None_conv)
  then obtain q where q: "List.find (\<lambda>p'. p' \<noteq> [] \<and> has_prefix (p @ s) p') ps = Some q"
    by blast
  then have "q \<in> set ps" and "has_prefix (p @ s) q" by (auto dest: find_SomeD)
  with assms have "q = p"
    unfolding prefix_free_def by (metis has_prefix_append has_prefix_total)
  with q show ?thesis by (simp add: strip_units_Some)
qed

text \<open>
  A unit at the end survives unless everything before it is stripped: a unit never starts
  with a byte that occurs inside another one.
\<close>

definition no_overlap :: "string list \<Rightarrow> bool" where
  "no_overlap ps \<longleftrightarrow> (\<forall>p\<in>set ps. \<forall>q\<in>set ps. hd p \<notin> set (tl q))"

lemma strip_units_stuck_snoc:
  assumes "prefix_free ps" and "no_overlap ps" and "p \<in> set ps" and "x \<noteq> []"
    and "\<forall>q\<in>set ps. \<not> has_prefix x q"
  shows "strip_units ps (x @ p) = x @ p"
proof (rule strip_units_stop, intro ballI disjI2 notI)
  fix q
  assume "q \<in> set ps" and "has_prefix (x @ p) q"
  with assms(5) obtain z where z: "q = x @ z" "z \<noteq> []" "has_prefix p z"
    unfolding has_prefix_iff by (metis append_eq_append_conv2 append_Nil2)
  then have "hd z \<in> set (tl q)" using assms(4) by (cases x) auto
  moreover from z have "hd p = hd z" by (auto simp: has_prefix_iff)
  ultimately show False
    using assms(2,3) \<open>q \<in> set ps\<close> by (auto simp: no_overlap_def)
qed

lemma strip_units_snoc:
  assumes "prefix_free ps" and "no_overlap ps" and "p \<in> set ps"
  shows "strip_units ps (x @ p) = (if strip_units ps x = [] then [] else strip_units ps x @ p)"
  using assms
proof (induction ps x rule: strip_units.induct)
  case (1 ps x)
  show ?case
  proof (cases "List.find (\<lambda>p. p \<noteq> [] \<and> has_prefix x p) ps")
    case (Some q)
    then have q: "q \<in> set ps" "has_prefix x q" by (auto dest: find_SomeD)
    then have "x = q @ drop (length q) x" by (auto simp: has_prefix_iff)
    then have "strip_units ps (x @ p) = strip_units ps (drop (length q) x @ p)"
      by (metis 1(2) append_assoc q(1) strip_units_app)
    with 1 Some show ?thesis by (simp add: strip_units_Some)
  next
    case None
    show ?thesis
    proof (cases "x = []")
      case True
      with 1 strip_units_app [of ps p "[]"] show ?thesis by simp
    next
      case False
      with None 1 have "strip_units ps (x @ p) = x @ p"
        by (intro strip_units_stuck_snoc) (auto simp: find_None_conv prefix_free_def)
      with None False show ?thesis by (simp add: strip_units_None)
    qed
  qed
qed

lemma space_seqs_prefix_free: "prefix_free space_seqs"
  by (simp add: prefix_free_def space_seqs_def has_prefix_def)

lemma space_seqs_rev_prefix_free: "prefix_free (map rev space_seqs)"
  by (simp add: prefix_free_def space_seqs_def has_prefix_def)

lemma space_seqs_no_overlap: "no_overlap space_seqs"
  by (simp add: no_overlap_def space_seqs_def)

lemma trim_left_unit: "p \<in> set space_seqs \<Longrightarrow> trim_left (p @ s) = trim_left s"
  by (simp add: trim_left_def strip_units_app space_seqs_prefix_free)

lemma trim_right_unit: "p \<in> set space_seqs \<Longrightarrow> trim_right (s @ p) = trim_right s"
  by (simp add: trim_right_def strip_units_app space_seqs_rev_prefix_free)

lemma trim_space_unit_left: "p \<in> set space_seqs \<Longrightarrow> trim_space (p @ s) = trim_space s"
  by (simp add: trim_space_def trim_left_unit)

lemma trim_space_unit_right: "p \<in> set space_seqs \<Longrightarrow> trim_space (s @ p) = trim_space s"
  using strip_units_snoc [OF space_seqs_prefix_free space_seqs_no_overlap, of p s]
  by (simp add: trim_space_def trim_left_def trim_right_unit)

text \<open>
  Trimming a list before splitting it changes nothing that trimming its parts does not
  change anyway, when the separator is in no unit.
\<close>

lemma split_trim_left:
  assumes "\<forall>p\<in>set space_seqs. c \<notin> set p" and "ps = space_seqs"
  shows "map trim_space (go_split c (strip_units ps s)) = map trim_space (go_split c s)"
  using assms(2)
proof (induction ps s rule: strip_units.induct)
  case (1 ps s)
  show ?case
  proof (cases "List.find (\<lambda>p. p \<noteq> [] \<and> has_prefix s p) ps")
    case None
    then show ?thesis by (simp add: strip_units_None)
  next
    case (Some q)
    then have q: "q \<in> set space_seqs" "has_prefix s q" using 1(2) by (auto dest: find_SomeD)
    define t where "t = drop (length q) s"
    have s: "s = q @ t" using q(2) by (auto simp: has_prefix_iff t_def)
    have "go_split c s = (q @ hd (go_split c t)) # tl (go_split c t)"
      unfolding s using assms(1) q(1) by (intro go_split_app_left) auto
    then have "map trim_space (go_split c s) = map trim_space (go_split c t)"
      using go_split_ne [of c t] by (cases "go_split c t") (simp_all add: trim_space_unit_left q(1))
    with 1 Some show ?thesis by (simp add: strip_units_Some t_def)
  qed
qed

lemma split_trim_right:
  assumes "\<forall>p\<in>set space_seqs. c \<notin> set p" and "ps = map rev space_seqs"
  shows "map trim_space (go_split c (rev (strip_units ps s))) = map trim_space (go_split c (rev s))"
  using assms(2)
proof (induction ps s rule: strip_units.induct)
  case (1 ps s)
  show ?case
  proof (cases "List.find (\<lambda>p. p \<noteq> [] \<and> has_prefix s p) ps")
    case None
    then show ?thesis by (simp add: strip_units_None)
  next
    case (Some q)
    then have q: "rev q \<in> set space_seqs" "has_prefix s q"
      using find_SomeD [OF Some] 1(2) by auto
    define t where "t = drop (length q) s"
    have s: "rev s = rev t @ rev q" using q(2) by (auto simp: has_prefix_iff t_def)
    have "go_split c (rev s) =
      butlast (go_split c (rev t)) @ [last (go_split c (rev t)) @ rev q]"
      unfolding s using assms(1) q(1) by (intro go_split_app_right) auto
    then have "map trim_space (go_split c (rev s)) =
      map trim_space (butlast (go_split c (rev t)) @ [last (go_split c (rev t))])"
      by (simp add: trim_space_unit_right q(1))
    then have "map trim_space (go_split c (rev s)) = map trim_space (go_split c (rev t))"
      by (simp only: append_butlast_last_id [OF go_split_ne])
    with 1 Some show ?thesis by (simp add: strip_units_Some t_def)
  qed
qed

lemma split_trim_space:
  assumes "\<forall>p\<in>set space_seqs. c \<notin> set p"
  shows "map trim_space (go_split c (trim_space s)) = map trim_space (go_split c s)"
  using split_trim_right [OF assms refl, of "rev (trim_left s)"] split_trim_left [OF assms refl, of s]
  by (simp add: trim_space_def trim_right_def trim_left_def)

text \<open>What is left has no outer white space, and nothing is added.\<close>

lemma trim_right_prefix: "\<exists>q. s = trim_right s @ q"
proof -
  obtain q where "rev s = q @ strip_units (map rev space_seqs) (rev s)"
    using strip_units_suffix by blast
  then have "s = trim_right s @ rev q" by (metis trim_right_def rev_append rev_rev_ident)
  then show ?thesis ..
qed

lemma trim_space_idem: "trim_space (trim_space s) = trim_space s"
proof -
  obtain q where q: "trim_left s = trim_space s @ q"
    using trim_right_prefix [of "trim_left s"] by (auto simp: trim_space_def)
  have "\<not> has_prefix (trim_space s) p" if "p \<in> set space_seqs" "p \<noteq> []" for p
  proof
    assume "has_prefix (trim_space s) p"
    then have "has_prefix (trim_left s) p" unfolding q by (auto simp: has_prefix_iff)
    then show False using strip_units_result [OF that, of s] by (simp add: trim_left_def)
  qed
  then have "trim_left (trim_space s) = trim_space s"
    unfolding trim_left_def by (intro strip_units_stop) blast
  then show ?thesis
    by (simp add: trim_space_def trim_right_def strip_units_idem)
qed

lemma trim_space_subset: "c \<in> set (trim_space s) \<Longrightarrow> c \<in> set s"
proof -
  obtain q where "trim_left s = trim_space s @ q"
    using trim_right_prefix [of "trim_left s"] by (auto simp: trim_space_def)
  moreover obtain r where "s = r @ trim_left s"
    using strip_units_suffix [of s space_seqs] by (auto simp: trim_left_def)
  ultimately have "s = r @ trim_space s @ q" by simp
  then show "c \<in> set (trim_space s) \<Longrightarrow> c \<in> set s" by (metis Un_iff set_append)
qed

end
