(* ===== verification/Go_Numbers.thy ===== *)
theory Go_Numbers
  imports Go_Strings
begin

text \<open>
  The part of Go's integers, \<open>strconv\<close>, \<open>encoding/hex\<close>, \<open>hash/crc32\<close> and
  \<open>time.Duration\<close> that the program uses. Go's \<open>int\<close> and \<open>int64\<close> are 64-bit two's
  complement: a value is an \<^typ>\<open>int\<close> in range, and \<open>i64\<close> is the wrap-around that
  every arithmetic operation of the code goes through.
\<close>

unbundle bit_operations_syntax

section \<open>64-bit integers\<close>

definition i64 :: "int \<Rightarrow> int" where
  "i64 x = sint (word_of_int x :: 64 word)"

definition max_i64 :: int where
  "max_i64 = 9223372036854775807"

definition min_i64 :: int where
  "min_i64 = - 9223372036854775808"

definition in_i64 :: "int \<Rightarrow> bool" where
  "in_i64 x \<longleftrightarrow> min_i64 \<le> x \<and> x \<le> max_i64"

lemma i64_signed: "i64 x = signed_take_bit 63 x"
  by (simp add: i64_def signed_of_int)

lemma i64_id: "in_i64 x \<Longrightarrow> i64 x = x"
  unfolding i64_signed in_i64_def min_i64_def max_i64_def
  by (rule signed_take_bit_int_eq_self) simp_all

lemma i64_range: "in_i64 (i64 x)"
  using signed_take_bit_int_greater_eq_minus_exp [of 63 x] signed_take_bit_int_less_exp [of 63 x]
  by (simp add: i64_signed in_i64_def min_i64_def max_i64_def)

lemma i64_cong: "18446744073709551616 dvd x - y \<Longrightarrow> i64 x = i64 y"
proof -
  assume "18446744073709551616 dvd x - y"
  then have "take_bit 64 x = take_bit 64 y"
    by (simp add: take_bit_eq_mod mod_eq_dvd_iff)
  then have "(word_of_int x :: 64 word) = word_of_int y"
    by transfer simp
  then show ?thesis by (simp add: i64_def)
qed

section \<open>strconv: parsing and printing decimal integers\<close>

datatype num_error = ErrSyntax | ErrRange

definition is_digit :: "char \<Rightarrow> bool" where
  "is_digit c \<longleftrightarrow> 48 \<le> (of_char c :: nat) \<and> (of_char c :: nat) \<le> 57"

definition digit_val :: "char \<Rightarrow> nat" where
  "digit_val c = of_char c - 48"

text \<open>
  The loop of \<open>strconv.ParseUint(s, 10, 64)\<close>: bytes are read left to right, and an
  overflow is reported at the byte that causes it, before later bytes are looked at.
\<close>

fun uint_loop :: "nat \<Rightarrow> string \<Rightarrow> (num_error, nat) result" where
  "uint_loop n [] = Inr n"
| "uint_loop n (c # cs) =
     (if \<not> is_digit c then Inl ErrSyntax
      else let m = n * 10 + digit_val c
           in if m > 18446744073709551615 then Inl ErrRange else uint_loop m cs)"

definition parse_uint :: "string \<Rightarrow> (num_error, nat) result" where
  "parse_uint s = (if s = [] then Inl ErrSyntax else uint_loop 0 s)"

text \<open>
  \<open>strconv.ParseInt(s, 10, 64)\<close> (and \<open>strconv.Atoi\<close>, the same on a 64-bit machine):
  the value returned beside a range error is the bound, beside a syntax error 0.
\<close>

definition parse_int :: "string \<Rightarrow> int \<times> num_error option" where
  "parse_int s =
     (let neg = has_prefix s ''-'';
          ds = (if neg \<or> has_prefix s ''+'' then drop 1 s else s)
      in case parse_uint ds of
           Inl ErrSyntax \<Rightarrow> (0, Some ErrSyntax)
         | Inl ErrRange \<Rightarrow> (if neg then min_i64 else max_i64, Some ErrRange)
         | Inr un \<Rightarrow>
             if \<not> neg \<and> int un > max_i64 then (max_i64, Some ErrRange)
             else if neg \<and> - int un < min_i64 then (min_i64, Some ErrRange)
             else (if neg then - int un else int un, None))"

text \<open>\<open>strconv.FormatInt(i, 10)\<close> and \<open>%d\<close>.\<close>

fun dec_nat :: "nat \<Rightarrow> string" where
  "dec_nat n =
     (if n < 10 then [char_of (48 + n)] else dec_nat (n div 10) @ [char_of (48 + n mod 10)])"

declare dec_nat.simps [simp del]

definition format_int :: "int \<Rightarrow> string" where
  "format_int i = (if i < 0 then ''-'' @ dec_nat (nat (- i)) else dec_nat (nat i))"

lemma digit_char [simp]: "d < 10 \<Longrightarrow> is_digit (char_of (48 + d)) \<and> digit_val (char_of (48 + d)) = d"
  by (simp add: is_digit_def digit_val_def)

lemma digit_literals:
  "char_of (48 :: nat) = CHR ''0''" "char_of (49 :: nat) = CHR ''1''" "char_of (50 :: nat) = CHR ''2''"
  "char_of (51 :: nat) = CHR ''3''" "char_of (52 :: nat) = CHR ''4''" "char_of (53 :: nat) = CHR ''5''"
  "char_of (54 :: nat) = CHR ''6''" "char_of (55 :: nat) = CHR ''7''" "char_of (56 :: nat) = CHR ''8''"
  "char_of (57 :: nat) = CHR ''9''"
  by code_simp+

lemma dec_nat_ne [simp]: "dec_nat n \<noteq> []"
  by (subst dec_nat.simps) simp

lemma dec_nat_digits: "list_all is_digit (dec_nat n)"
proof (induction n rule: dec_nat.induct)
  case (1 n)
  then show ?case by (subst dec_nat.simps) simp
qed

lemma uint_loop_append:
  "uint_loop n (xs @ ys) = (case uint_loop n xs of Inl e \<Rightarrow> Inl e | Inr m \<Rightarrow> uint_loop m ys)"
  by (induction xs arbitrary: n) (auto simp: Let_def)

lemma uint_loop_dec: "n \<le> 18446744073709551615 \<Longrightarrow> uint_loop 0 (dec_nat n) = Inr n"
proof (induction n rule: dec_nat.induct)
  case (1 n)
  show ?case
  proof (cases "n < 10")
    case True
    with 1 show ?thesis by (subst dec_nat.simps) (simp add: Let_def)
  next
    case False
    with 1 have "uint_loop 0 (dec_nat (n div 10)) = Inr (n div 10)" by simp
    moreover have "n div 10 * 10 + n mod 10 = n" by simp
    ultimately show ?thesis
      using 1(2) False by (subst dec_nat.simps) (simp add: uint_loop_append Let_def)
  qed
qed

lemma dec_nat_head: "is_digit (hd (dec_nat n))"
  using dec_nat_digits [of n] by (cases "dec_nat n") auto

lemma has_prefix_one: "s \<noteq> [] \<Longrightarrow> has_prefix s [c] \<longleftrightarrow> hd s = c"
  by (cases s) (auto simp: has_prefix_def)

lemma dec_nat_no_sign: "\<not> has_prefix (dec_nat n) ''-''" "\<not> has_prefix (dec_nat n) ''+''"
proof -
  have "hd (dec_nat n) \<noteq> CHR ''-''" "hd (dec_nat n) \<noteq> CHR ''+''"
    using dec_nat_head [of n] by (auto simp: is_digit_def)
  then show "\<not> has_prefix (dec_nat n) ''-''" "\<not> has_prefix (dec_nat n) ''+''"
    by (simp_all add: has_prefix_one)
qed

lemma parse_uint_dec: "n \<le> 18446744073709551615 \<Longrightarrow> parse_uint (dec_nat n) = Inr n"
  by (simp add: parse_uint_def uint_loop_dec)

text \<open>Printing an \<open>int64\<close> and parsing it back gives the number and no error.\<close>

lemma parse_format_int: "in_i64 i \<Longrightarrow> parse_int (format_int i) = (i, None)"
proof (cases "i < 0")
  case True
  assume i: "in_i64 i"
  with True have "parse_uint (dec_nat (nat (- i))) = Inr (nat (- i))"
    by (intro parse_uint_dec) (auto simp: in_i64_def min_i64_def nat_le_iff)
  with True i show ?thesis
    by (simp add: parse_int_def format_int_def has_prefix_def in_i64_def Let_def)
next
  case False
  assume i: "in_i64 i"
  with False have "parse_uint (dec_nat (nat i)) = Inr (nat i)"
    by (intro parse_uint_dec) (auto simp: in_i64_def max_i64_def nat_le_iff)
  with False i show ?thesis
    by (simp add: parse_int_def format_int_def dec_nat_no_sign in_i64_def Let_def)
qed

lemma parse_int_range: "in_i64 (fst (parse_int s))"
  by (auto simp: parse_int_def in_i64_def min_i64_def max_i64_def Let_def
      split: sum.splits num_error.splits)

lemma format_int_inj: "in_i64 i \<Longrightarrow> in_i64 j \<Longrightarrow> format_int i = format_int j \<Longrightarrow> i = j"
  by (metis parse_format_int prod.inject)

text \<open>The digits of a printed number: their value, the first of them, how many and which.\<close>

lemma digits_value: "foldl (\<lambda>n c. n * 10 + digit_val c) 0 (dec_nat n) = n"
proof (induction n rule: dec_nat.induct)
  case (1 n)
  then show ?case by (cases "n < 10"; subst dec_nat.simps) simp_all
qed

lemma dec_nat_less_10: "n < 10 \<Longrightarrow> dec_nat n = [char_of (48 + n)]"
  by (subst dec_nat.simps) simp

lemma dec_nat_step: "\<not> n < 10 \<Longrightarrow> dec_nat n = dec_nat (n div 10) @ [char_of (48 + n mod 10)]"
  by (subst dec_nat.simps) simp

lemma dec_nat_hd: "0 < n \<Longrightarrow> hd (dec_nat n) \<noteq> CHR ''0''"
proof (induction n rule: dec_nat.induct)
  case (1 n)
  show ?case
  proof (cases "n < 10")
    case True
    then have "char_of (48 + n) \<noteq> CHR ''0''"
      using 1(2) by (simp add: char_of_eq_iff take_bit_nat_eq_self)
    with True show ?thesis by (simp add: dec_nat_less_10)
  next
    case False
    with 1 show ?thesis by (simp add: dec_nat_step)
  qed
qed

lemma dec_nat_length: "n < 10 ^ Suc k \<Longrightarrow> length (dec_nat n) \<le> Suc k"
proof (induction k arbitrary: n)
  case 0
  then show ?case by (simp add: dec_nat_less_10)
next
  case (Suc k)
  show ?case
  proof (cases "n < 10")
    case True
    then show ?thesis by (simp add: dec_nat_less_10)
  next
    case False
    with Suc.IH [of "n div 10"] Suc.prems show ?thesis
      by (simp add: dec_nat_step div_less_iff_less_mult)
  qed
qed

lemma dec_nat_set: "set (dec_nat n) \<subseteq> {c. is_digit c}"
  using dec_nat_digits [of n] by (auto simp: list_all_iff)

lemma not_digit [simp]:
  "\<not> is_digit CHR ''.''" "\<not> is_digit CHR '':''" "\<not> is_digit CHR ''/''" "\<not> is_digit CHR ''%''"
  "\<not> is_digit CHR ''[''" "\<not> is_digit CHR '']''"
  by (simp_all add: is_digit_def)

lemma not_in_dec_nat: "\<not> is_digit c \<Longrightarrow> c \<notin> set (dec_nat n)"
  using dec_nat_set by auto

section \<open>encoding/hex\<close>

definition hex_digit :: "nat \<Rightarrow> char" where
  "hex_digit n = ''0123456789abcdef'' ! n"

text \<open>\<open>hex.EncodeToString\<close>: two lower-case digits per byte.\<close>

fun hex_encode :: "8 word list \<Rightarrow> string" where
  "hex_encode [] = []"
| "hex_encode (b # bs) = hex_digit (unat b div 16) # hex_digit (unat b mod 16) # hex_encode bs"

lemma hex_digit_inj: "m < 16 \<Longrightarrow> n < 16 \<Longrightarrow> hex_digit m = hex_digit n \<Longrightarrow> m = n"
proof -
  assume "m < 16" and "n < 16" and "hex_digit m = hex_digit n"
  moreover have "distinct ''0123456789abcdef''" by simp
  ultimately show "m = n"
    unfolding hex_digit_def by (subst (asm) nth_eq_iff_index_eq) simp_all
qed

lemma length_hex_encode [simp]: "length (hex_encode bs) = 2 * length bs"
  by (induction bs) auto

lemma hex_encode_inj: "hex_encode as = hex_encode bs \<Longrightarrow> as = bs"
proof (induction as arbitrary: bs)
  case Nil
  then show ?case by (cases bs) auto
next
  case (Cons a as)
  then obtain b bs' where bs: "bs = b # bs'" by (cases bs) auto
  have lt: "unat w < 256" for w :: "8 word" using unsigned_less [of w] by simp
  from Cons.prems bs have
    "hex_digit (unat a div 16) = hex_digit (unat b div 16)"
    "hex_digit (unat a mod 16) = hex_digit (unat b mod 16)" by simp_all
  then have "unat a div 16 = unat b div 16" "unat a mod 16 = unat b mod 16"
    using lt [of a] lt [of b] by (simp_all add: hex_digit_inj less_mult_imp_div_less)
  then have "unat a = unat b" by (metis div_mult_mod_eq)
  then have "a = b" by (simp add: word_unat_eq_iff)
  with Cons bs show ?case by simp
qed

lemma hex_encode_ne: "bs \<noteq> [] \<Longrightarrow> hex_encode bs \<noteq> []"
  by (cases bs) auto

section \<open>hash/crc32 with the IEEE polynomial\<close>

definition crc_bit :: "32 word \<Rightarrow> 32 word" where
  "crc_bit r = (if r AND 1 = 1 then drop_bit 1 r XOR 0xEDB88320 else drop_bit 1 r)"

definition crc_byte :: "char \<Rightarrow> 32 word \<Rightarrow> 32 word" where
  "crc_byte c r = (crc_bit ^^ 8) (r XOR of_nat (of_char c))"

definition crc32_ieee :: "string \<Rightarrow> 32 word" where
  "crc32_ieee s = NOT (fold crc_byte s 0xFFFFFFFF)"

text \<open>The check value of the CRC catalogue.\<close>

lemma crc_bit_numeral:
  "crc_bit (numeral k) =
    (if numeral k AND 1 = (1 :: 32 word) then drop_bit 1 (numeral k) XOR 0xEDB88320
     else drop_bit 1 (numeral k))"
  by (simp only: crc_bit_def)

lemma crc_byte_unfold:
  "crc_byte c r = crc_bit (crc_bit (crc_bit (crc_bit (crc_bit (crc_bit (crc_bit (crc_bit
     (r XOR of_nat (of_char c)))))))))"
  by (simp add: crc_byte_def eval_nat_numeral)

lemma crc32_check_value: "crc32_ieee ''123456789'' = 0xCBF43926"
  by (simp add: crc32_ieee_def crc_byte_unfold crc_bit_numeral)

text \<open>\<open>%08x\<close> of an \<open>uint32\<close>.\<close>

definition hex8 :: "32 word \<Rightarrow> string" where
  "hex8 w = map (\<lambda>i. hex_digit (unat (drop_bit (4 * i) w) mod 16)) [7, 6, 5, 4, 3, 2, 1, 0]"

section \<open>time.Duration\<close>

text \<open>A \<open>Duration\<close> is an \<open>int64\<close> count of nanoseconds; \<open>time.Second\<close> is 10 to the 9.\<close>

definition second :: int where
  "second = 1000000000"

definition dur_secs :: "int \<Rightarrow> int" where
  "dur_secs n = i64 (n * second)"

end
