(* ===== verification/Sql.thy ===== *)
theory Sql
  imports Go_Numbers "HOL-Library.List_Lexorder" "HOL-Library.Char_ord"
begin

text \<open>
  The database as \<open>database/sql\<close> shows it to the repositories: the tables of
  \<open>migrations/\<close> as lists of rows, and the calls \<open>ExecContext\<close>, \<open>QueryRowContext\<close>,
  \<open>QueryContext\<close>, \<open>BeginTx\<close>, \<open>Commit\<close> and \<open>Rollback\<close>. The SQL text of each
  statement is part of the program and is translated, statement by statement, in the
  repository theories; the server that runs it is the parameter \<open>env\<close>: whether each call
  succeeds, what its clock says, the ids it hands out, its collation, its \<open>LIKE\<close>, and
  the order it gives to rows that \<open>ORDER BY\<close> leaves tied. Calls are numbered by
  \<open>tick\<close>, and \<open>env\<close> answers for each number separately, so a theorem over all
  \<open>env\<close> covers every pattern of failures and every course of the clock.
\<close>

section \<open>Rows and tables\<close>

text \<open>Timestamps are seconds, the precision of \<open>DATETIME\<close>; a \<open>NULL\<close>able column is an option.\<close>

record note_row =
  n_id :: int
  n_user :: int
  n_title :: string
  n_body :: string
  n_created :: int
  n_updated :: int
  n_deleted :: "int option"

record user_row =
  u_id :: int
  u_email :: string
  u_hash :: string

record token_row =
  tk_token :: string
  tk_user :: int
  tk_expires :: int
  tk_used :: "int option"

record idem_row =
  ik_key :: string
  ik_user :: int
  ik_method :: string
  ik_path :: string
  ik_body :: string
  ik_note :: "int option"
  ik_claimed :: int
  ik_completed :: "int option"
  ik_result :: "string option"

record audit_row =
  au_id :: int
  au_user :: "int option"
  au_method :: string
  au_path :: string
  au_status :: int
  au_ip :: string
  au_rid :: string
  au_created :: int

record tables =
  note_rows :: "note_row list"
  user_rows :: "user_row list"
  role_rows :: "(int \<times> string) list"
  user_role_rows :: "(int \<times> int) list"
  token_rows :: "token_row list"
  idem_rows :: "idem_row list"
  audit_rows :: "audit_row list"

text \<open>
  The key of \<open>idempotency\_keys\<close>: \<open>key\<close> alone (migration 0007) or \<open>(user\_id, key)\<close>
  (migration 0010, which says IF NOT EXISTS and so has no effect after 0007).
\<close>

datatype idem_schema = PerKey | PerUserKey

record db =
  tick :: nat
  tabs :: tables

section \<open>The server\<close>

text \<open>
  \<open>Okay\<close>: the call succeeds. \<open>Refused\<close>: it fails without effect. \<open>Lost\<close>: its
  effect takes place but the acknowledgement does not arrive, so the caller sees an error.
\<close>

datatype outcome = Okay | Refused | Lost

datatype dberr = NoRows | Duplicate | Fault

record env =
  out :: "nat \<Rightarrow> outcome"
  now :: "nat \<Rightarrow> int"
  auto_id :: "nat \<Rightarrow> int"
  weight :: "string \<Rightarrow> string"
  like :: "string \<Rightarrow> string \<Rightarrow> bool"
  arrange :: "nat \<Rightarrow> (note_row \<Rightarrow> note_row \<Rightarrow> bool) \<Rightarrow> note_row list \<Rightarrow> note_row list"

text \<open>Text columns compare by collation weight.\<close>

definition text_eq :: "env \<Rightarrow> string \<Rightarrow> string \<Rightarrow> bool" where
  "text_eq e a b \<longleftrightarrow> weight e a = weight e b"

lemma text_eq_refl [simp]: "text_eq e a a"
  by (simp add: text_eq_def)

lemma text_eq_sym: "text_eq e a b \<Longrightarrow> text_eq e b a"
  by (simp add: text_eq_def)

lemma text_eq_trans: "text_eq e a b \<Longrightarrow> text_eq e b c \<Longrightarrow> text_eq e a c"
  by (simp add: text_eq_def)

text \<open>Documented behaviour of the server that theorems name when they need it.\<close>

definition steady_clock :: "env \<Rightarrow> bool" where
  "steady_clock e \<longleftrightarrow> mono (now e)"

lemma steady_clockD: "steady_clock e \<Longrightarrow> m \<le> n \<Longrightarrow> now e m \<le> now e n"
  by (simp add: steady_clock_def monoD)

definition fresh_ids :: "env \<Rightarrow> bool" where
  "fresh_ids e \<longleftrightarrow> inj (auto_id e)"

definition total_preorder :: "('a \<Rightarrow> 'a \<Rightarrow> bool) \<Rightarrow> bool" where
  "total_preorder le \<longleftrightarrow>
     (\<forall>a b. le a b \<or> le b a) \<and> (\<forall>a b c. le a b \<longrightarrow> le b c \<longrightarrow> le a c)"

definition sorts :: "env \<Rightarrow> bool" where
  "sorts e \<longleftrightarrow> (\<forall>n le xs. total_preorder le \<longrightarrow>
     mset (arrange e n le xs) = mset xs \<and> sorted_wrt le (arrange e n le xs))"

section \<open>Calls outside a transaction\<close>

text \<open>
  A statement maps the call number and the tables to the last insert id and the new tables,
  or to \<open>None\<close> when it violates a key.
\<close>

type_synonym stmt = "nat \<Rightarrow> tables \<Rightarrow> (int \<times> tables) option"

definition exec :: "env \<Rightarrow> stmt \<Rightarrow> db \<Rightarrow> (dberr, int) result \<times> db" where
  "exec e f d =
     (let n = tick d; d1 = d\<lparr>tick := Suc n\<rparr>
      in case out e n of
           Refused \<Rightarrow> (Inl Fault, d1)
         | Okay \<Rightarrow> (case f n (tabs d) of
             None \<Rightarrow> (Inl Duplicate, d1)
           | Some (i, t) \<Rightarrow> (Inr i, d1\<lparr>tabs := t\<rparr>))
         | Lost \<Rightarrow> (case f n (tabs d) of
             None \<Rightarrow> (Inl Fault, d1)
           | Some (i, t) \<Rightarrow> (Inl Fault, d1\<lparr>tabs := t\<rparr>)))"

definition query :: "env \<Rightarrow> (nat \<Rightarrow> tables \<Rightarrow> 'a) \<Rightarrow> db \<Rightarrow> (dberr, 'a) result \<times> db" where
  "query e g d =
     (let n = tick d; d1 = d\<lparr>tick := Suc n\<rparr>
      in if out e n = Okay then (Inr (g n (tabs d)), d1) else (Inl Fault, d1))"

text \<open>\<open>QueryRowContext(...).Scan(...)\<close>: no row is \<open>sql.ErrNoRows\<close>.\<close>

definition query_row ::
  "env \<Rightarrow> (nat \<Rightarrow> tables \<Rightarrow> 'a option) \<Rightarrow> db \<Rightarrow> (dberr, 'a) result \<times> db" where
  "query_row e g d =
     (case query e g d of
        (Inl er, d1) \<Rightarrow> (Inl er, d1)
      | (Inr None, d1) \<Rightarrow> (Inl NoRows, d1)
      | (Inr (Some x), d1) \<Rightarrow> (Inr x, d1))"

section \<open>Transactions\<close>

text \<open>
  \<open>saved\<close> is what a rollback restores, \<open>work\<close> what a commit publishes. A statement
  that fails inside a transaction leaves \<open>work\<close> as it was. A commit can be refused
  (nothing is published) or lose its acknowledgement (everything is).
\<close>

record tx =
  saved :: tables
  work :: db

definition begin_tx :: "env \<Rightarrow> db \<Rightarrow> (dberr, tx) result \<times> db" where
  "begin_tx e d =
     (let d1 = d\<lparr>tick := Suc (tick d)\<rparr>
      in if out e (tick d) = Okay then (Inr \<lparr>saved = tabs d, work = d1\<rparr>, d1)
         else (Inl Fault, d1))"

definition tx_exec :: "env \<Rightarrow> stmt \<Rightarrow> tx \<Rightarrow> dberr option \<times> tx" where
  "tx_exec e f x =
     (let d = work x; n = tick d; d1 = d\<lparr>tick := Suc n\<rparr>
      in if out e n = Okay
         then (case f n (tabs d) of
             None \<Rightarrow> (Some Duplicate, x\<lparr>work := d1\<rparr>)
           | Some (i, t) \<Rightarrow> (None, x\<lparr>work := d1\<lparr>tabs := t\<rparr>\<rparr>))
         else (Some Fault, x\<lparr>work := d1\<rparr>))"

definition tx_query_row ::
  "env \<Rightarrow> (nat \<Rightarrow> tables \<Rightarrow> 'a option) \<Rightarrow> tx \<Rightarrow> (dberr, 'a) result \<times> tx" where
  "tx_query_row e g x = (case query_row e g (work x) of (r, d1) \<Rightarrow> (r, x\<lparr>work := d1\<rparr>))"

definition commit :: "env \<Rightarrow> tx \<Rightarrow> dberr option \<times> db" where
  "commit e x =
     (let d = work x; d1 = d\<lparr>tick := Suc (tick d)\<rparr>
      in case out e (tick d) of
           Okay \<Rightarrow> (None, d1)
         | Refused \<Rightarrow> (Some Fault, d1\<lparr>tabs := saved x\<rparr>)
         | Lost \<Rightarrow> (Some Fault, d1))"

definition rollback :: "tx \<Rightarrow> db" where
  "rollback x = (work x)\<lparr>tick := Suc (tick (work x)), tabs := saved x\<rparr>"

lemmas sql_prims [sql_defs] =
  exec_def query_def query_row_def begin_tx_def tx_exec_def tx_query_row_def commit_def
  rollback_def

text \<open>Every call advances the call number.\<close>

lemma tick_exec [simp]: "tick (snd (exec e f d)) = Suc (tick d)"
  by (simp add: exec_def Let_def split: outcome.splits option.splits)

lemma tick_query [simp]: "tick (snd (query e g d)) = Suc (tick d)"
  by (simp add: query_def Let_def)

lemma tabs_query [simp]: "tabs (snd (query e g d)) = tabs d"
  by (simp add: query_def Let_def)

lemma query_row_unfold:
  "query_row e g d =
     (if out e (tick d) = Okay
      then (case g (tick d) (tabs d) of None \<Rightarrow> Inl NoRows | Some x \<Rightarrow> Inr x)
      else Inl Fault, d\<lparr>tick := Suc (tick d)\<rparr>)"
  by (simp add: query_row_def query_def Let_def split: option.splits)

lemma tx_query_row_unfold:
  "tx_query_row e g x =
     (if out e (tick (work x)) = Okay
      then (case g (tick (work x)) (tabs (work x)) of None \<Rightarrow> Inl NoRows | Some r \<Rightarrow> Inr r)
      else Inl Fault, x\<lparr>work := (work x)\<lparr>tick := Suc (tick (work x))\<rparr>\<rparr>)"
  by (simp add: tx_query_row_def query_row_unfold)

text \<open>A statement that preserves a property of the tables preserves it however its call ends.\<close>

lemma exec_preserves:
  assumes "P (tabs d)" and "\<And>n t i t'. P t \<Longrightarrow> f n t = Some (i, t') \<Longrightarrow> P t'"
  shows "P (tabs (snd (exec e f d)))"
  using assms by (auto simp: exec_def Let_def split: outcome.splits option.splits)

lemma tx_exec_preserves:
  assumes "P (tabs (work x))" and "\<And>n t i t'. P t \<Longrightarrow> f n t = Some (i, t') \<Longrightarrow> P t'"
  shows "P (tabs (work (snd (tx_exec e f x))))"
  using assms by (auto simp: tx_exec_def Let_def split: option.splits)

lemma saved_tx_exec [simp]: "saved (snd (tx_exec e f x)) = saved x"
  by (simp add: tx_exec_def Let_def split: option.splits)

end
