(* ===== verification/One_Shot.thy ===== *)
theory One_Shot
  imports Sql
begin

text \<open>
  The contract that refresh tokens, users whose sessions were revoked, and idempotency keys
  share: a resource that can be taken once. The provider says when a resource is spent,
  which operations mint it (again), and when taking it in the way \<open>a\<close> succeeds; the client
  concludes that no history without a new mint lets a spent resource be taken.
  \<open>Refresh_Tokens\<close> and \<open>Idempotency\<close> interpret it.
\<close>

locale one_shot =
  fixes step :: "'op \<Rightarrow> 's \<Rightarrow> 's"
    and spent :: "'t \<Rightarrow> 's \<Rightarrow> bool"
    and mints :: "'op \<Rightarrow> 't \<Rightarrow> bool"
    and takes :: "'a \<Rightarrow> 't \<Rightarrow> 's \<Rightarrow> bool"
  assumes spent_step: "spent t s \<Longrightarrow> \<not> mints p t \<Longrightarrow> spent t (step p s)"
    and spent_blocks: "spent t s \<Longrightarrow> \<not> takes a t s"
begin

lemma spent_history:
  "spent t s \<Longrightarrow> list_all (\<lambda>p. \<not> mints p t) ps \<Longrightarrow> spent t (fold step ps s)"
  by (induction ps arbitrary: s) (auto simp: spent_step)

lemma never_taken_again:
  "spent t s \<Longrightarrow> list_all (\<lambda>p. \<not> mints p t) ps \<Longrightarrow> \<not> takes a t (fold step ps s)"
  using spent_history spent_blocks by blast

end

text \<open>
  When taking a resource also spends it, at most one of the takes in a history without mints
  succeeds.
\<close>

locale one_shot_take = one_shot step spent mints takes
  for step :: "'op \<Rightarrow> 's \<Rightarrow> 's" and spent :: "'t \<Rightarrow> 's \<Rightarrow> bool"
    and mints :: "'op \<Rightarrow> 't \<Rightarrow> bool" and takes :: "'a \<Rightarrow> 't \<Rightarrow> 's \<Rightarrow> bool" +
  fixes take_op :: "'a \<Rightarrow> 't \<Rightarrow> 'op"
  assumes take_spends: "takes a t s \<Longrightarrow> spent t (step (take_op a t) s)"
begin

lemma taken_once:
  "takes a t s \<Longrightarrow> list_all (\<lambda>p. \<not> mints p t) ps \<Longrightarrow>
   \<not> takes a' t (fold step ps (step (take_op a t) s))"
  using take_spends never_taken_again by blast

end

end
