(* ===== verification/Demo.thy ===== *)
theory Demo
  imports Sql
begin

text \<open>
  A sample server and sample tables, on which the witnesses of the development evaluate its
  theorems: every call succeeds, the clock stands at 100, ids count up from 1, text compares
  byte by byte, \<open>LIKE '%q%'\<close> is \<open>contains q\<close>, and \<open>ORDER BY\<close> is an insertion sort.
\<close>

fun insert_by :: "('a \<Rightarrow> 'a \<Rightarrow> bool) \<Rightarrow> 'a \<Rightarrow> 'a list \<Rightarrow> 'a list" where
  "insert_by le x [] = [x]"
| "insert_by le x (y # ys) = (if le x y then x # y # ys else y # insert_by le x ys)"

definition sort_by :: "('a \<Rightarrow> 'a \<Rightarrow> bool) \<Rightarrow> 'a list \<Rightarrow> 'a list" where
  "sort_by le xs = foldr (insert_by le) xs []"

lemma mset_insert_by [simp]: "mset (insert_by le x xs) = add_mset x (mset xs)"
  by (induction xs) auto

lemma set_insert_by [simp]: "set (insert_by le x xs) = insert x (set xs)"
  by (induction xs) auto

lemma mset_sort_by [simp]: "mset (sort_by le xs) = mset xs"
  unfolding sort_by_def by (induction xs) auto

lemma sorted_insert_by:
  assumes "total_preorder le"
  shows "sorted_wrt le xs \<Longrightarrow> sorted_wrt le (insert_by le x xs)"
proof (induction xs)
  case Nil
  then show ?case by simp
next
  case (Cons y ys)
  have "le x y \<or> le y x" and "\<And>z. le x y \<Longrightarrow> le y z \<Longrightarrow> le x z"
    using assms unfolding total_preorder_def by blast+
  with Cons show ?case by auto
qed

lemma sorted_sort_by: "total_preorder le \<Longrightarrow> sorted_wrt le (sort_by le xs)"
  unfolding sort_by_def by (induction xs) (auto simp: sorted_insert_by)

definition demo_env :: env where
  "demo_env =
     \<lparr>out = (\<lambda>_. Okay), now = (\<lambda>_. 100), auto_id = (\<lambda>n. int n + 1), weight = (\<lambda>s. s),
      like = (\<lambda>p s. sublist (butlast (tl p)) s), arrange = (\<lambda>n. sort_by)\<rparr>"

lemma demo_env_simps [simp]:
  "out demo_env n = Okay" "now demo_env n = 100" "auto_id demo_env n = int n + 1"
  "weight demo_env s = s" "like demo_env p s = sublist (butlast (tl p)) s"
  "arrange demo_env n = sort_by"
  by (simp_all add: demo_env_def)

lemma demo_text_eq [simp]: "text_eq demo_env a b \<longleftrightarrow> a = b"
  by (simp add: text_eq_def)

lemma demo_steady [simp]: "steady_clock demo_env"
  by (simp add: steady_clock_def mono_def)

lemma demo_fresh [simp]: "fresh_ids demo_env"
  by (simp add: fresh_ids_def inj_def)

lemma demo_sorts [simp]: "sorts demo_env"
  by (simp add: sorts_def sorted_sort_by)

text \<open>The tables as the migrations leave them: two roles, nothing else.\<close>

definition empty_tables :: tables where
  "empty_tables = \<lparr>note_rows = [], user_rows = [],
     role_rows = [(1, ''admin''), (2, ''user'')], user_role_rows = [],
     token_rows = [], idem_rows = [], audit_rows = []\<rparr>"

definition empty_db :: db where
  "empty_db = \<lparr>tick = 0, tabs = empty_tables\<rparr>"

lemma empty_db_simps [simp]:
  "tick empty_db = 0" "tabs empty_db = empty_tables"
  "note_rows empty_tables = []" "user_rows empty_tables = []" "user_role_rows empty_tables = []"
  "role_rows empty_tables = [(1, ''admin''), (2, ''user'')]"
  "token_rows empty_tables = []" "idem_rows empty_tables = []" "audit_rows empty_tables = []"
  by (simp_all add: empty_db_def empty_tables_def)

end
