(* ===== verification/Refresh_Tokens.thy ===== *)
theory Refresh_Tokens
  imports One_Shot Demo
begin

text \<open>
  \<open>internal/repos/refresh\_tokens.go\<close>: issuing, using, rotating and revoking refresh
  tokens over the table \<open>refresh\_tokens\<close> (migrations 0003 and 0004). The bytes that
  \<open>rand.Read\<close> delivers are the argument \<open>b\<close>; an operation returns the Go results and
  the database it leaves.
\<close>

section \<open>The statements\<close>

text \<open>\<open>WHERE token=? AND expires\_at>NOW()\<close> on the rows, and the row that is inserted.\<close>

definition live_token :: "env \<Rightarrow> string \<Rightarrow> int \<Rightarrow> token_row list \<Rightarrow> token_row option" where
  "live_token e tok tm rs = List.find (\<lambda>r. text_eq e (tk_token r) tok \<and> tm < tk_expires r) rs"

definition has_token :: "env \<Rightarrow> string \<Rightarrow> token_row list \<Rightarrow> bool" where
  "has_token e tok rs \<longleftrightarrow> list_ex (\<lambda>r. text_eq e (tk_token r) tok) rs"

definition mark_used :: "env \<Rightarrow> string \<Rightarrow> int \<Rightarrow> token_row list \<Rightarrow> token_row list" where
  "mark_used e tok tm rs =
     map (\<lambda>r. if text_eq e (tk_token r) tok then r\<lparr>tk_used := Some tm\<rparr> else r) rs"

definition drop_active :: "int \<Rightarrow> int \<Rightarrow> token_row list \<Rightarrow> token_row list" where
  "drop_active uid tm rs = filter (\<lambda>r. \<not> (tk_user r = uid \<and> tm < tk_expires r)) rs"

definition drop_token :: "env \<Rightarrow> string \<Rightarrow> token_row list \<Rightarrow> token_row list" where
  "drop_token e tok rs = filter (\<lambda>r. \<not> text_eq e (tk_token r) tok) rs"

definition fresh_row :: "string \<Rightarrow> int \<Rightarrow> int \<Rightarrow> token_row" where
  "fresh_row tok uid expiry =
     \<lparr>tk_token = tok, tk_user = uid, tk_expires = expiry, tk_used = None\<rparr>"

text \<open>The SELECT, the UPDATE, the two DELETEs and the INSERT (\<open>token\<close> is the primary key).\<close>

definition sel_token :: "env \<Rightarrow> string \<Rightarrow> nat \<Rightarrow> tables \<Rightarrow> (int \<times> int option) option" where
  "sel_token e tok n t =
     map_option (\<lambda>r. (tk_user r, tk_used r)) (live_token e tok (now e n) (token_rows t))"

definition upd_used :: "env \<Rightarrow> string \<Rightarrow> stmt" where
  "upd_used e tok n t = Some (0, t\<lparr>token_rows := mark_used e tok (now e n) (token_rows t)\<rparr>)"

definition del_active :: "env \<Rightarrow> int \<Rightarrow> stmt" where
  "del_active e uid n t = Some (0, t\<lparr>token_rows := drop_active uid (now e n) (token_rows t)\<rparr>)"

definition ins_token :: "env \<Rightarrow> string \<Rightarrow> int \<Rightarrow> int \<Rightarrow> stmt" where
  "ins_token e tok uid expiry n t =
     (if has_token e tok (token_rows t) then None
      else Some (0, t\<lparr>token_rows := token_rows t @ [fresh_row tok uid expiry]\<rparr>))"

definition del_token :: "env \<Rightarrow> string \<Rightarrow> stmt" where
  "del_token e tok n t = Some (0, t\<lparr>token_rows := drop_token e tok (token_rows t)\<rparr>)"

lemmas token_stmts [sql_defs] =
  sel_token_def upd_used_def del_active_def ins_token_def del_token_def

lemma has_token_iff: "has_token e tok rs \<longleftrightarrow> (\<exists>r\<in>set rs. text_eq e (tk_token r) tok)"
  by (simp add: has_token_def list_ex_iff)

lemma has_token_mark_used [simp]: "has_token e tok (mark_used e tok' tm rs) = has_token e tok rs"
  by (induction rs) (auto simp: has_token_def mark_used_def)

lemma live_tokenD:
  "live_token e tok tm rs = Some r \<Longrightarrow>
   r \<in> set rs \<and> text_eq e (tk_token r) tok \<and> tm < tk_expires r"
  unfolding live_token_def by (drule find_SomeD) simp

section \<open>The operations\<close>

definition Issue :: "env \<Rightarrow> int \<Rightarrow> int \<Rightarrow> 8 word list \<Rightarrow> db \<Rightarrow> (string \<times> dberr option) \<times> db" where
  "Issue e uid expiry b d =
     (let tok = hex_encode b
      in case exec e (ins_token e tok uid expiry) d of
           (Inl er, d1) \<Rightarrow> ((tok, Some er), d1)
         | (Inr _, d1) \<Rightarrow> ((tok, None), d1))"

text \<open>
  \<open>Use\<close> marks the token used; a token that was used before also loses its user every
  unexpired token. The error of that last statement is dropped by the code.
\<close>

definition Use :: "env \<Rightarrow> string \<Rightarrow> db \<Rightarrow> (int \<times> bool \<times> dberr option) \<times> db" where
  "Use e token d =
     (case begin_tx e d of
        (Inl er, d1) \<Rightarrow> ((0, False, Some er), d1)
      | (Inr x, _) \<Rightarrow>
     (case tx_query_row e (sel_token e token) x of
        (Inl er, x1) \<Rightarrow> ((0, False, Some er), rollback x1)
      | (Inr (uid, usedAt), x1) \<Rightarrow>
          (let reused = usedAt \<noteq> None in
     (case tx_exec e (upd_used e token) x1 of
        (Some er, x2) \<Rightarrow> ((0, False, Some er), rollback x2)
      | (None, x2) \<Rightarrow>
          (let x3 = (if reused then snd (tx_exec e (del_active e uid) x2) else x2)
           in case commit e x3 of (err, d4) \<Rightarrow> ((uid, reused, err), d4))))))"

text \<open>\<open>UseAndRotate\<close>: results \<open>(uid, newTok, reused, err)\<close>.\<close>

definition UseAndRotate ::
  "env \<Rightarrow> string \<Rightarrow> int \<Rightarrow> 8 word list \<Rightarrow> db \<Rightarrow> (int \<times> string \<times> bool \<times> dberr option) \<times> db" where
  "UseAndRotate e token newExp b d =
     (case begin_tx e d of
        (Inl er, d1) \<Rightarrow> ((0, [], False, Some er), d1)
      | (Inr x, _) \<Rightarrow>
     (case tx_query_row e (sel_token e token) x of
        (Inl er, x1) \<Rightarrow> ((0, [], False, Some er), rollback x1)
      | (Inr (uid, usedAt), x1) \<Rightarrow>
     (case tx_exec e (upd_used e token) x1 of
        (Some er, x2) \<Rightarrow> ((0, [], False, Some er), rollback x2)
      | (None, x2) \<Rightarrow>
        if usedAt \<noteq> None then
          (case commit e (snd (tx_exec e (del_active e uid) x2)) of
             (Some er, d4) \<Rightarrow> ((0, [], True, Some er), d4)
           | (None, d4) \<Rightarrow> ((uid, [], True, None), d4))
        else
          (let newTok = hex_encode b in
           case tx_exec e (ins_token e newTok uid newExp) x2 of
             (Some er, x3) \<Rightarrow> ((0, [], False, Some er), rollback x3)
           | (None, x3) \<Rightarrow>
               (case commit e x3 of (err, d4) \<Rightarrow> ((uid, newTok, False, err), d4))))))"

definition Revoke :: "env \<Rightarrow> string \<Rightarrow> db \<Rightarrow> dberr option \<times> db" where
  "Revoke e token d =
     (case exec e (del_token e token) d of
        (Inl er, d1) \<Rightarrow> (Some er, d1)
      | (Inr _, d1) \<Rightarrow> (None, d1))"

lemmas token_ops = Issue_def Use_def UseAndRotate_def Revoke_def

section \<open>What the operations do, call by call\<close>

lemmas tx_unfold =
  begin_tx_def tx_query_row_unfold tx_exec_def commit_def rollback_def Let_def

text \<open>
  \<open>UseAndRotate\<close> as one decision table over the outcomes of its (at most five) calls.
\<close>

lemma UseAndRotate_unfold:
  "UseAndRotate e token newExp b d =
   (let n = tick d; rs = token_rows (tabs d);
        fail = (\<lambda>er k. ((0, [], False, Some er), d\<lparr>tick := k\<rparr>))
    in if out e n \<noteq> Okay then fail Fault (n + 1)
    else if out e (n + 1) \<noteq> Okay then fail Fault (n + 3)
    else case live_token e token (now e (n + 1)) rs of None \<Rightarrow> fail NoRows (n + 3)
    | Some r \<Rightarrow>
      if out e (n + 2) \<noteq> Okay then fail Fault (n + 4)
      else let rs1 = mark_used e token (now e (n + 2)) rs
      in if tk_used r \<noteq> None then
        (let rs2 = (if out e (n + 3) = Okay
                    then drop_active (tk_user r) (now e (n + 3)) rs1 else rs1);
             d1 = d\<lparr>tick := n + 5, tabs := (tabs d)\<lparr>token_rows := rs2\<rparr>\<rparr>
         in case out e (n + 4) of
              Okay \<Rightarrow> ((tk_user r, [], True, None), d1)
            | Refused \<Rightarrow> ((0, [], True, Some Fault), d\<lparr>tick := n + 5\<rparr>)
            | Lost \<Rightarrow> ((0, [], True, Some Fault), d1))
      else if out e (n + 3) \<noteq> Okay then fail Fault (n + 5)
      else if has_token e (hex_encode b) rs then fail Duplicate (n + 5)
      else
        (let nt = hex_encode b;
             d1 = d\<lparr>tick := n + 5,
               tabs := (tabs d)\<lparr>token_rows := rs1 @ [fresh_row nt (tk_user r) newExp]\<rparr>\<rparr>
         in case out e (n + 4) of
              Okay \<Rightarrow> ((tk_user r, nt, False, None), d1)
            | Refused \<Rightarrow> ((tk_user r, nt, False, Some Fault), d\<lparr>tick := n + 5\<rparr>)
            | Lost \<Rightarrow> ((tk_user r, nt, False, Some Fault), d1)))"
proof (cases "out e (tick d) = Okay \<and> out e (Suc (tick d)) = Okay")
  case False
  then show ?thesis by (auto simp: UseAndRotate_def tx_unfold)
next
  case ok1: True
  show ?thesis
  proof (cases "live_token e token (now e (Suc (tick d))) (token_rows (tabs d))")
    case None
    with ok1 show ?thesis by (simp add: UseAndRotate_def tx_unfold sel_token_def)
  next
    case (Some r)
    show ?thesis
    proof (cases "out e (Suc (Suc (tick d))) = Okay")
      case False
      with ok1 Some show ?thesis by (simp add: UseAndRotate_def tx_unfold sel_token_def)
    next
      case True
      with ok1 Some show ?thesis
        by (cases "tk_used r"; cases "out e (tick d + 3)"; cases "out e (tick d + 4)")
          (simp_all add: UseAndRotate_def tx_unfold token_stmts numeral_eq_Suc)
    qed
  qed
qed

lemma Use_unfold:
  "Use e token d =
   (let n = tick d; rs = token_rows (tabs d);
        fail = (\<lambda>er k. ((0, False, Some er), d\<lparr>tick := k\<rparr>))
    in if out e n \<noteq> Okay then fail Fault (n + 1)
    else if out e (n + 1) \<noteq> Okay then fail Fault (n + 3)
    else case live_token e token (now e (n + 1)) rs of None \<Rightarrow> fail NoRows (n + 3)
    | Some r \<Rightarrow>
      if out e (n + 2) \<noteq> Okay then fail Fault (n + 4)
      else
        let rs1 = mark_used e token (now e (n + 2)) rs;
            m = (if tk_used r \<noteq> None then n + 4 else n + 3);
            rs2 = (if tk_used r \<noteq> None \<and> out e (n + 3) = Okay
                   then drop_active (tk_user r) (now e (n + 3)) rs1 else rs1);
            d1 = d\<lparr>tick := m + 1, tabs := (tabs d)\<lparr>token_rows := rs2\<rparr>\<rparr>
        in case out e m of
             Okay \<Rightarrow> ((tk_user r, tk_used r \<noteq> None, None), d1)
           | Refused \<Rightarrow> ((tk_user r, tk_used r \<noteq> None, Some Fault), d\<lparr>tick := m + 1\<rparr>)
           | Lost \<Rightarrow> ((tk_user r, tk_used r \<noteq> None, Some Fault), d1))"
proof (cases "out e (tick d) = Okay \<and> out e (Suc (tick d)) = Okay")
  case False
  then show ?thesis by (auto simp: Use_def tx_unfold)
next
  case ok1: True
  show ?thesis
  proof (cases "live_token e token (now e (Suc (tick d))) (token_rows (tabs d))")
    case None
    with ok1 show ?thesis by (simp add: Use_def tx_unfold sel_token_def)
  next
    case (Some r)
    show ?thesis
    proof (cases "out e (Suc (Suc (tick d))) = Okay")
      case False
      with ok1 Some show ?thesis by (simp add: Use_def tx_unfold sel_token_def)
    next
      case True
      with ok1 Some show ?thesis
        by (cases "tk_used r"; cases "out e (tick d + 3)"; cases "out e (tick d + 4)")
          (simp_all add: Use_def tx_unfold token_stmts numeral_eq_Suc)
    qed
  qed
qed

section \<open>Histories of token operations\<close>

datatype tok_op =
    TIssue int int "8 word list"
  | TUse string
  | TRotate string int "8 word list"
  | TRevoke string

fun tok_step :: "env \<Rightarrow> tok_op \<Rightarrow> db \<Rightarrow> db" where
  "tok_step e (TIssue uid expiry b) d = snd (Issue e uid expiry b d)"
| "tok_step e (TUse token) d = snd (Use e token d)"
| "tok_step e (TRotate token expiry b) d = snd (UseAndRotate e token expiry b d)"
| "tok_step e (TRevoke token) d = snd (Revoke e token d)"

text \<open>The operation draws random bytes whose token is (up to collation) \<open>tok\<close>.\<close>

fun tok_mints :: "env \<Rightarrow> tok_op \<Rightarrow> string \<Rightarrow> bool" where
  "tok_mints e (TIssue uid expiry b) tok \<longleftrightarrow> text_eq e (hex_encode b) tok"
| "tok_mints e (TRotate token expiry b) tok \<longleftrightarrow> text_eq e (hex_encode b) tok"
| "tok_mints e _ tok \<longleftrightarrow> False"

definition token_spent :: "env \<Rightarrow> string \<Rightarrow> db \<Rightarrow> bool" where
  "token_spent e tok d \<longleftrightarrow>
     list_all (\<lambda>r. text_eq e (tk_token r) tok \<longrightarrow> tk_used r \<noteq> None) (token_rows (tabs d))"

text \<open>Taking the token: a rotation that hands out a new pair.\<close>

definition rotates :: "env \<Rightarrow> int \<times> 8 word list \<Rightarrow> string \<Rightarrow> db \<Rightarrow> bool" where
  "rotates e a tok d =
     (case fst (UseAndRotate e tok (fst a) (snd a) d) of
        (uid, nt, reused, err) \<Rightarrow> \<not> reused \<and> err = None)"

lemma rotates_iff:
  "rotates e a tok d \<longleftrightarrow>
     (\<exists>uid nt d'. UseAndRotate e tok (fst a) (snd a) d = ((uid, nt, False, None), d'))"
  by (cases "UseAndRotate e tok (fst a) (snd a) d") (auto simp: rotates_def)

lemma token_spent_rows:
  "token_spent e tok d \<longleftrightarrow>
     (\<forall>r\<in>set (token_rows (tabs d)). text_eq e (tk_token r) tok \<longrightarrow> tk_used r \<noteq> None)"
  by (simp add: token_spent_def list_all_iff)

definition keeps_spent :: "env \<Rightarrow> string \<Rightarrow> token_row list \<Rightarrow> token_row list \<Rightarrow> bool" where
  "keeps_spent e tok rs rs' \<longleftrightarrow>
     (list_all (\<lambda>r. text_eq e (tk_token r) tok \<longrightarrow> tk_used r \<noteq> None) rs \<longrightarrow>
      list_all (\<lambda>r. text_eq e (tk_token r) tok \<longrightarrow> tk_used r \<noteq> None) rs')"

lemma keeps_spent_refl [simp]: "keeps_spent e tok rs rs"
  by (simp add: keeps_spent_def)

lemma keeps_spent_mark_used [simp]: "keeps_spent e tok rs (mark_used e tok' tm rs)"
  by (auto simp: keeps_spent_def mark_used_def list_all_iff)

lemma keeps_spent_drop:
  "keeps_spent e tok rs rs' \<Longrightarrow> keeps_spent e tok rs (drop_active uid tm rs')"
  "keeps_spent e tok rs rs' \<Longrightarrow> keeps_spent e tok rs (drop_token e tok' rs')"
  by (auto simp: keeps_spent_def drop_active_def drop_token_def list_all_iff)

lemma keeps_spent_insert:
  "keeps_spent e tok rs rs' \<Longrightarrow> \<not> text_eq e nt tok \<Longrightarrow>
   keeps_spent e tok rs (rs' @ [fresh_row nt uid expiry])"
  by (auto simp: keeps_spent_def fresh_row_def)

lemma token_spent_step:
  assumes "token_spent e tok d" and "\<not> tok_mints e p tok"
  shows "token_spent e tok (tok_step e p d)"
proof -
  have "keeps_spent e tok (token_rows (tabs d)) (token_rows (tabs (tok_step e p d)))"
  proof (cases p)
    case (TIssue uid expiry b)
    with assms(2) show ?thesis
      by (auto simp: Issue_def exec_def ins_token_def Let_def keeps_spent_insert
          split: outcome.splits)
  next
    case (TUse token)
    then show ?thesis
      by (auto simp: Use_unfold Let_def keeps_spent_drop split: option.splits outcome.splits)
  next
    case (TRotate token expiry b)
    with assms(2) show ?thesis
      by (auto simp: UseAndRotate_unfold Let_def keeps_spent_drop keeps_spent_insert
          split: option.splits outcome.splits)
  next
    case (TRevoke token)
    then show ?thesis
      by (auto simp: Revoke_def exec_def del_token_def Let_def keeps_spent_drop
          split: outcome.splits)
  qed
  with assms(1) show ?thesis by (simp add: keeps_spent_def token_spent_def)
qed

lemma token_spent_blocks: "token_spent e tok d \<Longrightarrow> \<not> rotates e a tok d"
  unfolding rotates_iff token_spent_rows
  by (auto simp: UseAndRotate_unfold Let_def dest!: live_tokenD
      split: option.splits outcome.splits if_splits)

text \<open>What a successful rotation, and a detected reuse, did to the table.\<close>

lemma rotate_taken:
  assumes "UseAndRotate e tok newExp b d = ((uid, nt, False, None), d')"
  shows "\<exists>r. live_token e tok (now e (tick d + 1)) (token_rows (tabs d)) = Some r \<and>
     tk_used r = None \<and> tk_user r = uid \<and> nt = hex_encode b \<and>
     \<not> has_token e nt (token_rows (tabs d)) \<and>
     d' = d\<lparr>tick := tick d + 5, tabs := (tabs d)\<lparr>token_rows :=
       mark_used e tok (now e (tick d + 2)) (token_rows (tabs d)) @ [fresh_row nt uid newExp]\<rparr>\<rparr>"
  using assms
  by (auto simp: UseAndRotate_unfold Let_def split: option.splits outcome.splits if_splits)

lemma rotate_spends:
  assumes "UseAndRotate e tok newExp b d = ((uid, nt, False, None), d')"
  shows "token_spent e tok d'"
proof -
  from rotate_taken [OF assms] obtain r where
    r: "live_token e tok (now e (tick d + 1)) (token_rows (tabs d)) = Some r"
    and nt: "\<not> has_token e nt (token_rows (tabs d))"
    and d': "token_rows (tabs d') =
       mark_used e tok (now e (tick d + 2)) (token_rows (tabs d)) @ [fresh_row nt uid newExp]"
    by auto
  from live_tokenD [OF r] nt have "\<not> text_eq e nt tok"
    by (auto simp: has_token_iff text_eq_def)
  then show ?thesis
    by (auto simp: token_spent_rows d' mark_used_def fresh_row_def)
qed

interpretation tokens_once: one_shot_take "tok_step e" "token_spent e" "tok_mints e" "rotates e"
    "\<lambda>a tok. TRotate tok (fst a) (snd a)" for e
proof unfold_locales
  fix a t s
  assume "rotates e a t s"
  then obtain uid nt d' where "UseAndRotate e t (fst a) (snd a) s = ((uid, nt, False, None), d')"
    by (auto simp: rotates_iff)
  then show "token_spent e t (tok_step e (TRotate t (fst a) (snd a)) s)"
    by (simp add: rotate_spends)
qed (simp_all add: token_spent_step token_spent_blocks)

text \<open>Only the collation weight of a presented token matters.\<close>

lemma live_token_cong: "text_eq e tok tok' \<Longrightarrow> live_token e tok tm rs = live_token e tok' tm rs"
  by (simp add: live_token_def text_eq_def)

lemma mark_used_cong: "text_eq e tok tok' \<Longrightarrow> mark_used e tok tm rs = mark_used e tok' tm rs"
  by (simp add: mark_used_def text_eq_def)

lemma UseAndRotate_cong:
  assumes "text_eq e tok tok'"
  shows "UseAndRotate e tok x b d = UseAndRotate e tok' x b d"
  unfolding UseAndRotate_unfold live_token_cong [OF assms] mark_used_cong [OF assms] ..

section \<open>Users whose sessions were revoked\<close>

text \<open>No token of the user is still valid at the time of the next call.\<close>

definition logged_out :: "env \<Rightarrow> int \<Rightarrow> db \<Rightarrow> bool" where
  "logged_out e uid d \<longleftrightarrow> steady_clock e \<and>
     list_all (\<lambda>r. tk_user r = uid \<longrightarrow> tk_expires r \<le> now e (tick d)) (token_rows (tabs d))"

fun logs_in :: "tok_op \<Rightarrow> int \<Rightarrow> bool" where
  "logs_in (TIssue u expiry b) uid \<longleftrightarrow> u = uid"
| "logs_in _ uid \<longleftrightarrow> False"

definition rotates_for :: "env \<Rightarrow> string \<times> int \<times> 8 word list \<Rightarrow> int \<Rightarrow> db \<Rightarrow> bool" where
  "rotates_for e a uid d =
     (case a of (tok, newExp, b) \<Rightarrow>
      case fst (UseAndRotate e tok newExp b d) of
        (u, nt, reused, err) \<Rightarrow> u = uid \<and> \<not> reused \<and> err = None)"

lemma logged_out_mono:
  assumes "logged_out e uid d" and "tick d \<le> tick d'"
    and "\<And>r. r \<in> set (token_rows (tabs d')) \<Longrightarrow> tk_user r = uid \<Longrightarrow>
      \<exists>s\<in>set (token_rows (tabs d)). tk_user s = uid \<and> tk_expires s = tk_expires r"
  shows "logged_out e uid d'"
proof -
  have "now e (tick d) \<le> now e (tick d')"
    using assms(1,2) by (auto simp: logged_out_def intro: steady_clockD)
  with assms(1,3) show ?thesis
    unfolding logged_out_def list_all_iff by (metis order_trans)
qed

lemma logged_out_not_live:
  assumes "logged_out e uid d" and "live_token e tok (now e (tick d + k)) (token_rows (tabs d)) = Some r"
  shows "tk_user r \<noteq> uid"
proof
  assume "tk_user r = uid"
  with assms live_tokenD [OF assms(2)] have "tk_expires r \<le> now e (tick d)"
    by (auto simp: logged_out_def list_all_iff)
  also have "\<dots> \<le> now e (tick d + k)"
    using assms(1) by (auto simp: logged_out_def intro: steady_clockD)
  finally show False using live_tokenD [OF assms(2)] by simp
qed

lemma mark_used_users:
  "r \<in> set (mark_used e tok tm rs) \<Longrightarrow>
   \<exists>s\<in>set rs. tk_user s = tk_user r \<and> tk_expires s = tk_expires r"
  by (auto simp: mark_used_def split: if_splits)

lemma logged_out_step:
  assumes "logged_out e uid d" and "\<not> logs_in p uid"
  shows "logged_out e uid (tok_step e p d)"
proof (cases p)
  case (TIssue u expiry b)
  with assms show ?thesis
    by (intro logged_out_mono [OF assms(1)])
      (auto simp: Issue_def exec_def ins_token_def Let_def fresh_row_def
        split: outcome.splits if_splits)
next
  case (TUse token)
  with assms show ?thesis
    by (intro logged_out_mono [OF assms(1)])
      (auto simp: Use_unfold Let_def drop_active_def dest!: mark_used_users
        split: option.splits outcome.splits if_splits)
next
  case (TRotate token expiry b)
  have live: "tk_user r \<noteq> uid"
    if "live_token e token (now e (Suc (tick d))) (token_rows (tabs d)) = Some r" for r
    using logged_out_not_live [OF assms(1), of token 1 r] that by simp
  from TRotate assms show ?thesis
    by (intro logged_out_mono [OF assms(1)])
      (auto simp: UseAndRotate_unfold Let_def drop_active_def fresh_row_def
        dest!: mark_used_users dest: live split: option.splits outcome.splits if_splits)
next
  case (TRevoke token)
  with assms show ?thesis
    by (intro logged_out_mono [OF assms(1)])
      (auto simp: Revoke_def exec_def del_token_def drop_token_def Let_def
        split: outcome.splits if_splits)
qed

lemma logged_out_blocks: "logged_out e uid d \<Longrightarrow> \<not> rotates_for e a uid d"
proof
  assume lo: "logged_out e uid d" and "rotates_for e a uid d"
  then obtain tok x b nt d' where "UseAndRotate e tok x b d = ((uid, nt, False, None), d')"
    by (cases a; cases "UseAndRotate e (fst a) (fst (snd a)) (snd (snd a)) d")
      (auto simp: rotates_for_def)
  from rotate_taken [OF this] logged_out_not_live [OF lo] show False by blast
qed

interpretation sessions: one_shot "tok_step e" "logged_out e" logs_in "rotates_for e" for e
  by unfold_locales (simp_all add: logged_out_step logged_out_blocks)

lemma reuse_logs_out:
  assumes "UseAndRotate e tok newExp b d = ((uid, nt, True, None), d')"
    and "out e (tick d + 3) = Okay" and "steady_clock e"
  shows "logged_out e uid d'"
proof -
  from assms(1,2) obtain rs where
    d': "tick d' = tick d + 5" "token_rows (tabs d') = drop_active uid (now e (tick d + 3)) rs"
    by (auto simp: UseAndRotate_unfold Let_def split: option.splits outcome.splits if_splits)
  have "now e (tick d + 3) \<le> now e (tick d + 5)"
    using assms(3) by (auto intro: steady_clockD)
  with assms(3) d' show ?thesis
    by (auto simp: logged_out_def list_all_iff drop_active_def)
qed

section \<open>Invariants\<close>

text \<open>No two rows carry the same token: the primary key, which every operation keeps.\<close>

definition tokens_keyed :: "env \<Rightarrow> tables \<Rightarrow> bool" where
  "tokens_keyed e t \<longleftrightarrow> keyed (\<lambda>r. weight e (tk_token r)) (token_rows t)"

lemma keyed_mark_used [simp]:
  "keyed (\<lambda>r. weight e (tk_token r)) (mark_used e tok tm rs) =
   keyed (\<lambda>r. weight e (tk_token r)) rs"
  unfolding mark_used_def by (rule keyed_map) simp

lemma tokens_keyed_step: "tokens_keyed e (tabs d) \<Longrightarrow> tokens_keyed e (tabs (tok_step e p d))"
  unfolding tokens_keyed_def
  by (cases p)
    (auto simp: Issue_def Use_unfold UseAndRotate_unfold Revoke_def exec_def ins_token_def
      del_token_def drop_active_def drop_token_def keyed_filter keyed_snoc has_token_iff
      text_eq_def fresh_row_def mark_used_def keyed_map Let_def image_iff
      split: option.splits outcome.splits if_splits)

text \<open>A sample table for the witnesses: user 7 holds the token t, valid until 200.\<close>

definition demo_tokens :: db where
  "demo_tokens = empty_db\<lparr>tabs := empty_tables\<lparr>token_rows := [fresh_row ''t'' 7 200]\<rparr>\<rparr>"

lemmas token_eval =
  UseAndRotate_unfold Let_def live_token_def has_token_def mark_used_def drop_active_def
  fresh_row_def demo_tokens_def hex_digit_def

section \<open>Properties\<close>

text \<open>
  C7. A refresh token rotates at most once: after a rotation that succeeded, no presentation
  of the same token (under any spelling the collation identifies with it) is ever rotated
  again, whatever token operations happen in between, however calls fail and clocks run, as
  long as \<open>rand.Read\<close> does not draw the very same token again.
\<close>

theorem rotate_single_use:
  assumes "rotates e (newExp, b) tok d"
    and "list_all (\<lambda>p. \<not> tok_mints e p tok) ops"
    and "text_eq e tok' tok"
  shows "\<not> rotates e (newExp', b') tok' (fold (tok_step e) ops (tok_step e (TRotate tok newExp b) d))"
proof -
  have "\<not> rotates e (newExp', b') tok (fold (tok_step e) ops (tok_step e (TRotate tok newExp b) d))"
    using tokens_once.taken_once [OF assms(1,2), of "(newExp', b')"] by simp
  then show ?thesis
    by (simp add: rotates_def UseAndRotate_cong [OF assms(3)])
qed

theorem rotate_single_use_witness:
  "rotates demo_env (300, [1]) ''t'' demo_tokens \<and>
   \<not> rotates demo_env (300, [2]) ''t''
     (fold (tok_step demo_env) [TIssue 7 400 [3], TRevoke ''x'']
       (tok_step demo_env (TRotate ''t'' 300 [1]) demo_tokens))"
proof -
  have taken: "rotates demo_env (300, [1]) ''t'' demo_tokens"
    by (simp add: rotates_def token_eval)
  have no_mint: "list_all (\<lambda>p. \<not> tok_mints demo_env p ''t'') [TIssue 7 400 [3], TRevoke ''x'']"
    by (simp add: hex_digit_def)
  from taken rotate_single_use [OF taken no_mint, of "''t''" 300 "[2]"] show ?thesis by simp
qed

text \<open>
  C8. Reuse detection logs the user out, if its DELETE succeeds (the code drops that error): once a
  rotation has reported a reused token and the DELETE was executed, no refresh token of that
  user is accepted any more, in any history in which the user does not log in again;
  \<open>NOW()\<close> is assumed not to run backwards.
\<close>

theorem reuse_revokes_family:
  assumes "UseAndRotate e tok newExp b d = ((uid, nt, True, None), d')"
    and "out e (tick d + 3) = Okay" and "steady_clock e"
    and "list_all (\<lambda>p. \<not> logs_in p uid) ops"
  shows "\<not> rotates_for e (tok', newExp', b') uid (fold (tok_step e) ops d')"
  using sessions.never_taken_again [OF reuse_logs_out [OF assms(1-3)] assms(4)] .

theorem reuse_revokes_family_witness:
  "\<not> rotates_for demo_env (''02'', 300, [4]) 7
     (fold (tok_step demo_env) [TIssue 8 400 [3]] (tok_step demo_env (TRotate ''t'' 300 [5])
       (tok_step demo_env (TIssue 7 400 [2]) (tok_step demo_env (TRotate ''t'' 300 [1]) demo_tokens))))"
proof -
  let ?d = "tok_step demo_env (TIssue 7 400 [2]) (tok_step demo_env (TRotate ''t'' 300 [1]) demo_tokens)"
  have reuse: "UseAndRotate demo_env ''t'' 300 [5] ?d =
      ((7, [], True, None), snd (UseAndRotate demo_env ''t'' 300 [5] ?d))"
    by (simp add: token_eval Issue_def exec_def ins_token_def)
  from reuse_revokes_family [OF reuse, of "[TIssue 8 400 [3]]" "''02''" 300 "[4]"]
  show ?thesis by simp
qed

text \<open>
  C35. A rotation that returns an error leaves every table as it was, whichever call failed,
  unless the commit itself went through and only its acknowledgement was lost.
\<close>

theorem rotate_error_rolls_back:
  assumes "UseAndRotate e tok newExp b d = ((uid, nt, reused, Some er), d')"
    and "out e (tick d + 4) \<noteq> Lost"
  shows "tabs d' = tabs d"
  using assms
  by (auto simp: UseAndRotate_unfold Let_def split: option.splits outcome.splits if_splits)

theorem rotate_error_rolls_back_witness:
  "UseAndRotate (demo_env\<lparr>out := (\<lambda>n. if n = 3 then Refused else Okay)\<rparr>) ''t'' 300 [1] demo_tokens =
     ((0, [], False, Some Fault), demo_tokens\<lparr>tick := 5\<rparr>) \<and>
   tabs (demo_tokens\<lparr>tick := 5\<rparr>) = tabs demo_tokens"
proof -
  let ?e = "demo_env\<lparr>out := (\<lambda>n. if n = 3 then Refused else Okay)\<rparr>"
  have err: "UseAndRotate ?e ''t'' 300 [1] demo_tokens =
      ((0, [], False, Some Fault), demo_tokens\<lparr>tick := 5\<rparr>)"
    by (simp add: token_eval text_eq_def)
  have "out ?e (tick demo_tokens + 4) \<noteq> Lost" by (simp add: demo_tokens_def)
  from err rotate_error_rolls_back [OF err this] show ?thesis by simp
qed

text \<open>
  A valid token does rotate: when every call succeeds, a stored, unused and unexpired token
  is exchanged for a new one of the same user, which is stored unused with the requested
  expiry, and the old one is marked used.
\<close>

theorem valid_token_rotates:
  assumes "\<And>k. out e (tick d + k) = Okay"
    and "live_token e tok (now e (tick d + 1)) (token_rows (tabs d)) = Some r"
    and "tk_used r = None" and "\<not> has_token e (hex_encode b) (token_rows (tabs d))"
  shows "fst (UseAndRotate e tok newExp b d) = (tk_user r, hex_encode b, False, None) \<and>
    token_rows (tabs (snd (UseAndRotate e tok newExp b d))) =
      mark_used e tok (now e (tick d + 2)) (token_rows (tabs d)) @
      [fresh_row (hex_encode b) (tk_user r) newExp]"
  using assms(2-4) assms(1) [of 0] assms(1) [of 1] assms(1) [of 2] assms(1) [of 3] assms(1) [of 4]
  by (simp add: UseAndRotate_unfold Let_def)

theorem valid_token_rotates_witness:
  "fst (UseAndRotate demo_env ''t'' 300 [1] demo_tokens) = (7, ''01'', False, None)"
proof -
  have live: "live_token demo_env ''t'' (now demo_env (tick demo_tokens + 1))
      (token_rows (tabs demo_tokens)) = Some (fresh_row ''t'' 7 200)"
    by (simp add: token_eval)
  have "out demo_env (tick demo_tokens + k) = Okay" for k by simp
  from valid_token_rotates [OF this live, of "[1]" 300] show ?thesis
    by (simp add: token_eval)
qed

text \<open>
  Token operations on behalf of one user leave the other users' tokens alone: a rotation
  of a token stored for user \<open>u\<close> keeps the rows of every other user, with the table's key.
\<close>

theorem rotate_isolates_users:
  assumes "tokens_keyed e (tabs d)" and "r \<in> set (token_rows (tabs d))"
    and "text_eq e (tk_token r) tok" and "tk_user r \<noteq> v"
  shows "filter (\<lambda>s. tk_user s = v) (token_rows (tabs (snd (UseAndRotate e tok newExp b d)))) =
    filter (\<lambda>s. tk_user s = v) (token_rows (tabs d))"
proof -
  have same: "s = r" if "s \<in> set (token_rows (tabs d))" and "text_eq e (tk_token s) tok" for s
    using keyed_unique [OF assms(1) [unfolded tokens_keyed_def] that(1) assms(2)] that(2) assms(3)
    by (simp add: text_eq_def)
  have other: "tk_user s \<noteq> v" if "s \<in> set (token_rows (tabs d))" and "text_eq e (tk_token s) tok" for s
    using same [OF that] assms(4) by simp
  have mark: "filter (\<lambda>s. tk_user s = v) (mark_used e tok tm rs) = filter (\<lambda>s. tk_user s = v) rs"
    if "set rs \<subseteq> set (token_rows (tabs d))" for tm rs
    using that by (induction rs) (auto simp: mark_used_def dest: other)
  have drop: "filter (\<lambda>s. tk_user s = v) (drop_active (tk_user r) tm rs) =
    filter (\<lambda>s. tk_user s = v) rs" for tm rs
    using assms(4) by (induction rs) (auto simp: drop_active_def)
  have live: "tk_user s = tk_user r" if "live_token e tok tm (token_rows (tabs d)) = Some s" for s tm
    using live_tokenD [OF that] same by auto
  show ?thesis
    using assms(4)
    by (auto simp: UseAndRotate_unfold Let_def mark drop live fresh_row_def
        split: option.splits outcome.splits)
qed

theorem rotate_isolates_users_witness:
  "filter (\<lambda>s. tk_user s = 8) (token_rows (tabs (snd (UseAndRotate demo_env ''t'' 300 [1]
     (tok_step demo_env (TIssue 8 400 [3]) demo_tokens))))) = [fresh_row ''03'' 8 400]"
proof -
  let ?d = "tok_step demo_env (TIssue 8 400 [3]) demo_tokens"
  have rows: "token_rows (tabs ?d) = [fresh_row ''t'' 7 200, fresh_row ''03'' 8 400]"
    by (simp add: Issue_def exec_def ins_token_def token_eval)
  have "tokens_keyed demo_env (tabs ?d)"
    by (simp only: tokens_keyed_def rows) (simp add: keyed_def fresh_row_def)
  then have "filter (\<lambda>s. tk_user s = 8)
      (token_rows (tabs (snd (UseAndRotate demo_env ''t'' 300 [1] ?d)))) =
    filter (\<lambda>s. tk_user s = 8) (token_rows (tabs ?d))"
  proof (rule rotate_isolates_users)
    show "fresh_row ''t'' 7 200 \<in> set (token_rows (tabs ?d))" by (simp only: rows) simp
  qed (simp_all add: fresh_row_def)
  then show ?thesis by (simp only: rows) (simp add: fresh_row_def)
qed

text \<open>
  Logging out with a refresh token kills it: after \<open>Revoke\<close> has succeeded, the token is
  rotated by no later presentation, in any history that does not draw it again.
\<close>

theorem revoked_token_is_dead:
  assumes "Revoke e tok d = (None, d')" and "list_all (\<lambda>p. \<not> tok_mints e p tok) ops"
  shows "\<not> rotates e a tok (fold (tok_step e) ops d')"
proof -
  from assms(1) have "token_spent e tok d'"
    by (auto simp: Revoke_def exec_def del_token_def drop_token_def token_spent_rows Let_def
        split: outcome.splits)
  then show ?thesis using assms(2) by (rule tokens_once.never_taken_again)
qed

theorem revoked_token_is_dead_witness:
  "\<not> rotates demo_env (300, [1]) ''t''
     (fold (tok_step demo_env) [TIssue 7 400 [3]] (snd (Revoke demo_env ''t'' demo_tokens)))"
proof -
  have revoked: "Revoke demo_env ''t'' demo_tokens = (None, snd (Revoke demo_env ''t'' demo_tokens))"
    by (simp add: Revoke_def exec_def del_token_def)
  have "list_all (\<lambda>p. \<not> tok_mints demo_env p ''t'') [TIssue 7 400 [3]]"
    by (simp add: hex_digit_def)
  from revoked_token_is_dead [OF revoked this] show ?thesis .
qed

text \<open>
  The primary key of \<open>refresh\_tokens\<close> is an invariant: from a table without two rows for
  one token, no history of token operations, however its calls fail, leads to one with two.
\<close>

theorem token_table_invariant:
  assumes "tokens_keyed e (tabs d)"
  shows "tokens_keyed e (tabs (fold (tok_step e) ops d))"
  using assms by (induction ops arbitrary: d) (auto simp: tokens_keyed_step)

theorem token_table_invariant_witness:
  "tokens_keyed demo_env (tabs (fold (tok_step demo_env)
     [TIssue 7 400 [1], TRotate ''t'' 300 [1], TRotate ''01'' 300 [2]] demo_tokens))"
proof -
  have "tokens_keyed demo_env (tabs demo_tokens)"
    by (simp add: tokens_keyed_def demo_tokens_def keyed_def)
  then show ?thesis by (rule token_table_invariant)
qed

text \<open>
  The error of the DELETE that revokes the family is dropped: when it fails, the reuse is
  still reported and committed, and the user's other tokens stay valid.
\<close>

theorem reuse_with_failed_delete:
  "\<exists>e d. steady_clock e \<and>
     fst (UseAndRotate e ''t'' 300 [5] d) = (7, [], True, None) \<and>
     rotates_for e (''01'', 300, [4]) 7 (snd (UseAndRotate e ''t'' 300 [5] d))"
proof (intro exI conjI)
  let ?e = "demo_env\<lparr>out := (\<lambda>n. if n = 8 then Refused else Okay)\<rparr>"
  let ?d = "tok_step demo_env (TRotate ''t'' 300 [1]) demo_tokens"
  show "steady_clock ?e" by (simp add: steady_clock_def mono_def)
  show "fst (UseAndRotate ?e ''t'' 300 [5] ?d) = (7, [], True, None)"
    by (simp add: token_eval text_eq_def)
  show "rotates_for ?e (''01'', 300, [4]) 7 (snd (UseAndRotate ?e ''t'' 300 [5] ?d))"
    by (simp add: rotates_for_def token_eval text_eq_def)
qed

end
