(* ===== verification/Idempotency.thy ===== *)
theory Idempotency
  imports One_Shot Demo
begin

text \<open>
  \<open>internal/repos/idempotency.go\<close> (\<open>Idempotency\<close>, which remembers a note id) and
  \<open>internal/repos/idempotency\_generic.go\<close> (\<open>Idem\<close>, which remembers a response text) over
  the table \<open>idempotency\_keys\<close>. Migration 0007 makes \<open>key\<close> alone the primary key;
  migration 0010 would make it unique per user but says IF NOT EXISTS. The key constraint
  is the parameter \<open>sc\<close>.
\<close>

datatype idem_err = ErrInProgress | ErrMismatch | DbErr dberr

section \<open>The statements\<close>

definition key_clash :: "idem_schema \<Rightarrow> env \<Rightarrow> string \<Rightarrow> int \<Rightarrow> idem_row \<Rightarrow> bool" where
  "key_clash sc e key uid r \<longleftrightarrow>
     text_eq e (ik_key r) key \<and> (sc = PerUserKey \<longrightarrow> ik_user r = uid)"

definition own_key :: "env \<Rightarrow> string \<Rightarrow> int \<Rightarrow> idem_row \<Rightarrow> bool" where
  "own_key e key uid r \<longleftrightarrow> text_eq e (ik_key r) key \<and> ik_user r = uid"

text \<open>\<open>INSERT ... VALUES(key, uid, meth, url, bodyHash, ..., NOW(), NULL, ...)\<close>.\<close>

definition ins_claim ::
  "idem_schema \<Rightarrow> env \<Rightarrow> string \<Rightarrow> int \<Rightarrow> string \<Rightarrow> string \<Rightarrow> string \<Rightarrow> stmt" where
  "ins_claim sc e key uid meth url bodyHash n t =
     (if list_ex (key_clash sc e key uid) (idem_rows t) then None
      else Some (0, t\<lparr>idem_rows := idem_rows t @
        [\<lparr>ik_key = key, ik_user = uid, ik_method = meth, ik_path = url, ik_body = bodyHash,
          ik_note = None, ik_claimed = now e n, ik_completed = None, ik_result = None\<rparr>]\<rparr>))"

definition sel_claim :: "env \<Rightarrow> string \<Rightarrow> int \<Rightarrow> nat \<Rightarrow> tables \<Rightarrow> idem_row option" where
  "sel_claim e key uid n t = List.find (own_key e key uid) (idem_rows t)"

definition complete_rows ::
  "env \<Rightarrow> string \<Rightarrow> int \<Rightarrow> (idem_row \<Rightarrow> idem_row) \<Rightarrow> idem_row list \<Rightarrow> idem_row list" where
  "complete_rows e key uid f rs =
     map (\<lambda>r. if own_key e key uid r \<and> ik_completed r = None then f r else r) rs"

definition upd_result :: "env \<Rightarrow> string \<Rightarrow> int \<Rightarrow> string \<Rightarrow> stmt" where
  "upd_result e key uid res n t =
     Some (0, t\<lparr>idem_rows := complete_rows e key uid
       (\<lambda>r. r\<lparr>ik_result := Some res, ik_completed := Some (now e n)\<rparr>) (idem_rows t)\<rparr>)"

definition upd_note :: "env \<Rightarrow> string \<Rightarrow> int \<Rightarrow> int \<Rightarrow> stmt" where
  "upd_note e key uid nid n t =
     Some (0, t\<lparr>idem_rows := complete_rows e key uid
       (\<lambda>r. r\<lparr>ik_note := Some nid, ik_completed := Some (now e n)\<rparr>) (idem_rows t)\<rparr>)"

lemmas idem_stmts [sql_defs] = ins_claim_def sel_claim_def upd_result_def upd_note_def

section \<open>Idem: the operations the handlers use\<close>

text \<open>
  \<open>Idem.Claim\<close>: \<open>(nil, nil)\<close> grants the key, a text replays the stored response. The
  results of both commits are dropped by the code.
\<close>

definition Idem_Claim ::
  "idem_schema \<Rightarrow> env \<Rightarrow> string \<Rightarrow> int \<Rightarrow> string \<Rightarrow> string \<Rightarrow> string \<Rightarrow> db \<Rightarrow>
   (string option \<times> idem_err option) \<times> db" where
  "Idem_Claim sc e key uid meth url bodyHash d =
     (case begin_tx e d of
        (Inl er, d1) \<Rightarrow> ((None, Some (DbErr er)), d1)
      | (Inr x, _) \<Rightarrow>
     (case tx_exec e (ins_claim sc e key uid meth url bodyHash) x of
        (None, x1) \<Rightarrow> ((None, None), snd (commit e x1))
      | (Some _, x1) \<Rightarrow>
     (case tx_query_row e (sel_claim e key uid) x1 of
        (Inl er, x2) \<Rightarrow> ((None, Some (DbErr er)), rollback x2)
      | (Inr r, x2) \<Rightarrow>
          if ik_body r \<noteq> bodyHash then ((None, Some ErrMismatch), rollback x2)
          else if ik_completed r = None then ((None, Some ErrInProgress), rollback x2)
          else (case ik_result r of
                  Some s \<Rightarrow> ((Some s, None), snd (commit e x2))
                | None \<Rightarrow> ((None, Some ErrInProgress), snd (commit e x2))))))"

definition Idem_Complete ::
  "env \<Rightarrow> string \<Rightarrow> int \<Rightarrow> string \<Rightarrow> db \<Rightarrow> dberr option \<times> db" where
  "Idem_Complete e key uid res d =
     (case exec e (upd_result e key uid res) d of
        (Inl er, d1) \<Rightarrow> (Some er, d1)
      | (Inr _, d1) \<Rightarrow> (None, d1))"

section \<open>Idempotency: the variant that remembers a note id\<close>

definition Idempotency_Claim ::
  "idem_schema \<Rightarrow> env \<Rightarrow> string \<Rightarrow> int \<Rightarrow> string \<Rightarrow> string \<Rightarrow> string \<Rightarrow> db \<Rightarrow>
   (int option \<times> idem_err option) \<times> db" where
  "Idempotency_Claim sc e key uid meth url bodyHash d =
     (case begin_tx e d of
        (Inl er, d1) \<Rightarrow> ((None, Some (DbErr er)), d1)
      | (Inr x, _) \<Rightarrow>
     (case tx_exec e (ins_claim sc e key uid meth url bodyHash) x of
        (None, x1) \<Rightarrow> (case commit e x1 of
            (Some er, d2) \<Rightarrow> ((None, Some (DbErr er)), d2)
          | (None, d2) \<Rightarrow> ((None, None), d2))
      | (Some _, x1) \<Rightarrow>
     (case tx_query_row e (sel_claim e key uid) x1 of
        (Inl er, x2) \<Rightarrow> ((None, Some (DbErr er)), rollback x2)
      | (Inr r, x2) \<Rightarrow>
          if ik_body r \<noteq> bodyHash then ((None, Some ErrMismatch), rollback x2)
          else if ik_completed r = None then ((None, Some ErrInProgress), rollback x2)
          else (case commit e x2 of
                  (Some er, d3) \<Rightarrow> ((None, Some (DbErr er)), d3)
                | (None, d3) \<Rightarrow>
                    (case ik_note r of
                       Some nid \<Rightarrow> ((Some nid, None), d3)
                     | None \<Rightarrow> ((None, Some ErrInProgress), d3))))))"

definition Idempotency_Complete ::
  "env \<Rightarrow> string \<Rightarrow> int \<Rightarrow> int \<Rightarrow> db \<Rightarrow> dberr option \<times> db" where
  "Idempotency_Complete e key uid nid d =
     (case exec e (upd_note e key uid nid) d of
        (Inl er, d1) \<Rightarrow> (Some er, d1)
      | (Inr _, d1) \<Rightarrow> (None, d1))"

section \<open>What Idem.Claim does, call by call\<close>

lemmas idem_tx_unfold =
  begin_tx_def tx_query_row_unfold tx_exec_def commit_def rollback_def Let_def

definition claim_row :: "env \<Rightarrow> string \<Rightarrow> int \<Rightarrow> string \<Rightarrow> string \<Rightarrow> string \<Rightarrow> int \<Rightarrow> idem_row" where
  "claim_row e key uid meth url bodyHash tm =
     \<lparr>ik_key = key, ik_user = uid, ik_method = meth, ik_path = url, ik_body = bodyHash,
      ik_note = None, ik_claimed = tm, ik_completed = None, ik_result = None\<rparr>"

text \<open>The answer to a claim whose key is taken, from the row found (\<open>None\<close>: no row).\<close>

definition claim_answer :: "string \<Rightarrow> idem_row option \<Rightarrow> string option \<times> idem_err option" where
  "claim_answer bodyHash ro =
     (case ro of
        None \<Rightarrow> (None, Some (DbErr NoRows))
      | Some r \<Rightarrow>
          if ik_body r \<noteq> bodyHash then (None, Some ErrMismatch)
          else if ik_completed r = None then (None, Some ErrInProgress)
          else (case ik_result r of Some s \<Rightarrow> (Some s, None) | None \<Rightarrow> (None, Some ErrInProgress)))"

lemma Idem_Claim_unfold:
  "Idem_Claim sc e key uid meth url bodyHash d =
   (let n = tick d; rs = idem_rows (tabs d)
    in if out e n \<noteq> Okay then ((None, Some (DbErr Fault)), d\<lparr>tick := n + 1\<rparr>)
    else if out e (n + 1) = Okay \<and> \<not> list_ex (key_clash sc e key uid) rs then
      ((None, None),
       if out e (n + 2) = Refused then d\<lparr>tick := n + 3\<rparr>
       else d\<lparr>tick := n + 3, tabs := (tabs d)\<lparr>idem_rows :=
         rs @ [claim_row e key uid meth url bodyHash (now e (n + 1))]\<rparr>\<rparr>)
    else if out e (n + 2) \<noteq> Okay then ((None, Some (DbErr Fault)), d\<lparr>tick := n + 4\<rparr>)
    else (claim_answer bodyHash (List.find (own_key e key uid) rs), d\<lparr>tick := n + 4\<rparr>))"
proof (cases "out e (tick d) = Okay")
  case False
  then show ?thesis by (simp add: Idem_Claim_def idem_tx_unfold)
next
  case ok0: True
  show ?thesis
  proof (cases "out e (Suc (tick d)) = Okay \<and> \<not> list_ex (key_clash sc e key uid) (idem_rows (tabs d))")
    case True
    with ok0 show ?thesis
      by (cases "out e (Suc (Suc (tick d)))")
        (auto simp: Idem_Claim_def idem_tx_unfold ins_claim_def claim_row_def numeral_eq_Suc)
  next
    case False
    then have ins: "tx_exec e (ins_claim sc e key uid meth url bodyHash)
        \<lparr>saved = tabs d, work = d\<lparr>tick := Suc (tick d)\<rparr>\<rparr> =
      (Some (if out e (Suc (tick d)) = Okay then Duplicate else Fault),
       \<lparr>saved = tabs d, work = d\<lparr>tick := Suc (Suc (tick d))\<rparr>\<rparr>)"
      by (auto simp: tx_exec_def Let_def ins_claim_def)
    from False ok0 show ?thesis
      by (cases "List.find (own_key e key uid) (idem_rows (tabs d))"; cases "out e (tick d + 3)")
        (auto simp: Idem_Claim_def begin_tx_def Let_def ins tx_query_row_unfold sel_claim_def
          claim_answer_def commit_def rollback_def numeral_eq_Suc split: option.splits)
  qed
qed

section \<open>Histories of claims and completions\<close>

datatype idem_op =
    IClaim string int string string string
  | IComplete string int string
  | NClaim string int string string string
  | NComplete string int int

fun idem_step :: "idem_schema \<Rightarrow> env \<Rightarrow> idem_op \<Rightarrow> db \<Rightarrow> db" where
  "idem_step sc e (IClaim key uid meth url bodyHash) d =
     snd (Idem_Claim sc e key uid meth url bodyHash d)"
| "idem_step sc e (IComplete key uid res) d = snd (Idem_Complete e key uid res d)"
| "idem_step sc e (NClaim key uid meth url bodyHash) d =
     snd (Idempotency_Claim sc e key uid meth url bodyHash d)"
| "idem_step sc e (NComplete key uid nid) d = snd (Idempotency_Complete e key uid nid d)"

text \<open>The claim was granted: the caller goes on and performs the request.\<close>

definition grants ::
  "idem_schema \<Rightarrow> env \<Rightarrow> string \<times> string \<times> string \<Rightarrow> string \<times> int \<Rightarrow> db \<Rightarrow> bool" where
  "grants sc e a k d =
     (case a of (meth, url, bodyHash) \<Rightarrow>
      case k of (key, uid) \<Rightarrow>
        fst (Idem_Claim sc e key uid meth url bodyHash d) = (None, None))"

definition key_taken :: "idem_schema \<Rightarrow> env \<Rightarrow> string \<times> int \<Rightarrow> db \<Rightarrow> bool" where
  "key_taken sc e k d \<longleftrightarrow> list_ex (key_clash sc e (fst k) (snd k)) (idem_rows (tabs d))"

text \<open>
  Every operation extends the rows and otherwise only fills in the completion of rows that
  have none: key, user, meth, url and body hash of a row never change.
\<close>

definition row_grows :: "idem_row \<Rightarrow> idem_row \<Rightarrow> bool" where
  "row_grows r s \<longleftrightarrow> ik_key s = ik_key r \<and> ik_user s = ik_user r \<and> ik_body s = ik_body r \<and>
     ik_method s = ik_method r \<and> ik_path s = ik_path r \<and> (ik_completed r \<noteq> None \<longrightarrow> s = r)"

definition idem_grows ::
  "idem_schema \<Rightarrow> env \<Rightarrow> idem_row list \<Rightarrow> idem_row list \<Rightarrow> bool" where
  "idem_grows sc e rs rs' \<longleftrightarrow>
     (\<exists>f ys. rs' = map f rs @ ys \<and> (\<forall>r\<in>set rs. row_grows r (f r)) \<and>
        (\<forall>y\<in>set ys. \<not> list_ex (key_clash sc e (ik_key y) (ik_user y)) rs))"

lemma row_grows_refl [simp]: "row_grows r r"
  by (simp add: row_grows_def)

lemma idem_grows_snoc:
  "list_all (\<lambda>y. \<not> list_ex (key_clash sc e (ik_key y) (ik_user y)) rs) ys \<Longrightarrow>
   idem_grows sc e rs (rs @ ys)"
  unfolding idem_grows_def by (rule exI [of _ id], rule exI [of _ ys]) (simp add: list_all_iff)

lemma idem_grows_refl [simp]: "idem_grows sc e rs rs"
  using idem_grows_snoc [of sc e rs "[]"] by simp

lemma idem_grows_complete:
  assumes "\<And>r. ik_completed r = None \<Longrightarrow> row_grows r (f r)"
  shows "idem_grows sc e rs (complete_rows e' key uid f rs)"
  unfolding idem_grows_def complete_rows_def
  by (rule exI [of _ "\<lambda>r. if own_key e' key uid r \<and> ik_completed r = None then f r else r"],
      rule exI [of _ "[]"]) (auto simp: assms)

lemma claim_grows: "idem_grows sc e (idem_rows (tabs d))
   (idem_rows (tabs (snd (Idem_Claim sc e key uid meth url bodyHash d))))"
  by (auto simp: Idem_Claim_unfold Let_def claim_row_def intro!: idem_grows_snoc)

lemma note_claim_grows: "idem_grows sc e (idem_rows (tabs d))
   (idem_rows (tabs (snd (Idempotency_Claim sc e key uid meth url bodyHash d))))"
  by (auto simp: Idempotency_Claim_def idem_tx_unfold ins_claim_def intro!: idem_grows_snoc
      split: outcome.splits option.splits if_splits)

lemma idem_step_grows: "idem_grows sc e (idem_rows (tabs d)) (idem_rows (tabs (idem_step sc e p d)))"
proof (cases p)
  case (IClaim key uid meth url bodyHash)
  then show ?thesis by (simp add: claim_grows)
next
  case (IComplete key uid res)
  then show ?thesis
    by (auto simp: Idem_Complete_def exec_def upd_result_def Let_def row_grows_def
        intro!: idem_grows_complete split: outcome.splits)
next
  case (NClaim key uid meth url bodyHash)
  then show ?thesis by (simp add: note_claim_grows)
next
  case (NComplete key uid nid)
  then show ?thesis
    by (auto simp: Idempotency_Complete_def exec_def upd_note_def Let_def row_grows_def
        intro!: idem_grows_complete split: outcome.splits)
qed

lemma idem_grows_clash:
  assumes "idem_grows sc e rs rs'" and "list_ex (key_clash sc e key uid) rs"
  shows "list_ex (key_clash sc e key uid) rs'"
proof -
  from assms(1) obtain f ys where rs': "rs' = map f rs @ ys"
    and f: "\<And>r. r \<in> set rs \<Longrightarrow> row_grows r (f r)"
    unfolding idem_grows_def by blast
  from assms(2) obtain r where "r \<in> set rs" "key_clash sc e key uid r"
    by (auto simp: list_ex_iff)
  with f [of r] have "f r \<in> set rs'" and "key_clash sc e key uid (f r)"
    by (auto simp: rs' key_clash_def row_grows_def)
  then show ?thesis by (auto simp: list_ex_iff)
qed

lemma idem_grows_find_done:
  assumes "idem_grows sc e rs rs'" and "List.find (own_key e key uid) rs = Some r"
    and "ik_completed r \<noteq> None"
  shows "List.find (own_key e key uid) rs' = Some r"
proof -
  from assms(1) obtain f ys where rs': "rs' = map f rs @ ys"
    and f: "\<And>s. s \<in> set rs \<Longrightarrow> row_grows s (f s)"
    unfolding idem_grows_def by blast
  have "List.find (own_key e key uid) (map f rs) = map_option f (Some r)"
    using f by (subst assms(2) [symmetric], intro find_map_same) (auto simp: own_key_def row_grows_def)
  moreover have "f r = r"
    using f [of r] find_SomeD [OF assms(2)] assms(3) by (auto simp: row_grows_def)
  ultimately show ?thesis by (simp add: rs' find_append)
qed

lemma key_taken_step: "key_taken sc e k d \<Longrightarrow> key_taken sc e k (idem_step sc e p d)"
  unfolding key_taken_def by (rule idem_grows_clash [OF idem_step_grows])

lemma key_taken_blocks: "key_taken sc e k d \<Longrightarrow> \<not> grants sc e a k d"
  by (auto simp: grants_def key_taken_def Idem_Claim_unfold Let_def claim_answer_def
      split: prod.splits option.splits)

text \<open>No operation frees a key.\<close>

interpretation idem_keys: one_shot "idem_step sc e" "key_taken sc e" "\<lambda>_ _. False" "grants sc e"
  for sc e
  by unfold_locales (simp_all add: key_taken_step key_taken_blocks)

lemma grant_takes_key:
  assumes "grants sc e (meth, url, bodyHash) (key, uid) d" and "out e (tick d + 2) \<noteq> Refused"
  shows "key_taken sc e (key, uid) (idem_step sc e (IClaim key uid meth url bodyHash) d)"
  using assms
  by (auto simp: grants_def key_taken_def Idem_Claim_unfold Let_def claim_answer_def
      claim_row_def key_clash_def split: option.splits if_splits)

text \<open>A completed request: later claims with the same body hash are answered with its text.\<close>

definition replays ::
  "env \<Rightarrow> (string \<times> int) \<times> (string \<times> string) \<Rightarrow> db \<Rightarrow> bool" where
  "replays e t d =
     (case t of ((key, uid), (bodyHash, s)) \<Rightarrow>
      case List.find (own_key e key uid) (idem_rows (tabs d)) of
        None \<Rightarrow> False
      | Some r \<Rightarrow> ik_body r = bodyHash \<and> ik_completed r \<noteq> None \<and> ik_result r = Some s)"

definition answers_otherwise ::
  "idem_schema \<Rightarrow> env \<Rightarrow> string \<times> string \<Rightarrow> (string \<times> int) \<times> (string \<times> string) \<Rightarrow> db \<Rightarrow> bool" where
  "answers_otherwise sc e a t d =
     (case a of (meth, url) \<Rightarrow> case t of ((key, uid), (bodyHash, s)) \<Rightarrow>
      fst (Idem_Claim sc e key uid meth url bodyHash d) \<noteq>
        (if out e (tick d) = Okay \<and> out e (tick d + 2) = Okay then (Some s, None)
         else (None, Some (DbErr Fault))) \<or>
      tabs (snd (Idem_Claim sc e key uid meth url bodyHash d)) \<noteq> tabs d)"

lemma replays_step: "replays e t d \<Longrightarrow> replays e t (idem_step sc e p d)"
  unfolding replays_def
  by (auto split: prod.splits option.splits
      dest!: idem_grows_find_done [OF idem_step_grows [of sc e d p]])

lemma own_key_clash: "own_key e key uid r \<Longrightarrow> key_clash sc e key uid r"
  by (simp add: own_key_def key_clash_def)

lemma replays_answer: "replays e t d \<Longrightarrow> \<not> answers_otherwise sc e a t d"
proof -
  assume r: "replays e t d"
  obtain key uid bodyHash s where t: "t = ((key, uid), (bodyHash, s))" by (metis prod.exhaust)
  from r t obtain row where
    row: "List.find (own_key e key uid) (idem_rows (tabs d)) = Some row"
      "ik_body row = bodyHash" "ik_completed row \<noteq> None" "ik_result row = Some s"
    by (auto simp: replays_def split: option.splits)
  from find_SomeD [OF row(1)] have "list_ex (key_clash sc e key uid) (idem_rows (tabs d))"
    by (auto simp: list_ex_iff intro: own_key_clash)
  with row show ?thesis
    by (auto simp: answers_otherwise_def t Idem_Claim_unfold Let_def claim_answer_def)
qed

interpretation idem_replay: one_shot "idem_step sc e" "replays e" "\<lambda>_ _. False"
    "answers_otherwise sc e" for sc e
  by unfold_locales (simp_all add: replays_step replays_answer)

lemma no_mints [simp]: "list_all (\<lambda>p. \<not> False) ps"
  by (simp add: list_all_iff)

text \<open>
  A granted claim whose row was committed, followed by a completion, leaves the row that
  replays the response, whatever else happened to the other tables in between.
\<close>

lemma completed_replays:
  assumes "grants sc e (meth, url, bodyHash) (key, uid) d" and "out e (tick d + 2) \<noteq> Refused"
    and "idem_rows (tabs d1) = idem_rows (tabs (snd (Idem_Claim sc e key uid meth url bodyHash d)))"
    and "Idem_Complete e key uid res d1 = (None, d2)"
  shows "replays e ((key, uid), (bodyHash, res)) d2"
proof -
  from assms(1) have no_row: "List.find (own_key e key uid) (idem_rows (tabs d)) = None"
    and rows: "idem_rows (tabs d1) =
      idem_rows (tabs d) @ [claim_row e key uid meth url bodyHash (now e (tick d + 1))]"
    using assms(2,3) key_taken_blocks [of sc e "(key, uid)" d]
    by (auto simp: grants_def key_taken_def Idem_Claim_unfold Let_def find_None_conv list_ex_iff
        claim_answer_def dest: own_key_clash split: option.splits if_splits)
  have rows2: "idem_rows (tabs d2) = complete_rows e key uid
      (\<lambda>r. r\<lparr>ik_result := Some res, ik_completed := Some (now e (tick d1))\<rparr>) (idem_rows (tabs d1))"
    using assms(4) by (auto simp: Idem_Complete_def exec_def upd_result_def Let_def
        split: outcome.splits)
  have "List.find (own_key e key uid) (complete_rows e key uid f (idem_rows (tabs d))) = None"
    for f using no_row by (auto simp: find_None_conv complete_rows_def)
  then show ?thesis
    by (simp add: replays_def rows2 rows complete_rows_def find_append own_key_def claim_row_def)
qed

lemma Idem_Claim_replays:
  assumes "replays e ((key, uid), (bodyHash, s)) d" and "\<And>n. out e n = Okay"
  shows "Idem_Claim sc e key uid meth url bodyHash d = ((Some s, None), d\<lparr>tick := tick d + 4\<rparr>)"
proof -
  from assms(1) obtain row where
    row: "List.find (own_key e key uid) (idem_rows (tabs d)) = Some row"
      "ik_body row = bodyHash" "ik_completed row \<noteq> None" "ik_result row = Some s"
    by (auto simp: replays_def split: option.splits)
  from find_SomeD [OF row(1)] have "list_ex (key_clash sc e key uid) (idem_rows (tabs d))"
    by (auto simp: list_ex_iff intro: own_key_clash)
  with row assms(2) show ?thesis
    by (simp add: Idem_Claim_unfold Let_def claim_answer_def)
qed

text \<open>
  A claim whose request never completes: the key stays in progress until somebody completes it.
\<close>

fun completes :: "env \<Rightarrow> idem_op \<Rightarrow> (string \<times> int) \<times> string \<Rightarrow> bool" where
  "completes e (IComplete key' uid' _) ((key, uid), _) \<longleftrightarrow> text_eq e key key' \<and> uid' = uid"
| "completes e (NComplete key' uid' _) ((key, uid), _) \<longleftrightarrow> text_eq e key key' \<and> uid' = uid"
| "completes e _ _ \<longleftrightarrow> False"

definition pending :: "env \<Rightarrow> (string \<times> int) \<times> string \<Rightarrow> db \<Rightarrow> bool" where
  "pending e t d =
     (case t of ((key, uid), bodyHash) \<Rightarrow>
      case List.find (own_key e key uid) (idem_rows (tabs d)) of
        None \<Rightarrow> False
      | Some r \<Rightarrow> ik_body r = bodyHash \<and> ik_completed r = None)"

definition progresses ::
  "idem_schema \<Rightarrow> env \<Rightarrow> string \<times> string \<Rightarrow> (string \<times> int) \<times> string \<Rightarrow> db \<Rightarrow> bool" where
  "progresses sc e a t d =
     (case a of (meth, url) \<Rightarrow> case t of ((key, uid), bodyHash) \<Rightarrow>
      \<not> (fst (Idem_Claim sc e key uid meth url bodyHash d)
           \<in> {(None, Some ErrInProgress), (None, Some (DbErr Fault))}))"

lemma pending_complete:
  assumes "List.find (own_key e key uid) rs = Some r" and "\<not> (text_eq e key key' \<and> uid' = uid)"
    and "\<And>x. ik_key (f x) = ik_key x \<and> ik_user (f x) = ik_user x"
  shows "List.find (own_key e key uid) (complete_rows e key' uid' f rs) = Some r"
proof -
  have "List.find (own_key e key uid) (complete_rows e key' uid' f rs) =
      map_option (\<lambda>x. if own_key e key' uid' x \<and> ik_completed x = None then f x else x)
        (List.find (own_key e key uid) rs)"
    unfolding complete_rows_def by (rule find_map_same) (simp add: own_key_def assms(3))
  moreover have "\<not> own_key e key' uid' r"
    using find_SomeD [OF assms(1)] assms(2) by (auto simp: own_key_def text_eq_def)
  ultimately show ?thesis using assms(1) by simp
qed

lemma pending_step:
  assumes "pending e t d" and "\<not> completes e p t"
  shows "pending e t (idem_step sc e p d)"
proof -
  obtain key uid h where t: "t = ((key, uid), h)" by (metis prod.exhaust)
  with assms(1) obtain r where r: "List.find (own_key e key uid) (idem_rows (tabs d)) = Some r"
    "ik_body r = h" "ik_completed r = None"
    by (auto simp: pending_def split: option.splits)
  have "List.find (own_key e key uid) (idem_rows (tabs (idem_step sc e p d))) = Some r"
  proof (cases p)
    case (IClaim key' uid' meth url h')
    then show ?thesis using r by (auto simp: Idem_Claim_unfold Let_def find_append)
  next
    case (IComplete key' uid' res)
    then show ?thesis
      using r assms(2)
      by (auto simp: t Idem_Complete_def exec_def upd_result_def Let_def
          intro!: pending_complete split: outcome.splits)
  next
    case (NClaim key' uid' meth url h')
    then show ?thesis
      using r by (auto simp: Idempotency_Claim_def idem_tx_unfold ins_claim_def find_append
          split: outcome.splits option.splits if_splits)
  next
    case (NComplete key' uid' nid)
    then show ?thesis
      using r assms(2)
      by (auto simp: t Idempotency_Complete_def exec_def upd_note_def Let_def
          intro!: pending_complete split: outcome.splits)
  qed
  with r show ?thesis by (simp add: pending_def t)
qed

lemma pending_claim:
  assumes "pending e ((key, uid), h) d"
  shows "Idem_Claim sc e key uid meth url h d =
    (if out e (tick d) \<noteq> Okay then ((None, Some (DbErr Fault)), d\<lparr>tick := tick d + 1\<rparr>)
     else if out e (tick d + 2) \<noteq> Okay then ((None, Some (DbErr Fault)), d\<lparr>tick := tick d + 4\<rparr>)
     else ((None, Some ErrInProgress), d\<lparr>tick := tick d + 4\<rparr>))"
proof -
  from assms obtain r where r: "List.find (own_key e key uid) (idem_rows (tabs d)) = Some r"
    "ik_body r = h" "ik_completed r = None"
    by (auto simp: pending_def split: option.splits)
  from find_SomeD [OF r(1)] have "list_ex (key_clash sc e key uid) (idem_rows (tabs d))"
    by (auto simp: list_ex_iff intro: own_key_clash)
  with r show ?thesis by (simp add: Idem_Claim_unfold Let_def claim_answer_def)
qed

lemma pending_answer:
  "pending e ((key, uid), h) d \<Longrightarrow> fst (Idem_Claim sc e key uid meth url h d)
    \<in> {(None, Some ErrInProgress), (None, Some (DbErr Fault))}"
  by (simp add: pending_claim)

interpretation idem_pending: one_shot "idem_step sc e" "pending e" "completes e" "progresses sc e"
  for sc e
  by unfold_locales
    (auto simp: pending_step progresses_def split: prod.splits dest: pending_answer)

text \<open>A granted claim leaves its row pending.\<close>

lemma grant_pending:
  assumes "grants sc e (meth, url, bodyHash) (key, uid) d" and "out e (tick d + 2) \<noteq> Refused"
  shows "pending e ((key, uid), bodyHash) (snd (Idem_Claim sc e key uid meth url bodyHash d))"
proof -
  from assms(1) have no_row: "List.find (own_key e key uid) (idem_rows (tabs d)) = None"
    and rows: "idem_rows (tabs (snd (Idem_Claim sc e key uid meth url bodyHash d))) =
      idem_rows (tabs d) @ [claim_row e key uid meth url bodyHash (now e (tick d + 1))]"
    using assms(2) key_taken_blocks [of sc e "(key, uid)" d]
    by (auto simp: grants_def key_taken_def Idem_Claim_unfold Let_def find_None_conv list_ex_iff
        claim_answer_def dest: own_key_clash split: option.splits if_splits)
  then show ?thesis
    by (simp add: pending_def find_append own_key_def claim_row_def)
qed

text \<open>The operations leave the other tables alone.\<close>

lemma idem_frame [frame]:
  "note_rows (tabs (snd (Idem_Claim sc e key uid meth url bodyHash d))) = note_rows (tabs d)"
  "note_rows (tabs (snd (Idem_Complete e key uid res d))) = note_rows (tabs d)"
  by (auto simp: Idem_Claim_unfold Let_def Idem_Complete_def exec_def upd_result_def
      split: outcome.splits)

section \<open>Properties\<close>

text \<open>
  C18. At most one request gets a key, if the server did not refuse the commit of the claim that was
  granted (the code drops that error): no claim for that key and user is granted
  again, in any interleaving of claims and completions by any number of clients, however their
  calls fail.
\<close>

theorem claim_granted_once:
  assumes "grants sc e (meth, url, bodyHash) (key, uid) d" and "out e (tick d + 2) \<noteq> Refused"
  shows "\<not> grants sc e (meth', url', bodyHash') (key, uid)
     (fold (idem_step sc e) ops (idem_step sc e (IClaim key uid meth url bodyHash) d))"
  by (rule idem_keys.never_taken_again [OF grant_takes_key [OF assms] no_mints])

theorem claim_granted_once_witness:
  "grants PerKey demo_env (''PUT'', ''/notes/1'', ''h'') (''k'', 7) empty_db \<and>
   \<not> grants PerKey demo_env (''PUT'', ''/notes/1'', ''h'') (''k'', 7)
     (fold (idem_step PerKey demo_env) [IComplete ''k'' 7 ''ok'', IClaim ''j'' 8 ''PUT'' ''/notes/2'' ''g'']
       (idem_step PerKey demo_env (IClaim ''k'' 7 ''PUT'' ''/notes/1'' ''h'') empty_db))"
proof
  show g: "grants PerKey demo_env (''PUT'', ''/notes/1'', ''h'') (''k'', 7) empty_db"
    by (simp add: grants_def Idem_Claim_unfold Let_def)
  show "\<not> grants PerKey demo_env (''PUT'', ''/notes/1'', ''h'') (''k'', 7)
     (fold (idem_step PerKey demo_env) [IComplete ''k'' 7 ''ok'', IClaim ''j'' 8 ''PUT'' ''/notes/2'' ''g'']
       (idem_step PerKey demo_env (IClaim ''k'' 7 ''PUT'' ''/notes/1'' ''h'') empty_db))"
    by (rule claim_granted_once [OF g]) simp
qed

text \<open>
  C19. Claim, complete, replay: once a request was granted its key, with a commit that was not refused,
  and stored its response, every later claim with the same body gets that very response when its
  transaction begins and its SELECT is answered, and else a database fault, never a second
  grant, a mismatch or another text, whatever others do in between; and it changes no table.
\<close>

theorem claim_complete_replays:
  assumes "grants sc e (meth, url, bodyHash) (key, uid) d" and "out e (tick d + 2) \<noteq> Refused"
    and "d1 = snd (Idem_Claim sc e key uid meth url bodyHash d)"
    and "Idem_Complete e key uid res d1 = (None, d2)"
    and "d3 = fold (idem_step sc e) ops d2"
  shows "fst (Idem_Claim sc e key uid meth' url' bodyHash d3) =
      (if out e (tick d3) = Okay \<and> out e (tick d3 + 2) = Okay then (Some res, None)
       else (None, Some (DbErr Fault))) \<and>
    tabs (snd (Idem_Claim sc e key uid meth' url' bodyHash d3)) = tabs d3"
proof -
  have "replays e ((key, uid), (bodyHash, res)) d2"
    using assms by (intro completed_replays) simp_all
  then have "\<not> answers_otherwise sc e (meth', url') ((key, uid), (bodyHash, res)) d3"
    unfolding assms(5) by (rule idem_replay.never_taken_again [OF _ no_mints])
  then show ?thesis by (simp add: answers_otherwise_def)
qed

theorem claim_complete_replays_witness:
  "fst (Idem_Claim PerKey demo_env ''k'' 7 ''DELETE'' ''/notes/9'' ''h''
      (fold (idem_step PerKey demo_env) [IComplete ''k'' 7 ''other'']
        (snd (Idem_Complete demo_env ''k'' 7 ''ok''
          (snd (Idem_Claim PerKey demo_env ''k'' 7 ''PUT'' ''/notes/1'' ''h'' empty_db)))))) = (Some ''ok'', None)"
proof -
  let ?d1 = "snd (Idem_Claim PerKey demo_env ''k'' 7 ''PUT'' ''/notes/1'' ''h'' empty_db)"
  have "grants PerKey demo_env (''PUT'', ''/notes/1'', ''h'') (''k'', 7) empty_db"
    by (simp add: grants_def Idem_Claim_unfold Let_def)
  moreover have "Idem_Complete demo_env ''k'' 7 ''ok'' ?d1 =
      (None, snd (Idem_Complete demo_env ''k'' 7 ''ok'' ?d1))"
    by (simp add: prod_eq_iff Idem_Complete_def exec_def upd_result_def)
  ultimately show ?thesis
    using claim_complete_replays [OF _ _ refl _ refl, of PerKey demo_env "''PUT''" "''/notes/1''" "''h''" "''k''" 7
        empty_db "''ok''" _ "''DELETE''" "''/notes/9''" "[IComplete ''k'' 7 ''other'']"] by simp
qed

text \<open>
  A key is bound to its first body: while the key is held by a request with another body
  hash, a claim is answered with the mismatch error (or a database fault), in any history, and
  no claim changes a table that holds its key.
\<close>

theorem claim_other_body_mismatches:
  assumes "List.find (own_key e key uid) (idem_rows (tabs d)) = Some r" and "ik_body r \<noteq> bodyHash"
  shows "fst (Idem_Claim sc e key uid meth url bodyHash d)
      \<in> {(None, Some ErrMismatch), (None, Some (DbErr Fault))} \<and>
    tabs (snd (Idem_Claim sc e key uid meth url bodyHash d)) = tabs d"
proof -
  from find_SomeD [OF assms(1)] have "list_ex (key_clash sc e key uid) (idem_rows (tabs d))"
    by (auto simp: list_ex_iff intro: own_key_clash)
  with assms show ?thesis by (auto simp: Idem_Claim_unfold Let_def claim_answer_def)
qed

theorem claim_other_body_mismatches_witness:
  "fst (Idem_Claim PerKey demo_env ''k'' 7 ''PUT'' ''/notes/1'' ''g''
      (snd (Idem_Claim PerKey demo_env ''k'' 7 ''PUT'' ''/notes/1'' ''h'' empty_db)))
   \<in> {(None, Some ErrMismatch), (None, Some (DbErr Fault))}"
proof -
  let ?d = "snd (Idem_Claim PerKey demo_env ''k'' 7 ''PUT'' ''/notes/1'' ''h'' empty_db)"
  have row: "List.find (own_key demo_env ''k'' 7) (idem_rows (tabs ?d)) =
      Some (claim_row demo_env ''k'' 7 ''PUT'' ''/notes/1'' ''h'' 100)"
    by (simp add: Idem_Claim_unfold Let_def own_key_def claim_row_def)
  have "ik_body (claim_row demo_env ''k'' 7 ''PUT'' ''/notes/1'' ''h'' 100) \<noteq> ''g''"
    by (simp add: claim_row_def)
  from conjunct1 [OF claim_other_body_mismatches [OF row this]] show ?thesis .
qed

section \<open>Keys of different users\<close>

definition held_by_other :: "env \<Rightarrow> string \<times> int \<Rightarrow> db \<Rightarrow> bool" where
  "held_by_other e k d \<longleftrightarrow>
     list_ex (\<lambda>r. text_eq e (ik_key r) (fst k) \<and> ik_user r \<noteq> snd k) (idem_rows (tabs d)) \<and>
     \<not> list_ex (own_key e (fst k) (snd k)) (idem_rows (tabs d))"

text \<open>The claim gets some answer other than an error of the database.\<close>

definition usable :: "idem_schema \<Rightarrow> env \<Rightarrow> string \<times> string \<times> string \<Rightarrow> string \<times> int \<Rightarrow> db \<Rightarrow> bool" where
  "usable sc e a k d =
     (case a of (meth, url, bodyHash) \<Rightarrow> case k of (key, uid) \<Rightarrow>
      \<not> (fst (Idem_Claim sc e key uid meth url bodyHash d)
           \<in> {(None, Some (DbErr NoRows)), (None, Some (DbErr Fault))}))"

lemma held_by_other_blocks: "held_by_other e k d \<Longrightarrow> \<not> usable PerKey e a k d"
proof -
  assume h: "held_by_other e k d"
  then have "list_ex (key_clash PerKey e (fst k) (snd k)) (idem_rows (tabs d))"
    and "List.find (own_key e (fst k) (snd k)) (idem_rows (tabs d)) = None"
    by (auto simp: held_by_other_def key_clash_def list_ex_iff find_None_conv)
  then show ?thesis
    by (auto simp: usable_def Idem_Claim_unfold Let_def claim_answer_def split: prod.splits)
qed

lemma held_by_other_step:
  assumes "held_by_other e k d"
  shows "held_by_other e k (idem_step PerKey e p d)"
proof -
  let ?rs = "idem_rows (tabs d)"
  from idem_step_grows [of PerKey e d p] obtain f ys where
    rs': "idem_rows (tabs (idem_step PerKey e p d)) = map f ?rs @ ys"
    and f: "\<And>r. r \<in> set ?rs \<Longrightarrow> row_grows r (f r)"
    and ys: "\<And>y. y \<in> set ys \<Longrightarrow> \<not> list_ex (key_clash PerKey e (ik_key y) (ik_user y)) ?rs"
    unfolding idem_grows_def by blast
  from assms obtain r where r: "r \<in> set ?rs" "text_eq e (ik_key r) (fst k)" "ik_user r \<noteq> snd k"
    by (auto simp: held_by_other_def list_ex_iff)
  have new: "\<not> own_key e (fst k) (snd k) y" if "y \<in> set ys" for y
    using ys [OF that] r by (auto simp: own_key_def key_clash_def list_ex_iff text_eq_def)
  have old: "\<not> own_key e (fst k) (snd k) (f s)" if "s \<in> set ?rs" for s
    using f [OF that] assms that
    by (auto simp: own_key_def row_grows_def held_by_other_def list_ex_iff)
  have "f r \<in> set (map f ?rs @ ys)" and "text_eq e (ik_key (f r)) (fst k)" and "ik_user (f r) \<noteq> snd k"
    using r f [OF r(1)] by (auto simp: row_grows_def)
  then show ?thesis
    using new old by (auto simp: held_by_other_def rs' list_ex_iff)
qed

interpretation idem_foreign: one_shot "idem_step PerKey e" "held_by_other e" "\<lambda>_ _. False"
    "usable PerKey e" for e
  by unfold_locales (simp_all add: held_by_other_step held_by_other_blocks)

text \<open>
  Under the primary key of migration 0007 a key that another user claimed first is unusable
  for good: every claim of it by a user who holds no row for it ends in an error
  (\<open>sql.ErrNoRows\<close> or a fault) in any later history of claims and completions.
\<close>

theorem foreign_key_is_unusable:
  assumes "held_by_other e (key, uid) d"
  shows "fst (Idem_Claim PerKey e key uid meth url bodyHash (fold (idem_step PerKey e) ops d))
     \<in> {(None, Some (DbErr NoRows)), (None, Some (DbErr Fault))}"
  using idem_foreign.never_taken_again [OF assms no_mints, of "(meth, url, bodyHash)" ops]
  by (simp add: usable_def)

theorem foreign_key_is_unusable_witness:
  "held_by_other demo_env (''k'', 8) (idem_step PerKey demo_env (IClaim ''k'' 7 ''PUT'' ''/notes/1'' ''h'') empty_db) \<and>
   fst (Idem_Claim PerKey demo_env ''k'' 8 ''PUT'' ''/notes/2'' ''h''
     (fold (idem_step PerKey demo_env) [IComplete ''k'' 7 ''ok'', IClaim ''k'' 8 ''PUT'' ''/notes/2'' ''h'']
       (idem_step PerKey demo_env (IClaim ''k'' 7 ''PUT'' ''/notes/1'' ''h'') empty_db)))
   \<in> {(None, Some (DbErr NoRows)), (None, Some (DbErr Fault))}"
proof
  show h: "held_by_other demo_env (''k'', 8)
     (idem_step PerKey demo_env (IClaim ''k'' 7 ''PUT'' ''/notes/1'' ''h'') empty_db)"
    by (simp add: held_by_other_def Idem_Claim_unfold Let_def claim_row_def own_key_def)
  show "fst (Idem_Claim PerKey demo_env ''k'' 8 ''PUT'' ''/notes/2'' ''h''
     (fold (idem_step PerKey demo_env) [IComplete ''k'' 7 ''ok'', IClaim ''k'' 8 ''PUT'' ''/notes/2'' ''h'']
       (idem_step PerKey demo_env (IClaim ''k'' 7 ''PUT'' ''/notes/1'' ''h'') empty_db)))
   \<in> {(None, Some (DbErr NoRows)), (None, Some (DbErr Fault))}"
    by (rule foreign_key_is_unusable [OF h])
qed

text \<open>
  Under the per-user key of migration 0010 users do not see each other's keys: the answer
  to a claim is a function of the claimant's own rows.
\<close>

theorem per_user_keys_are_private:
  assumes "filter (\<lambda>r. ik_user r = uid) (idem_rows (tabs d)) =
      filter (\<lambda>r. ik_user r = uid) (idem_rows (tabs d'))"
    and "tick d = tick d'"
  shows "fst (Idem_Claim PerUserKey e key uid meth url bodyHash d) =
    fst (Idem_Claim PerUserKey e key uid meth url bodyHash d')"
proof -
  have find: "List.find (own_key e key uid) rs =
      List.find (own_key e key uid) (filter (\<lambda>r. ik_user r = uid) rs)" for rs
    unfolding find_filter by (rule find_cong_set) (auto simp: own_key_def)
  have clash: "list_ex (key_clash PerUserKey e key uid) rs =
      list_ex (key_clash PerUserKey e key uid) (filter (\<lambda>r. ik_user r = uid) rs)" for rs
    by (auto simp: list_ex_iff key_clash_def)
  show ?thesis
    using assms find [of "idem_rows (tabs d)"] find [of "idem_rows (tabs d')"]
      clash [of "idem_rows (tabs d)"] clash [of "idem_rows (tabs d')"]
    by (simp add: Idem_Claim_unfold Let_def)
qed

theorem per_user_keys_are_private_witness:
  "fst (Idem_Claim PerUserKey demo_env ''k'' 8 ''PUT'' ''/notes/2'' ''h''
     (idem_step PerUserKey demo_env (IClaim ''k'' 7 ''PUT'' ''/notes/1'' ''h'') empty_db)) =
   fst (Idem_Claim PerUserKey demo_env ''k'' 8 ''PUT'' ''/notes/2'' ''h'' (empty_db\<lparr>tick := 3\<rparr>))"
  by (rule per_user_keys_are_private) (simp_all add: Idem_Claim_unfold Let_def claim_row_def)

end
