(* ===== verification/Paging.thy ===== *)
theory Paging
  imports Prelude
begin

text \<open>
  The contract of a paged listing: every page is cut out of some sorted arrangement of the
  matching rows. When the order leaves no two rows tied, the pages, although fetched one by
  one, fit together to the sorted list of all rows. \<open>Notes_Repo\<close> and \<open>Users_Repo\<close>
  interpret it.
\<close>

lemma sorted_wrt_unique:
  assumes "mset xs = mset ys" and "sorted_wrt le xs" and "sorted_wrt le ys"
    and "\<And>x y. x \<in> set xs \<Longrightarrow> y \<in> set xs \<Longrightarrow> le x y \<Longrightarrow> le y x \<Longrightarrow> x = y"
  shows "xs = ys"
  using assms
proof (induction xs arbitrary: ys)
  case Nil
  then show ?case by simp
next
  case (Cons x xs)
  then obtain y ys' where ys: "ys = y # ys'" by (cases ys) auto
  have "set (x # xs) = set ys" using Cons.prems(1) by (metis set_mset_mset)
  then have "x = y \<or> (x \<in> set ys' \<and> y \<in> set xs)" using ys by auto
  then have "x = y"
    using Cons.prems(2-4) by (auto simp: ys)
  with Cons ys show ?case by auto
qed

locale pager =
  fixes valid :: "'s \<Rightarrow> bool"
    and fetch :: "'s \<Rightarrow> nat \<Rightarrow> 'a list"
    and rows :: "'s \<Rightarrow> 'a list"
    and le :: "'s \<Rightarrow> 'a \<Rightarrow> 'a \<Rightarrow> bool"
    and sz :: "'s \<Rightarrow> nat"
    and last_page :: "'s \<Rightarrow> nat"
  assumes fetch: "valid s \<Longrightarrow> p < last_page s \<Longrightarrow>
      \<exists>arr. mset arr = mset (rows s) \<and> sorted_wrt (le s) arr \<and>
        fetch s p = page_of (sz s) (p * sz s) arr"
    and untied: "valid s \<Longrightarrow> x \<in> set (rows s) \<Longrightarrow> y \<in> set (rows s) \<Longrightarrow>
      le s x y \<Longrightarrow> le s y x \<Longrightarrow> x = y"
begin

lemma one_arrangement:
  assumes "valid s" and "0 < last_page s"
  obtains arr where "mset arr = mset (rows s)" and "sorted_wrt (le s) arr"
    and "\<And>p. p < last_page s \<Longrightarrow> fetch s p = page_of (sz s) (p * sz s) arr"
proof -
  from fetch [OF assms(1), of 0] assms(2) obtain arr
    where arr: "mset arr = mset (rows s)" "sorted_wrt (le s) arr" by auto
  have "fetch s p = page_of (sz s) (p * sz s) arr" if "p < last_page s" for p
  proof -
    from fetch [OF assms(1) that] obtain arr'
      where arr': "mset arr' = mset (rows s)" "sorted_wrt (le s) arr'"
        "fetch s p = page_of (sz s) (p * sz s) arr'" by blast
    have "arr' = arr"
    proof (rule sorted_wrt_unique)
      show "mset arr' = mset arr" using arr arr' by simp
      have "set arr' = set (rows s)" using arr'(1) by (metis set_mset_mset)
      then show "x = y" if "x \<in> set arr'" "y \<in> set arr'" "le s x y" "le s y x" for x y
        using untied [OF assms(1)] that by simp
    qed (fact arr arr')+
    with arr' show ?thesis by simp
  qed
  with arr show ?thesis by (rule that)
qed

lemma pages_fit:
  assumes "valid s" and "0 < last_page s" and "length (rows s) \<le> last_page s * sz s"
  shows "mset (concat (map (fetch s) [0..<last_page s])) = mset (rows s)"
    and "sorted_wrt (le s) (concat (map (fetch s) [0..<last_page s]))"
proof -
  obtain arr where arr: "mset arr = mset (rows s)" "sorted_wrt (le s) arr"
      "\<And>p. p < last_page s \<Longrightarrow> fetch s p = page_of (sz s) (p * sz s) arr"
    using one_arrangement [OF assms(1,2)] by blast
  have "map (fetch s) [0..<last_page s] = map (\<lambda>p. page_of (sz s) (p * sz s) arr) [0..<last_page s]"
    using arr(3) by simp
  moreover have "length arr \<le> last_page s * sz s"
    using assms(3) arr(1) by (metis size_mset)
  ultimately have "concat (map (fetch s) [0..<last_page s]) = arr"
    by (simp only: pages_cover)
  with arr show "mset (concat (map (fetch s) [0..<last_page s])) = mset (rows s)"
    and "sorted_wrt (le s) (concat (map (fetch s) [0..<last_page s]))" by simp_all
qed

end

end
