(* ===== verification/Notes_Repo.thy ===== *)
theory Notes_Repo
  imports One_Shot Paging Demo
begin

text \<open>
  \<open>internal/repos/notes.go\<close>: listing, creating, reading, updating and deleting notes over the
  table \<open>notes\<close> (migrations 0001 and 0008). A \<open>Note\<close> is a row of the table. The timing
  observations of \<open>observe\<close> are left out.
\<close>

section \<open>The statements\<close>

definition sanitizeSort :: "string \<Rightarrow> string" where
  "sanitizeSort s =
     (if s = ''oldest'' then ''created_at ASC''
      else if s = ''title'' then ''title ASC, id DESC''
      else if s = ''updated'' then ''updated_at DESC''
      else ''id DESC'')"

text \<open>What the \<open>ORDER BY\<close> fragments mean: \<open>a\<close> may come before \<open>b\<close>.\<close>

definition order_by :: "env \<Rightarrow> string \<Rightarrow> note_row \<Rightarrow> note_row \<Rightarrow> bool" where
  "order_by e frag a b =
     (if frag = ''created_at ASC'' then n_created a \<le> n_created b
      else if frag = ''title ASC, id DESC'' then
        weight e (n_title a) < weight e (n_title b) \<or>
        (weight e (n_title a) = weight e (n_title b) \<and> n_id b \<le> n_id a)
      else if frag = ''updated_at DESC'' then n_updated b \<le> n_updated a
      else n_id b \<le> n_id a)"

text \<open>\<open>WHERE user_id=? AND deleted_at IS NULL [AND (title LIKE ? OR body LIKE ?)]\<close>.\<close>

definition listed :: "env \<Rightarrow> int \<Rightarrow> string \<Rightarrow> note_row \<Rightarrow> bool" where
  "listed e uid q r \<longleftrightarrow> n_user r = uid \<and> n_deleted r = None \<and>
     (q \<noteq> [] \<longrightarrow> (let p = ''%'' @ q @ ''%'' in like e p (n_title r) \<or> like e p (n_body r)))"

definition sel_count :: "env \<Rightarrow> int \<Rightarrow> string \<Rightarrow> nat \<Rightarrow> tables \<Rightarrow> int option" where
  "sel_count e uid q n t = Some (int (length (filter (listed e uid q) (note_rows t))))"

text \<open>\<open>LIMIT\<close> and \<open>OFFSET\<close> must not be negative: the server refuses such a statement.\<close>

definition sel_page ::
  "env \<Rightarrow> int \<Rightarrow> string \<Rightarrow> string \<Rightarrow> int \<Rightarrow> int \<Rightarrow> nat \<Rightarrow> tables \<Rightarrow> note_row list option" where
  "sel_page e uid q frag lim off n t =
     (if lim < 0 \<or> off < 0 then None
      else Some (page_of (nat lim) (nat off)
        (arrange e n (order_by e frag) (filter (listed e uid q) (note_rows t)))))"

definition visible :: "int \<Rightarrow> int \<Rightarrow> note_row \<Rightarrow> bool" where
  "visible uid i r \<longleftrightarrow> n_id r = i \<and> n_user r = uid \<and> n_deleted r = None"

definition sel_note :: "int \<Rightarrow> int \<Rightarrow> nat \<Rightarrow> tables \<Rightarrow> note_row option" where
  "sel_note uid i n t = List.find (visible uid i) (note_rows t)"

definition new_note :: "int \<Rightarrow> int \<Rightarrow> string \<Rightarrow> string \<Rightarrow> int \<Rightarrow> note_row" where
  "new_note i uid title body tm =
     \<lparr>n_id = i, n_user = uid, n_title = title, n_body = body, n_created = tm, n_updated = tm,
      n_deleted = None\<rparr>"

definition ins_note :: "env \<Rightarrow> int \<Rightarrow> string \<Rightarrow> string \<Rightarrow> stmt" where
  "ins_note e uid title body n t =
     (let i = auto_id e n
      in if i \<in> n_id ` set (note_rows t) then None
         else Some (i, t\<lparr>note_rows := note_rows t @ [new_note i uid title body (now e n)]\<rparr>))"

text \<open>
  \<open>updated_at\<close> is set by the column's \<open>ON UPDATE CURRENT_TIMESTAMP\<close>, when the statement
  changes some other column of the row.
\<close>

definition edit_note :: "string \<Rightarrow> string \<Rightarrow> int \<Rightarrow> note_row \<Rightarrow> note_row" where
  "edit_note title body tm r =
     (if n_title r = title \<and> n_body r = body then r
      else r\<lparr>n_title := title, n_body := body, n_updated := tm\<rparr>)"

definition bury_note :: "int \<Rightarrow> note_row \<Rightarrow> note_row" where
  "bury_note tm r = r\<lparr>n_deleted := Some tm, n_updated := tm\<rparr>"

definition upd_visible :: "int \<Rightarrow> int \<Rightarrow> (note_row \<Rightarrow> note_row) \<Rightarrow> note_row list \<Rightarrow> note_row list" where
  "upd_visible uid i f rs = map (\<lambda>r. if visible uid i r then f r else r) rs"

definition upd_note_text :: "env \<Rightarrow> int \<Rightarrow> int \<Rightarrow> string \<Rightarrow> string \<Rightarrow> stmt" where
  "upd_note_text e uid i title body n t =
     Some (0, t\<lparr>note_rows := upd_visible uid i (edit_note title body (now e n)) (note_rows t)\<rparr>)"

definition upd_note_deleted :: "env \<Rightarrow> int \<Rightarrow> int \<Rightarrow> stmt" where
  "upd_note_deleted e uid i n t =
     Some (0, t\<lparr>note_rows := upd_visible uid i (bury_note (now e n)) (note_rows t)\<rparr>)"

lemmas note_stmts [sql_defs] =
  sel_count_def sel_page_def sel_note_def ins_note_def upd_note_text_def upd_note_deleted_def

section \<open>The operations\<close>

text \<open>The offset is computed in 64-bit arithmetic.\<close>

definition page_offset :: "int \<Rightarrow> int \<Rightarrow> int" where
  "page_offset page sz = i64 (i64 (page - 1) * sz)"

definition Notes_ListFiltered ::
  "env \<Rightarrow> int \<Rightarrow> int \<Rightarrow> int \<Rightarrow> string \<Rightarrow> string \<Rightarrow> db \<Rightarrow> (dberr, note_row list \<times> int) result \<times> db" where
  "Notes_ListFiltered e uid page0 sz0 q sortkey d =
     (let page = (if page0 < 1 then 1 else page0);
          sz = (if sz0 < 1 \<or> sz0 > 100 then 20 else sz0)
      in case query_row e (sel_count e uid q) d of
           (Inl er, d1) \<Rightarrow> (Inl er, d1)
         | (Inr cnt, d1) \<Rightarrow>
     (case query e (sel_page e uid q (sanitizeSort sortkey) sz (page_offset page sz)) d1 of
           (Inl er, d2) \<Rightarrow> (Inl er, d2)
         | (Inr None, d2) \<Rightarrow> (Inl Fault, d2)
         | (Inr (Some rows), d2) \<Rightarrow> (Inr (rows, cnt), d2)))"

definition Notes_Create :: "env \<Rightarrow> int \<Rightarrow> string \<Rightarrow> string \<Rightarrow> db \<Rightarrow> (dberr, int) result \<times> db" where
  "Notes_Create e uid title body d = exec e (ins_note e uid title body) d"

definition Notes_Get :: "env \<Rightarrow> int \<Rightarrow> int \<Rightarrow> db \<Rightarrow> (dberr, note_row) result \<times> db" where
  "Notes_Get e uid i d = query_row e (sel_note uid i) d"

definition Notes_Update ::
  "env \<Rightarrow> int \<Rightarrow> int \<Rightarrow> string \<Rightarrow> string \<Rightarrow> db \<Rightarrow> (dberr, note_row) result \<times> db" where
  "Notes_Update e uid i title body d =
     (case exec e (upd_note_text e uid i title body) d of
        (Inl er, d1) \<Rightarrow> (Inl er, d1)
      | (Inr _, d1) \<Rightarrow> Notes_Get e uid i d1)"

text \<open>\<open>Delete\<close> returns the note as it was, with the error of the UPDATE.\<close>

definition Notes_Delete :: "env \<Rightarrow> int \<Rightarrow> int \<Rightarrow> db \<Rightarrow> (dberr, note_row) result \<times> db" where
  "Notes_Delete e uid i d =
     (case Notes_Get e uid i d of
        (Inl er, d1) \<Rightarrow> (Inl er, d1)
      | (Inr r, d1) \<Rightarrow>
     (case exec e (upd_note_deleted e uid i) d1 of
        (Inl er, d2) \<Rightarrow> (Inl er, d2)
      | (Inr _, d2) \<Rightarrow> (Inr r, d2)))"

lemmas note_ops =
  Notes_ListFiltered_def Notes_Create_def Notes_Get_def Notes_Update_def Notes_Delete_def

section \<open>Histories\<close>

datatype note_op =
    NoteCreate int string string
  | NoteUpdate int int string string
  | NoteDelete int int
  | NoteGet int int
  | NoteList int int int string string

fun note_step :: "env \<Rightarrow> note_op \<Rightarrow> db \<Rightarrow> db" where
  "note_step e (NoteCreate uid title body) d = snd (Notes_Create e uid title body d)"
| "note_step e (NoteUpdate uid i title body) d = snd (Notes_Update e uid i title body d)"
| "note_step e (NoteDelete uid i) d = snd (Notes_Delete e uid i d)"
| "note_step e (NoteGet uid i) d = snd (Notes_Get e uid i d)"
| "note_step e (NoteList uid page sz q s) d = snd (Notes_ListFiltered e uid page sz q s d)"

fun op_user :: "note_op \<Rightarrow> int" where
  "op_user (NoteCreate uid _ _) = uid"
| "op_user (NoteUpdate uid _ _ _) = uid"
| "op_user (NoteDelete uid _) = uid"
| "op_user (NoteGet uid _) = uid"
| "op_user (NoteList uid _ _ _ _) = uid"

abbreviation notes_of :: "db \<Rightarrow> note_row list" where
  "notes_of d \<equiv> note_rows (tabs d)"

text \<open>
  What a step does to the table: nothing, a new row at the end, or an edit or deletion of the
  rows that the user and the id make visible (in an update that may be nothing).
\<close>

lemma note_rows_step:
  "notes_of (note_step e op d) = notes_of d \<or>
   (\<exists>n title body. op = NoteCreate (op_user op) title body \<and> auto_id e n \<notin> n_id ` set (notes_of d) \<and>
      notes_of (note_step e op d) =
        notes_of d @ [new_note (auto_id e n) (op_user op) title body (now e n)]) \<or>
   (\<exists>i title body tm. op = NoteUpdate (op_user op) i title body \<and>
      notes_of (note_step e op d) = upd_visible (op_user op) i (edit_note title body tm) (notes_of d)) \<or>
   (\<exists>i tm. op = NoteDelete (op_user op) i \<and>
      notes_of (note_step e op d) = upd_visible (op_user op) i (bury_note tm) (notes_of d))"
proof (cases op)
  case (NoteCreate uid title body)
  then show ?thesis
    by (auto simp: note_ops exec_def ins_note_def Let_def split: outcome.splits)
next
  case (NoteUpdate uid i title body)
  then show ?thesis
    by (auto simp: note_ops exec_def upd_note_text_def query_row_unfold Let_def split: outcome.splits)
next
  case (NoteDelete uid i)
  then show ?thesis
    by (auto simp: note_ops exec_def upd_note_deleted_def query_row_unfold Let_def
        split: outcome.splits option.splits)
next
  case (NoteGet uid i)
  then show ?thesis by (simp add: note_ops query_row_unfold)
next
  case (NoteList uid page sz q s)
  then show ?thesis
    by (auto simp: note_ops query_row_unfold query_def Let_def split: option.splits)
qed

lemma edit_note_simps [simp]:
  "n_id (edit_note title body tm r) = n_id r" "n_user (edit_note title body tm r) = n_user r"
  "n_deleted (edit_note title body tm r) = n_deleted r" "n_created (edit_note title body tm r) = n_created r"
  "n_title (edit_note title body tm r) = title" "n_body (edit_note title body tm r) = body"
  by (auto simp: edit_note_def)

lemma bury_note_simps [simp]:
  "n_id (bury_note tm r) = n_id r" "n_user (bury_note tm r) = n_user r"
  "n_deleted (bury_note tm r) = Some tm" "n_title (bury_note tm r) = n_title r"
  "n_body (bury_note tm r) = n_body r"
  by (simp_all add: bury_note_def)

text \<open>Note ids are distinct: the primary key.\<close>

definition notes_keyed :: "tables \<Rightarrow> bool" where
  "notes_keyed t \<longleftrightarrow> keyed n_id (note_rows t)"

lemma keyed_upd_visible:
  "(\<And>r. n_id (f r) = n_id r) \<Longrightarrow> keyed n_id (upd_visible uid i f rs) = keyed n_id rs"
  unfolding upd_visible_def by (rule keyed_map) simp

lemma notes_keyed_step: "notes_keyed (tabs d) \<Longrightarrow> notes_keyed (tabs (note_step e op d))"
  using note_rows_step [of e op d]
  by (auto simp: notes_keyed_def keyed_snoc keyed_upd_visible new_note_def)

lemma notes_keyed_history: "notes_keyed (tabs d) \<Longrightarrow> notes_keyed (tabs (fold (note_step e) ops d))"
  by (induction ops arbitrary: d) (auto simp: notes_keyed_step)

text \<open>The operations leave the other tables alone.\<close>

lemma notes_frame [frame]:
  "idem_rows (tabs (snd (Notes_Create e uid title body d))) = idem_rows (tabs d)"
  "idem_rows (tabs (snd (Notes_Get e uid i d))) = idem_rows (tabs d)"
  "idem_rows (tabs (snd (Notes_Update e uid i title body d))) = idem_rows (tabs d)"
  "idem_rows (tabs (snd (Notes_Delete e uid i d))) = idem_rows (tabs d)"
  by (auto simp: note_ops exec_def ins_note_def upd_note_text_def upd_note_deleted_def
      query_row_unfold Let_def split: outcome.splits option.splits)

section \<open>The notes of each user as a map\<close>

text \<open>
  The abstract view: for every user a map from ids to title and body. \<open>fresh\<close> is the id that
  the server hands out.
\<close>

type_synonym shelf = "int \<Rightarrow> int \<rightharpoonup> string \<times> string"

definition shelf_of :: "tables \<Rightarrow> shelf" where
  "shelf_of t uid i =
     map_option (\<lambda>r. (n_title r, n_body r)) (List.find (visible uid i) (note_rows t))"

fun shelf_step :: "int \<Rightarrow> note_op \<Rightarrow> shelf \<Rightarrow> shelf" where
  "shelf_step fresh (NoteCreate uid title body) m = m(uid := (m uid)(fresh \<mapsto> (title, body)))"
| "shelf_step fresh (NoteUpdate uid i title body) m =
     (if m uid i = None then m else m(uid := (m uid)(i \<mapsto> (title, body))))"
| "shelf_step fresh (NoteDelete uid i) m = m(uid := (m uid)(i := None))"
| "shelf_step fresh _ m = m"

definition view :: "note_row list \<Rightarrow> shelf" where
  "view rs uid i = map_option (\<lambda>r. (n_title r, n_body r)) (List.find (visible uid i) rs)"

lemma shelf_of_view: "shelf_of t = view (note_rows t)"
  by (intro ext) (simp add: shelf_of_def view_def)

lemma view_new:
  assumes "i \<notin> n_id ` set rs"
  shows "view (rs @ [new_note i uid title body tm]) =
    (view rs)(uid := (view rs uid)(i \<mapsto> (title, body)))"
proof (intro ext)
  fix v j
  have "List.find (visible v i) rs = None"
    using assms by (auto simp: find_None_conv visible_def)
  then show "view (rs @ [new_note i uid title body tm]) v j =
    ((view rs)(uid := (view rs uid)(i \<mapsto> (title, body)))) v j"
    by (auto simp: view_def find_append new_note_def visible_def split: option.splits)
qed

lemma view_edit:
  "view (upd_visible uid i (edit_note title body tm) rs) =
   (if view rs uid i = None then view rs
    else (view rs)(uid := (view rs uid)(i \<mapsto> (title, body))))"
proof (intro ext)
  fix v j
  have "List.find (visible v j) (upd_visible uid i (edit_note title body tm) rs) =
    map_option (\<lambda>r. if visible uid i r then edit_note title body tm r else r)
      (List.find (visible v j) rs)"
    unfolding upd_visible_def by (rule find_map_same) (auto simp: visible_def)
  then show "view (upd_visible uid i (edit_note title body tm) rs) v j =
    (if view rs uid i = None then view rs
     else (view rs)(uid := (view rs uid)(i \<mapsto> (title, body)))) v j"
    using find_SomeD [of "visible v j" rs]
    by (cases "List.find (visible v j) rs") (auto simp: view_def visible_def)
qed

lemma find_buried: "List.find (visible uid i) (upd_visible uid i (bury_note tm) rs) = None"
  by (induction rs) (auto simp: upd_visible_def visible_def)

lemma view_bury:
  "view (upd_visible uid i (bury_note tm) rs) = (view rs)(uid := (view rs uid)(i := None))"
proof (intro ext)
  fix v j
  show "view (upd_visible uid i (bury_note tm) rs) v j =
    ((view rs)(uid := (view rs uid)(i := None))) v j"
  proof (cases "v = uid \<and> j = i")
    case True
    then show ?thesis by (simp add: view_def find_buried)
  next
    case False
    have "List.find (visible v j) (upd_visible uid i (bury_note tm) rs) =
      map_option (\<lambda>r. if visible uid i r then bury_note tm r else r) (List.find (visible v j) rs)"
      unfolding upd_visible_def using False by (intro find_map_same) (auto simp: visible_def)
    then show ?thesis
      using False find_SomeD [of "visible v j" rs]
      by (cases "List.find (visible v j) rs") (auto simp: view_def visible_def)
  qed
qed

lemma shelf_step_refines:
  assumes "\<And>n. out e n = Okay" and "auto_id e (tick d) \<notin> n_id ` set (notes_of d)"
  shows "shelf_of (tabs (note_step e op d)) = shelf_step (auto_id e (tick d)) op (shelf_of (tabs d))"
proof (cases op)
  case (NoteCreate uid title body)
  with assms show ?thesis
    by (simp add: note_ops exec_def ins_note_def Let_def shelf_of_view view_new)
next
  case (NoteUpdate uid i title body)
  with assms show ?thesis
    by (simp add: note_ops exec_def upd_note_text_def query_row_unfold Let_def shelf_of_view view_edit)
next
  case (NoteDelete uid i)
  show ?thesis
  proof (cases "List.find (visible uid i) (notes_of d)")
    case None
    then have "shelf_of (tabs d) uid i = None" by (simp add: shelf_of_def)
    then have "(shelf_of (tabs d))(uid := (shelf_of (tabs d) uid)(i := None)) = shelf_of (tabs d)"
      by (simp add: fun_upd_idem)
    with None assms NoteDelete show ?thesis
      by (simp add: note_ops query_row_unfold sel_note_def)
  next
    case (Some r)
    with assms NoteDelete show ?thesis
      by (simp add: note_ops exec_def upd_note_deleted_def query_row_unfold sel_note_def Let_def
          shelf_of_view view_bury)
  qed
next
  case (NoteGet uid i)
  then show ?thesis by (simp add: note_ops query_row_unfold)
next
  case (NoteList uid page sz q s)
  then show ?thesis
    by (simp add: note_ops query_row_unfold query_def Let_def split: option.splits)
qed

text \<open>The abstract run of a history, with the ids of the calls' numbers.\<close>

fun shelf_run :: "env \<Rightarrow> note_op list \<Rightarrow> db \<Rightarrow> shelf \<Rightarrow> shelf" where
  "shelf_run e [] d m = m"
| "shelf_run e (op # ops) d m =
     shelf_run e ops (note_step e op d) (shelf_step (auto_id e (tick d)) op m)"

text \<open>The server's ids are fresh along the history.\<close>

fun ids_fresh :: "env \<Rightarrow> note_op list \<Rightarrow> db \<Rightarrow> bool" where
  "ids_fresh e [] d \<longleftrightarrow> True"
| "ids_fresh e (op # ops) d \<longleftrightarrow>
     auto_id e (tick d) \<notin> n_id ` set (notes_of d) \<and> ids_fresh e ops (note_step e op d)"

section \<open>Ownership\<close>

lemma upd_visible_other:
  "uid \<noteq> v \<Longrightarrow> (\<And>r. n_user (f r) = n_user r) \<Longrightarrow>
   filter (\<lambda>r. n_user r = v) (upd_visible uid i f rs) = filter (\<lambda>r. n_user r = v) rs"
  by (induction rs) (auto simp: upd_visible_def visible_def)

lemma step_isolates:
  "op_user op \<noteq> v \<Longrightarrow>
   filter (\<lambda>r. n_user r = v) (notes_of (note_step e op d)) = filter (\<lambda>r. n_user r = v) (notes_of d)"
  using note_rows_step [of e op d] by (auto simp: new_note_def upd_visible_other)

lemma history_isolates:
  "list_all (\<lambda>op. op_user op \<noteq> v) ops \<Longrightarrow>
   filter (\<lambda>r. n_user r = v) (notes_of (fold (note_step e) ops d)) =
   filter (\<lambda>r. n_user r = v) (notes_of d)"
  by (induction ops arbitrary: d) (auto simp: step_isolates)

lemma find_visible_own:
  "List.find (visible v i) rs = List.find (visible v i) (filter (\<lambda>r. n_user r = v) rs)"
  unfolding find_filter by (rule find_cong_set) (auto simp: visible_def)

section \<open>Deleted notes\<close>

definition note_gone :: "int \<Rightarrow> db \<Rightarrow> bool" where
  "note_gone i d \<longleftrightarrow> notes_keyed (tabs d) \<and>
     list_ex (\<lambda>r. n_id r = i \<and> n_deleted r \<noteq> None) (notes_of d)"

datatype note_access = ByGet int | ByUpdate int string string | ByDelete int

fun reaches :: "env \<Rightarrow> note_access \<Rightarrow> int \<Rightarrow> db \<Rightarrow> bool" where
  "reaches e (ByGet uid) i d \<longleftrightarrow> is_ok (fst (Notes_Get e uid i d))"
| "reaches e (ByUpdate uid title body) i d \<longleftrightarrow> is_ok (fst (Notes_Update e uid i title body d))"
| "reaches e (ByDelete uid) i d \<longleftrightarrow> is_ok (fst (Notes_Delete e uid i d))"

lemma gone_find:
  assumes "note_gone i d"
  shows "List.find (visible uid i) (notes_of d) = None"
  using assms keyed_unique [of n_id "notes_of d"]
  by (fastforce simp: note_gone_def notes_keyed_def list_ex_iff find_None_conv visible_def)

lemma dead_row_stays:
  "r \<in> set rs \<Longrightarrow> n_deleted r \<noteq> None \<Longrightarrow> r \<in> set (upd_visible uid i f rs)"
  by (force simp: upd_visible_def visible_def image_iff)

lemma dead_row_step:
  "r \<in> set (notes_of d) \<Longrightarrow> n_deleted r \<noteq> None \<Longrightarrow> r \<in> set (notes_of (note_step e op d))"
  using note_rows_step [of e op d] by (elim disjE exE conjE) (simp_all add: dead_row_stays)

lemma note_gone_step: "note_gone i d \<Longrightarrow> note_gone i (note_step e op d)"
  unfolding note_gone_def list_ex_iff using notes_keyed_step dead_row_step by blast

lemma Notes_Update_missing:
  assumes "List.find (visible uid i) (notes_of d) = None"
  shows "\<not> is_ok (fst (Notes_Update e uid i title body d))"
proof -
  have "upd_visible uid i f (notes_of d) = notes_of d" for f
    using assms by (auto simp: find_None_conv upd_visible_def intro: map_idI)
  with assms show ?thesis
    by (simp add: note_ops exec_def upd_note_text_def query_row_unfold sel_note_def Let_def
        split: outcome.splits)
qed

lemma note_gone_blocks: "note_gone i d \<Longrightarrow> \<not> reaches e a i d"
  by (cases a)
    (simp_all add: gone_find Notes_Update_missing Notes_Get_def Notes_Delete_def query_row_unfold
      sel_note_def)

interpretation deleted_notes: one_shot "note_step e" note_gone "\<lambda>_ _. False" "reaches e" for e
  by unfold_locales (simp_all add: note_gone_step note_gone_blocks)

section \<open>Pages\<close>

lemma asc_total: "total_preorder (\<lambda>a b. (f a :: 'k :: linorder) \<le> f b)"
  by (auto simp: total_preorder_def)

lemma desc_total: "total_preorder (\<lambda>a b. (f b :: 'k :: linorder) \<le> f a)"
  by (auto simp: total_preorder_def)

lemma lex_total:
  "total_preorder (\<lambda>a b. (f a :: 'k :: linorder) < f b \<or> (f a = f b \<and> (g b :: 'l :: linorder) \<le> g a))"
  unfolding total_preorder_def by (metis linorder_cases nle_le order.strict_trans order.trans)

lemma order_by_frags:
  "order_by e ''created_at ASC'' = (\<lambda>a b. n_created a \<le> n_created b)"
  "order_by e ''title ASC, id DESC'' = (\<lambda>a b. weight e (n_title a) < weight e (n_title b) \<or>
     (weight e (n_title a) = weight e (n_title b) \<and> n_id b \<le> n_id a))"
  "order_by e ''updated_at DESC'' = (\<lambda>a b. n_updated b \<le> n_updated a)"
  "order_by e ''id DESC'' = (\<lambda>a b. n_id b \<le> n_id a)"
  by (simp_all add: fun_eq_iff order_by_def)

lemma order_by_total: "total_preorder (order_by e (sanitizeSort s))"
  by (simp add: sanitizeSort_def order_by_frags asc_total lex_total desc_total)

lemma page_offset_exact:
  assumes "1 \<le> page" and "1 \<le> sz" and "page * sz \<le> max_i64"
  shows "page_offset page sz = (page - 1) * sz"
proof -
  have "page * 1 \<le> page * sz" using assms(1,2) by (intro mult_left_mono) simp_all
  then have "in_i64 (page - 1)"
    using assms(1,3) unfolding in_i64_def max_i64_def min_i64_def by linarith
  moreover have "(page - 1) * sz \<le> page * sz" using assms(2) by (intro mult_right_mono) simp_all
  moreover have "0 \<le> (page - 1) * sz" using assms(1,2) by simp
  ultimately show ?thesis
    using assms(3) by (simp add: page_offset_def i64_id in_i64_def min_i64_def)
qed

text \<open>The parameters of a listing that is fetched page by page, and the call for each page.\<close>

record listing =
  l_env :: env
  l_tabs :: tables
  l_user :: int
  l_query :: string
  l_sort :: string
  l_size :: nat
  l_pages :: nat
  l_tick :: "nat \<Rightarrow> nat"

definition listing_rows :: "listing \<Rightarrow> note_row list" where
  "listing_rows s = filter (listed (l_env s) (l_user s) (l_query s)) (note_rows (l_tabs s))"

definition listing_call :: "listing \<Rightarrow> nat \<Rightarrow> (dberr, note_row list \<times> int) result" where
  "listing_call s p =
     fst (Notes_ListFiltered (l_env s) (l_user s) (int p + 1) (int (l_size s)) (l_query s) (l_sort s)
       \<lparr>tick = l_tick s p, tabs = l_tabs s\<rparr>)"

definition listing_fetch :: "listing \<Rightarrow> nat \<Rightarrow> note_row list" where
  "listing_fetch s p = (case listing_call s p of Inr (rows, _) \<Rightarrow> rows | Inl _ \<Rightarrow> [])"

definition listing_ok :: "listing \<Rightarrow> bool" where
  "listing_ok s \<longleftrightarrow> sorts (l_env s) \<and> (\<forall>n. out (l_env s) n = Okay) \<and> notes_keyed (l_tabs s) \<and>
     l_sort s \<notin> {''oldest'', ''updated''} \<and> 1 \<le> l_size s \<and> l_size s \<le> 100 \<and>
     int (l_pages s) * int (l_size s) \<le> max_i64"

definition listing_le :: "listing \<Rightarrow> note_row \<Rightarrow> note_row \<Rightarrow> bool" where
  "listing_le s = order_by (l_env s) (sanitizeSort (l_sort s))"

lemma listing_call_eq:
  assumes "listing_ok s" and "p < l_pages s"
  shows "listing_call s p =
    Inr (page_of (l_size s) (p * l_size s)
          (arrange (l_env s) (Suc (l_tick s p)) (listing_le s) (listing_rows s)),
         int (length (listing_rows s)))"
proof -
  have "(int p + 1) * int (l_size s) \<le> int (l_pages s) * int (l_size s)"
    using assms(2) by (intro mult_right_mono) simp_all
  also have "\<dots> \<le> max_i64" using assms(1) by (simp add: listing_ok_def)
  finally have "page_offset (int p + 1) (int (l_size s)) = int (p * l_size s)"
    using assms(1) by (subst page_offset_exact) (simp_all add: listing_ok_def)
  then show ?thesis
    using assms(1)
    by (simp add: listing_call_def Notes_ListFiltered_def query_row_unfold query_def sel_count_def
        sel_page_def listing_ok_def listing_rows_def listing_le_def Let_def del: of_nat_mult)
qed

interpretation note_pages: pager listing_ok listing_fetch listing_rows listing_le l_size l_pages
proof
  fix s p
  assume ok: "listing_ok s" and p: "p < l_pages s"
  let ?arr = "arrange (l_env s) (Suc (l_tick s p)) (listing_le s) (listing_rows s)"
  have "mset ?arr = mset (listing_rows s) \<and> sorted_wrt (listing_le s) ?arr"
    using ok order_by_total unfolding listing_ok_def sorts_def listing_le_def by blast
  then show "\<exists>arr. mset arr = mset (listing_rows s) \<and> sorted_wrt (listing_le s) arr \<and>
      listing_fetch s p = page_of (l_size s) (p * l_size s) arr"
    using listing_call_eq [OF ok p] by (auto simp: listing_fetch_def)
next
  fix s x y
  assume ok: "listing_ok s" and xy: "x \<in> set (listing_rows s)" "y \<in> set (listing_rows s)"
    "listing_le s x y" "listing_le s y x"
  then have "n_id x = n_id y"
    by (auto simp: listing_le_def order_by_def sanitizeSort_def listing_ok_def split: if_splits)
  then show "x = y"
    using ok xy keyed_unique [of n_id "note_rows (l_tabs s)" x y]
    by (simp add: listing_ok_def notes_keyed_def listing_rows_def)
qed

section \<open>Properties\<close>

text \<open>
  C14. The notes repository implements the abstract shelf: along every history of creations,
  updates, deletions, reads and listings by any users, the title and body that each user sees
  under each id are those of the map that the same history builds, when the calls succeed and
  the server's ids are fresh.
\<close>

theorem notes_refine_shelf:
  assumes "\<And>n. out e n = Okay" and "ids_fresh e ops d"
  shows "shelf_of (tabs (fold (note_step e) ops d)) = shelf_run e ops d (shelf_of (tabs d))"
  using assms(2) by (induction ops arbitrary: d) (simp_all add: shelf_step_refines assms(1))

lemmas note_eval =
  note_ops exec_def query_row_unfold query_def note_stmts Let_def new_note_def edit_note_def
  bury_note_def visible_def upd_visible_def

theorem notes_refine_shelf_witness:
  "shelf_of (tabs (fold (note_step demo_env)
      [NoteCreate 7 ''a'' ''x'', NoteUpdate 7 1 ''b'' ''y'', NoteDelete 8 1] empty_db)) 7 1 =
    Some (''b'', ''y'')"
proof -
  let ?ops = "[NoteCreate 7 ''a'' ''x'', NoteUpdate 7 1 ''b'' ''y'', NoteDelete 8 1]"
  have "ids_fresh demo_env ?ops empty_db"
    by (simp add: note_eval)
  from notes_refine_shelf [of demo_env, OF _ this] show ?thesis
    by (simp add: shelf_of_def)
qed

text \<open>
  C17. Nobody touches another user's notes: whatever the other users do, the rows of a user stay
  exactly as they were, and a read by that user gets the same answer.
\<close>

theorem notes_isolated:
  assumes "list_all (\<lambda>op. op_user op \<noteq> v) ops"
  shows "filter (\<lambda>r. n_user r = v) (notes_of (fold (note_step e) ops d)) =
      filter (\<lambda>r. n_user r = v) (notes_of d) \<and>
    sel_note v i n (tabs (fold (note_step e) ops d)) = sel_note v i n (tabs d)"
  using history_isolates [OF assms, of e d]
    find_visible_own [of v i "notes_of (fold (note_step e) ops d)"] find_visible_own [of v i "notes_of d"]
  by (simp add: sel_note_def)

theorem notes_isolated_witness:
  "sel_note 7 1 0 (tabs (fold (note_step demo_env)
     [NoteUpdate 8 1 ''stolen'' ''z'', NoteDelete 8 1, NoteCreate 8 ''c'' ''z'']
     (note_step demo_env (NoteCreate 7 ''a'' ''x'') empty_db))) = Some (new_note 1 7 ''a'' ''x'' 100)"
proof -
  let ?ops = "[NoteUpdate 8 1 ''stolen'' ''z'', NoteDelete 8 1, NoteCreate 8 ''c'' ''z'']"
  have "list_all (\<lambda>op. op_user op \<noteq> 7) ?ops" by simp
  from conjunct2 [OF notes_isolated [OF this]] show ?thesis
    by (simp only:) (simp add: note_eval)
qed

text \<open>
  What is created can be read back: the id that \<open>Create\<close> returns leads \<open>Get\<close> to the very
  title and body that were stored, with equal creation and update times, whatever other users
  do in between.
\<close>

theorem create_get_roundtrip:
  assumes "Notes_Create e uid title body d = (Inr i, d1)"
    and "list_all (\<lambda>op. op_user op \<noteq> uid) ops"
    and "out e (tick (fold (note_step e) ops d1)) = Okay"
  shows "fst (Notes_Get e uid i (fold (note_step e) ops d1)) =
    Inr (new_note i uid title body (now e (tick d)))"
proof -
  from assms(1) have d1: "notes_of d1 = notes_of d @ [new_note i uid title body (now e (tick d))]"
    and i: "i \<notin> n_id ` set (notes_of d)"
    by (auto simp: Notes_Create_def exec_def ins_note_def Let_def split: outcome.splits if_splits)
  have "List.find (visible uid i) (notes_of d) = None"
    using i by (auto simp: find_None_conv visible_def)
  then have "List.find (visible uid i) (notes_of d1) = Some (new_note i uid title body (now e (tick d)))"
    by (simp add: d1 find_append visible_def new_note_def)
  then have "List.find (visible uid i) (notes_of (fold (note_step e) ops d1)) =
      Some (new_note i uid title body (now e (tick d)))"
    using history_isolates [OF assms(2), of e d1] find_visible_own by metis
  then show ?thesis
    using assms(3) by (simp add: Notes_Get_def query_row_unfold sel_note_def)
qed

theorem create_get_roundtrip_witness:
  "fst (Notes_Get demo_env 7 1 (fold (note_step demo_env) [NoteDelete 8 1]
     (snd (Notes_Create demo_env 7 ''a'' ''x'' empty_db)))) = Inr (new_note 1 7 ''a'' ''x'' 100)"
proof -
  have "Notes_Create demo_env 7 ''a'' ''x'' empty_db =
      (Inr 1, snd (Notes_Create demo_env 7 ''a'' ''x'' empty_db))"
    by (simp add: note_eval)
  from create_get_roundtrip [OF this, of "[NoteDelete 8 1]"] show ?thesis by simp
qed

text \<open>
  C37. A deleted note is gone for good: after a successful \<open>Delete\<close>, no later \<open>Get\<close>,
  \<open>Update\<close> or \<open>Delete\<close> of that id succeeds, by anybody, in any history of calls however
  they fail.
\<close>

theorem deleted_note_stays_gone:
  assumes "Notes_Delete e uid i d = (Inr r, d1)" and "notes_keyed (tabs d)"
  shows "\<not> reaches e a i (fold (note_step e) ops d1)"
proof -
  from assms(1) obtain tm where find: "List.find (visible uid i) (notes_of d) = Some r"
    and rows: "notes_of d1 = upd_visible uid i (bury_note tm) (notes_of d)"
    by (auto simp: Notes_Delete_def Notes_Get_def query_row_unfold sel_note_def exec_def
        upd_note_deleted_def Let_def split: option.splits outcome.splits if_splits)
  have "note_gone i d1"
    unfolding note_gone_def
  proof
    show "notes_keyed (tabs d1)"
      using assms(2) by (simp add: notes_keyed_def rows keyed_upd_visible)
    show "list_ex (\<lambda>r. n_id r = i \<and> n_deleted r \<noteq> None) (notes_of d1)"
    proof -
      from find_SomeD [OF find] have r: "r \<in> set (notes_of d)" "visible uid i r" by simp_all
      then have "bury_note tm r \<in> set (notes_of d1)"
        by (auto simp: rows upd_visible_def image_iff intro!: bexI [of _ r])
      then show ?thesis
        using r(2) by (auto simp: list_ex_iff visible_def intro!: bexI [of _ "bury_note tm r"])
    qed
  qed
  then show ?thesis
    by (rule deleted_notes.never_taken_again) (simp add: list_all_iff)
qed

theorem deleted_note_stays_gone_witness:
  "\<not> reaches demo_env (ByUpdate 7 ''b'' ''y'') 1 (fold (note_step demo_env) [NoteCreate 7 ''c'' ''z'']
     (snd (Notes_Delete demo_env 7 1 (snd (Notes_Create demo_env 7 ''a'' ''x'' empty_db)))))"
proof -
  let ?d = "snd (Notes_Create demo_env 7 ''a'' ''x'' empty_db)"
  have del: "Notes_Delete demo_env 7 1 ?d =
      (Inr (new_note 1 7 ''a'' ''x'' 100), snd (Notes_Delete demo_env 7 1 ?d))"
    by (simp add: note_eval)
  have "notes_keyed (tabs ?d)"
    by (simp add: note_eval notes_keyed_def keyed_def)
  with del show ?thesis by (rule deleted_note_stays_gone)
qed

text \<open>
  C36. Pages partition the list: with an order that leaves no ties (the default and \<open>title\<close>, not
  \<open>oldest\<close> and \<open>updated\<close>) and while the database answers,
  the pages 1 to k of size s, fetched by separate calls at arbitrary times of one state, hold
  every matching note exactly once, in order, and every call reports the same total.
\<close>

theorem note_pages_partition:
  assumes "listing_ok s" and "0 < l_pages s" and "length (listing_rows s) \<le> l_pages s * l_size s"
  shows "mset (concat (map (listing_fetch s) [0..<l_pages s])) = mset (listing_rows s) \<and>
    sorted_wrt (listing_le s) (concat (map (listing_fetch s) [0..<l_pages s])) \<and>
    (\<forall>p<l_pages s. listing_call s p = Inr (listing_fetch s p, int (length (listing_rows s))))"
  using note_pages.pages_fit [OF assms] listing_call_eq [OF assms(1)]
  by (simp add: listing_fetch_def)

definition demo_notes :: tables where
  "demo_notes = empty_tables\<lparr>note_rows :=
     [new_note 1 7 ''a'' ''x'' 50, new_note 2 7 ''b'' ''y'' 50, new_note 3 8 ''c'' ''z'' 50,
      new_note 4 7 ''d'' ''z'' 50]\<rparr>"

definition demo_listing :: listing where
  "demo_listing = \<lparr>l_env = demo_env, l_tabs = demo_notes, l_user = 7, l_query = [], l_sort = [],
     l_size = 2, l_pages = 2, l_tick = (\<lambda>p. 10 * p)\<rparr>"

theorem note_pages_partition_witness:
  "mset (concat (map (listing_fetch demo_listing) [0..<2])) = mset (listing_rows demo_listing)"
proof -
  have "listing_ok demo_listing"
    by (simp add: listing_ok_def demo_listing_def demo_notes_def notes_keyed_def keyed_def
        new_note_def max_i64_def)
  moreover have "length (listing_rows demo_listing) \<le> l_pages demo_listing * l_size demo_listing"
    by (simp add: listing_rows_def demo_listing_def demo_notes_def listed_def new_note_def)
  moreover have "0 < l_pages demo_listing" by (simp add: demo_listing_def)
  ultimately have "mset (concat (map (listing_fetch demo_listing) [0..<l_pages demo_listing])) =
      mset (listing_rows demo_listing)"
    using note_pages_partition by blast
  then show ?thesis by (simp add: demo_listing_def)
qed

text \<open>
  The offset of a page wraps around: \<open>page\<close> is any 64-bit number, and for the largest one
  \<open>(page-1)*size\<close> is negative for every even size (the default 20 is one), so the listing fails with a database
  error whenever its calls are answered.
\<close>

theorem huge_page_fails:
  assumes "2 \<le> sz" and "sz \<le> 100" and "even sz"
  shows "page_offset max_i64 sz = - 2 * sz \<and>
    fst (Notes_ListFiltered e uid max_i64 sz q sortkey d) = Inl Fault"
proof -
  have "page_offset max_i64 sz = i64 (9223372036854775806 * sz)"
    by (simp add: page_offset_def i64_id in_i64_def max_i64_def min_i64_def)
  also have "\<dots> = i64 (- 2 * sz)"
    using assms(3) by (intro i64_cong) (auto elim!: evenE)
  also have "\<dots> = - 2 * sz"
    using assms by (intro i64_id) (simp add: in_i64_def max_i64_def min_i64_def)
  finally have off: "page_offset max_i64 sz = - 2 * sz" .
  then show ?thesis
    using assms
    by (auto simp: Notes_ListFiltered_def query_row_unfold query_def sel_page_def sel_count_def
        Let_def max_i64_def)
qed

theorem huge_page_fails_witness:
  "fst (Notes_ListFiltered demo_env 7 max_i64 20 [] [] empty_db) = Inl Fault"
  using conjunct2 [OF huge_page_fails [of 20 demo_env 7 "[]" "[]" empty_db]] by simp

text \<open>
  The orders \<open>oldest\<close> and \<open>updated\<close> leave notes of the same second tied, so a server that
  sorts correctly may show one note on two pages and another on none.
\<close>

theorem tied_pages_overlap:
  "\<exists>e. sorts e \<and> (\<forall>n. out e n = Okay) \<and>
     fst (Notes_ListFiltered e 8 1 1 [] ''oldest'' \<lparr>tick = 0, tabs = demo_notes\<lparr>note_rows :=
       [new_note 1 8 ''a'' ''x'' 50, new_note 2 8 ''b'' ''y'' 50]\<rparr>\<rparr>) =
       Inr ([new_note 1 8 ''a'' ''x'' 50], 2) \<and>
     fst (Notes_ListFiltered e 8 2 1 [] ''oldest'' \<lparr>tick = 2, tabs = demo_notes\<lparr>note_rows :=
       [new_note 1 8 ''a'' ''x'' 50, new_note 2 8 ''b'' ''y'' 50]\<rparr>\<rparr>) =
       Inr ([new_note 1 8 ''a'' ''x'' 50], 2)"
proof (intro exI conjI)
  let ?e = "demo_env\<lparr>arrange := (\<lambda>n le xs. if n = 1 then sort_by le xs else sort_by le (rev xs))\<rparr>"
  show "sorts ?e"
    by (simp add: sorts_def sorted_sort_by)
  show "\<forall>n. out ?e n = Okay" by simp
  show "fst (Notes_ListFiltered ?e 8 1 1 [] ''oldest'' \<lparr>tick = 0, tabs = demo_notes\<lparr>note_rows :=
       [new_note 1 8 ''a'' ''x'' 50, new_note 2 8 ''b'' ''y'' 50]\<rparr>\<rparr>) =
       Inr ([new_note 1 8 ''a'' ''x'' 50], 2)"
    by (simp add: note_eval listed_def page_offset_def i64_id in_i64_def min_i64_def max_i64_def
        sanitizeSort_def order_by_frags sort_by_def page_of_def)
  show "fst (Notes_ListFiltered ?e 8 2 1 [] ''oldest'' \<lparr>tick = 2, tabs = demo_notes\<lparr>note_rows :=
       [new_note 1 8 ''a'' ''x'' 50, new_note 2 8 ''b'' ''y'' 50]\<rparr>\<rparr>) =
       Inr ([new_note 1 8 ''a'' ''x'' 50], 2)"
    by (simp add: note_eval listed_def page_offset_def i64_id in_i64_def min_i64_def max_i64_def
        sanitizeSort_def order_by_frags sort_by_def page_of_def)
qed

text \<open>
  Note ids stay distinct: no history of calls, however they fail, stores two notes under one
  id.
\<close>

theorem note_ids_distinct:
  assumes "notes_keyed (tabs d)"
  shows "notes_keyed (tabs (fold (note_step e) ops d))"
  using assms by (rule notes_keyed_history)

theorem note_ids_distinct_witness:
  "notes_keyed (tabs (fold (note_step demo_env) [NoteCreate 7 ''a'' ''x'', NoteDelete 7 1] empty_db))"
  by (rule note_ids_distinct) (simp add: notes_keyed_def)

end
