(* ===== verification/Go_Json.thy ===== *)
theory Go_Json
  imports Go_Numbers
begin

text \<open>
  The part of Go's \<open>unicode/utf8\<close> and \<open>encoding/json\<close> that the handlers use: UTF-8
  decoding, the encoder with HTML escaping, the decoder of the first value of a stream, and
  the assignment of an object to the fields of a struct.
\<close>

section \<open>UTF-8\<close>

abbreviation byte :: "char \<Rightarrow> nat" where
  "byte c \<equiv> of_char c"

definition cont_byte :: "nat \<Rightarrow> bool" where
  "cont_byte b \<longleftrightarrow> 0x80 \<le> b \<and> b \<le> 0xBF"

text \<open>The range of the second byte after the lead byte \<open>b\<close> of a sequence of length 3 or 4.\<close>

definition second_ok :: "nat \<Rightarrow> nat \<Rightarrow> bool" where
  "second_ok b c \<longleftrightarrow>
     (if b = 0xE0 then 0xA0 \<le> c \<and> c \<le> 0xBF
      else if b = 0xED then 0x80 \<le> c \<and> c \<le> 0x9F
      else if b = 0xF0 then 0x90 \<le> c \<and> c \<le> 0xBF
      else if b = 0xF4 then 0x80 \<le> c \<and> c \<le> 0x8F
      else cont_byte c)"

text \<open>\<open>utf8.DecodeRune\<close>: an invalid sequence is \<open>RuneError\<close> (U+FFFD) of width 1.\<close>

definition decode_rune :: "string \<Rightarrow> nat \<times> nat" where
  "decode_rune s =
     (case map byte (take 4 s) of
        [] \<Rightarrow> (0xFFFD, 0)
      | b # bs \<Rightarrow>
          if b < 0x80 then (b, 1)
          else if 0xC2 \<le> b \<and> b \<le> 0xDF then
            (case bs of c # _ \<Rightarrow>
               if cont_byte c then ((b - 0xC0) * 64 + (c - 0x80), 2) else (0xFFFD, 1)
             | [] \<Rightarrow> (0xFFFD, 1))
          else if 0xE0 \<le> b \<and> b \<le> 0xEF then
            (case bs of c # c' # _ \<Rightarrow>
               if second_ok b c \<and> cont_byte c'
               then ((b - 0xE0) * 4096 + (c - 0x80) * 64 + (c' - 0x80), 3) else (0xFFFD, 1)
             | _ \<Rightarrow> (0xFFFD, 1))
          else if 0xF0 \<le> b \<and> b \<le> 0xF4 then
            (case bs of c # c' # c'' # _ \<Rightarrow>
               if second_ok b c \<and> cont_byte c' \<and> cont_byte c''
               then ((b - 0xF0) * 262144 + (c - 0x80) * 4096 + (c' - 0x80) * 64 + (c'' - 0x80), 4)
               else (0xFFFD, 1)
             | _ \<Rightarrow> (0xFFFD, 1))
          else (0xFFFD, 1))"

text \<open>\<open>utf8.AppendRune\<close>: surrogates and values above U+10FFFF become U+FFFD.\<close>

definition encode_rune :: "nat \<Rightarrow> string" where
  "encode_rune r0 =
     (let r = (if 0x10FFFF < r0 \<or> (0xD800 \<le> r0 \<and> r0 \<le> 0xDFFF) then 0xFFFD else r0)
      in if r < 0x80 then [char_of r]
         else if r < 0x800 then [char_of (0xC0 + r div 64), char_of (0x80 + r mod 64)]
         else if r < 0x10000 then
           [char_of (0xE0 + r div 4096), char_of (0x80 + r div 64 mod 64),
            char_of (0x80 + r mod 64)]
         else
           [char_of (0xF0 + r div 262144), char_of (0x80 + r div 4096 mod 64),
            char_of (0x80 + r div 64 mod 64), char_of (0x80 + r mod 64)])"

lemma decode_rune_width:
  "snd (decode_rune (c # s)) \<in> {1, 2, 3, 4}" "snd (decode_rune (c # s)) \<le> length (c # s)"
proof -
  show "snd (decode_rune (c # s)) \<in> {1, 2, 3, 4}"
    by (auto simp: decode_rune_def split: list.splits)
  show "snd (decode_rune (c # s)) \<le> length (c # s)"
    by (cases s rule: remdups_adj.cases; cases "tl (tl s)")
      (auto simp: decode_rune_def split: list.splits)
qed

lemma decode_rune_pos: "0 < snd (decode_rune (c # s))"
  using decode_rune_width(1) [of c s] by auto

lemma decode_rune_posD: "decode_rune (c # s) = (r, k) \<Longrightarrow> 0 < k"
  using decode_rune_pos [of c s] by simp

section \<open>Values and the encoder\<close>

text \<open>A number is kept as its literal, as the decoder does until it knows the target type.\<close>

datatype json =
    JNull
  | JBool bool
  | JNum string
  | JStr string
  | JArr "json list"
  | JObj "(string \<times> json) list"

abbreviation JInt :: "int \<Rightarrow> json" where
  "JInt i \<equiv> JNum (format_int i)"

definition esc_u :: "nat \<Rightarrow> string" where
  "esc_u r = [CHR 0x5C, CHR ''u'', hex_digit (r div 4096 mod 16), hex_digit (r div 256 mod 16),
     hex_digit (r div 16 mod 16), hex_digit (r mod 16)]"

definition esc_ascii :: "char \<Rightarrow> string" where
  "esc_ascii c =
     (if c = CHR 0x5C \<or> c = CHR 0x22 then [CHR 0x5C, c]
      else if c = CHR 0x08 then [CHR 0x5C, CHR ''b'']
      else if c = CHR 0x0C then [CHR 0x5C, CHR ''f'']
      else if c = CHR 0x0A then [CHR 0x5C, CHR ''n'']
      else if c = CHR 0x0D then [CHR 0x5C, CHR ''r'']
      else if c = CHR 0x09 then [CHR 0x5C, CHR ''t'']
      else if byte c < 0x20 \<or> c \<in> set ''<>&'' then esc_u (byte c)
      else [c])"

text \<open>\<open>appendString\<close> with HTML escaping, without the quotes.\<close>

function escape :: "string \<Rightarrow> string" where
  "escape [] = []"
| "escape (c # s) =
     (if byte c < 0x80 then esc_ascii c @ escape s
      else let (r, k) = decode_rune (c # s)
           in (if r = 0xFFFD \<and> k = 1 then esc_u 0xFFFD
               else if r = 0x2028 \<or> r = 0x2029 then esc_u r
               else take k (c # s)) @ escape (drop k (c # s)))"
  by pat_completeness auto
termination by (relation "measure length") (auto dest: decode_rune_posD dest!: sym [of "(_, _)"])

declare escape.simps(2) [simp del]

definition quote :: "string \<Rightarrow> string" where
  "quote s = CHR 0x22 # escape s @ [CHR 0x22]"

fun marshal :: "json \<Rightarrow> string"
  and marshal_elems :: "json list \<Rightarrow> string"
  and marshal_members :: "(string \<times> json) list \<Rightarrow> string" where
  "marshal JNull = ''null''"
| "marshal (JBool b) = (if b then ''true'' else ''false'')"
| "marshal (JNum l) = l"
| "marshal (JStr s) = quote s"
| "marshal (JArr xs) = ''['' @ marshal_elems xs @ '']''"
| "marshal (JObj ms) = ''{'' @ marshal_members ms @ ''}''"
| "marshal_elems [] = []"
| "marshal_elems [x] = marshal x"
| "marshal_elems (x # y # ys) = marshal x @ '','' @ marshal_elems (y # ys)"
| "marshal_members [] = []"
| "marshal_members [(k, v)] = quote k @ '':'' @ marshal v"
| "marshal_members ((k, v) # m # ms) = quote k @ '':'' @ marshal v @ '','' @ marshal_members (m # ms)"

text \<open>\<open>json.NewEncoder(w).Encode(v)\<close> writes the text and a newline.\<close>

definition encode_line :: "json \<Rightarrow> string" where
  "encode_line j = marshal j @ [CHR 0x0A]"

section \<open>The decoder\<close>

definition is_ws :: "char \<Rightarrow> bool" where
  "is_ws c \<longleftrightarrow> c \<in> {CHR 0x20, CHR 0x09, CHR 0x0A, CHR 0x0D}"

definition skip_ws :: "string \<Rightarrow> string" where
  "skip_ws s = dropWhile is_ws s"

text \<open>The rest after white space and the byte \<open>c\<close>.\<close>

definition expect :: "char \<Rightarrow> string \<Rightarrow> string option" where
  "expect c s = (case skip_ws s of x # r \<Rightarrow> if x = c then Some r else None | [] \<Rightarrow> None)"

lemma length_skip_ws: "length (skip_ws s) \<le> length s"
  by (simp add: skip_ws_def length_dropWhile_le)

lemma expect_shorter: "expect c s = Some r \<Longrightarrow> length r < length s"
  using length_skip_ws [of s] by (auto simp: expect_def split: list.splits if_splits)

definition hex_val :: "char \<Rightarrow> nat option" where
  "hex_val c =
     (if is_digit c then Some (byte c - 48)
      else if 97 \<le> byte c \<and> byte c \<le> 102 then Some (byte c - 87)
      else if 65 \<le> byte c \<and> byte c \<le> 70 then Some (byte c - 55)
      else None)"

text \<open>Four hex digits.\<close>

definition hex4 :: "string \<Rightarrow> nat option" where
  "hex4 s =
     (case map hex_val (take 4 s) of
        [Some a, Some b, Some c, Some d] \<Rightarrow> Some (a * 4096 + b * 256 + c * 16 + d)
      | _ \<Rightarrow> None)"

text \<open>A low surrogate escaped right after a high one combines with it.\<close>

definition surrogate_pair :: "nat \<Rightarrow> string \<Rightarrow> nat option" where
  "surrogate_pair r s =
     (if 0xD800 \<le> r \<and> r < 0xDC00 \<and> take 2 s = [CHR 0x5C, CHR ''u'']
      then (case hex4 (drop 2 s) of
              Some r2 \<Rightarrow> if 0xDC00 \<le> r2 \<and> r2 < 0xE000
                then Some ((r - 0xD800) * 1024 + (r2 - 0xDC00) + 0x10000) else None
            | None \<Rightarrow> None)
      else None)"

definition simple_escape :: "char \<Rightarrow> char option" where
  "simple_escape c =
     map_of [(CHR 0x22, CHR 0x22), (CHR 0x5C, CHR 0x5C), (CHR ''/'', CHR ''/''),
       (CHR ''b'', CHR 0x08), (CHR ''f'', CHR 0x0C), (CHR ''n'', CHR 0x0A),
       (CHR ''r'', CHR 0x0D), (CHR ''t'', CHR 0x09)] c"

text \<open>The body of a string literal after its opening quote: its value and the rest.\<close>

function str_body :: "string \<Rightarrow> (string \<times> string) option" where
  "str_body [] = None"
| "str_body (c # s) =
     (if c = CHR 0x22 then Some ([], s)
      else if c = CHR 0x5C then
        (case s of [] \<Rightarrow> None
         | x # r \<Rightarrow>
            if x = CHR ''u'' then
              (case hex4 r of None \<Rightarrow> None
               | Some u \<Rightarrow>
                  (case surrogate_pair u (drop 4 r) of
                     Some p \<Rightarrow> map_option (apfst ((@) (encode_rune p))) (str_body (drop 10 r))
                   | None \<Rightarrow> map_option (apfst ((@) (encode_rune u))) (str_body (drop 4 r))))
            else (case simple_escape x of None \<Rightarrow> None
                  | Some y \<Rightarrow> map_option (apfst ((#) y)) (str_body r)))
      else if byte c < 0x20 then None
      else if byte c < 0x80 then map_option (apfst ((#) c)) (str_body s)
      else (case decode_rune (c # s) of
              (u, k) \<Rightarrow> map_option (apfst ((@) (encode_rune u))) (str_body (drop k (c # s)))))"
  by pat_completeness auto
termination by (relation "measure length") (auto dest: decode_rune_posD dest!: sym [of "(_, _)"])

declare str_body.simps(2) [simp del]

text \<open>A number literal: sign, integer part, fraction, exponent.\<close>

definition digits :: "string \<Rightarrow> string \<times> string" where
  "digits s = (takeWhile is_digit s, dropWhile is_digit s)"

definition sign_part :: "string \<Rightarrow> string \<times> string" where
  "sign_part s = (if take 1 s = ''-'' then (''-'', drop 1 s) else ([], s))"

definition int_part :: "string \<Rightarrow> (string \<times> string) option" where
  "int_part s =
     (if take 1 s = ''0'' then Some (''0'', drop 1 s)
      else if fst (digits s) = [] then None else Some (digits s))"

definition frac_part :: "string \<Rightarrow> (string \<times> string) option" where
  "frac_part s =
     (if take 1 s \<noteq> ''.'' then Some ([], s)
      else case digits (drop 1 s) of (ds, r) \<Rightarrow> if ds = [] then None else Some (''.'' @ ds, r))"

definition exp_part :: "string \<Rightarrow> (string \<times> string) option" where
  "exp_part s =
     (if take 1 s \<noteq> ''e'' \<and> take 1 s \<noteq> ''E'' then Some ([], s)
      else
        let t = drop 1 s; k = (if take 1 t = ''+'' \<or> take 1 t = ''-'' then 1 else 0)
        in case digits (drop k t) of
             (ds, r) \<Rightarrow> if ds = [] then None else Some (take 1 s @ take k t @ ds, r))"

definition num_literal :: "string \<Rightarrow> (string \<times> string) option" where
  "num_literal s =
     (case sign_part s of (sg, s1) \<Rightarrow>
     (case int_part s1 of None \<Rightarrow> None
      | Some (ip, s2) \<Rightarrow>
     (case frac_part s2 of None \<Rightarrow> None
      | Some (fp, s3) \<Rightarrow>
     (case exp_part s3 of None \<Rightarrow> None
      | Some (ep, s4) \<Rightarrow> Some (sg @ ip @ fp @ ep, s4)))))"

text \<open>
  One value in front of a text; \<open>d\<close> is how many more arrays and objects may open (the
  scanner's nesting limit), the first argument is fuel.
\<close>

fun parse_value :: "nat \<Rightarrow> nat \<Rightarrow> string \<Rightarrow> (json \<times> string) option"
  and parse_elems :: "nat \<Rightarrow> nat \<Rightarrow> string \<Rightarrow> (json list \<times> string) option"
  and parse_members :: "nat \<Rightarrow> nat \<Rightarrow> string \<Rightarrow> ((string \<times> json) list \<times> string) option" where
  "parse_value 0 d s = None"
| "parse_value (Suc k) d s =
     (case skip_ws s of [] \<Rightarrow> None
      | c # r \<Rightarrow>
         if c = CHR 0x22 then map_option (apfst JStr) (str_body r)
         else if c = CHR 0x7B then
           (if d = 0 then None
            else case expect CHR 0x7D r of
                   Some r1 \<Rightarrow> Some (JObj [], r1)
                 | None \<Rightarrow> map_option (apfst JObj) (parse_members k (d - 1) r))
         else if c = CHR 0x5B then
           (if d = 0 then None
            else case expect CHR 0x5D r of
                   Some r1 \<Rightarrow> Some (JArr [], r1)
                 | None \<Rightarrow> map_option (apfst JArr) (parse_elems k (d - 1) r))
         else if has_prefix (c # r) ''true'' then Some (JBool True, drop 3 r)
         else if has_prefix (c # r) ''false'' then Some (JBool False, drop 4 r)
         else if has_prefix (c # r) ''null'' then Some (JNull, drop 3 r)
         else map_option (apfst JNum) (num_literal (c # r)))"
| "parse_elems 0 d s = None"
| "parse_elems (Suc k) d s =
     (case parse_value k d s of None \<Rightarrow> None
      | Some (v, r1) \<Rightarrow>
         (case expect CHR '','' r1 of
            Some r2 \<Rightarrow> map_option (apfst ((#) v)) (parse_elems k d r2)
          | None \<Rightarrow> map_option (Pair [v]) (expect CHR 0x5D r1)))"
| "parse_members 0 d s = None"
| "parse_members (Suc k) d s =
     (case expect CHR 0x22 s of None \<Rightarrow> None
      | Some r1 \<Rightarrow>
     (case str_body r1 of None \<Rightarrow> None
      | Some (key, r2) \<Rightarrow>
     (case expect CHR '':'' r2 of None \<Rightarrow> None
      | Some r3 \<Rightarrow>
     (case parse_value k d r3 of None \<Rightarrow> None
      | Some (v, r4) \<Rightarrow>
         (case expect CHR '','' r4 of
            Some r5 \<Rightarrow> map_option (apfst ((#) (key, v))) (parse_members k d r5)
          | None \<Rightarrow> map_option (Pair [(key, v)]) (expect CHR 0x7D r4))))))"

definition max_depth :: nat where
  "max_depth = 10000"

definition json_fuel :: "string \<Rightarrow> nat" where
  "json_fuel s = 2 * length s + 1"

text \<open>
  \<open>json.NewDecoder(body).Decode\<close>, up to the point where the value is known: the first value
  of the stream, whatever follows it. When the reader fails before the end of the data
  (\<open>broken\<close>), a value that only ends where its next byte is read is lost.
\<close>

definition decode_value :: "bool \<Rightarrow> string \<Rightarrow> json option" where
  "decode_value broken s =
     (case parse_value (json_fuel s) max_depth s of
        None \<Rightarrow> None
      | Some (v, r) \<Rightarrow>
          if broken \<and> r = [] \<and> \<not> (case v of JArr _ \<Rightarrow> True | JObj _ \<Rightarrow> True | _ \<Rightarrow> False)
          then None else Some v)"

text \<open>
  Every value consumes text, so the fuel \<open>json_fuel\<close> is enough: more of it never changes
  the result.
\<close>

lemma str_body_shrinks: "str_body s = Some (t, r) \<Longrightarrow> length r < length s"
proof (induction s arbitrary: t r rule: length_induct)
  case (1 s)
  show ?case
  proof (cases s)
    case (Cons c s')
    obtain u k where dr: "decode_rune (c # s') = (u, k)" by (cases "decode_rune (c # s')")
    then have "0 < k" by (rule decode_rune_posD)
    have IH: "length r' < length s''" if "str_body s'' = Some (t', r')" "length s'' < length s" for s'' t' r'
      using 1(1) that by blast
    show ?thesis
      using 1(2) \<open>0 < k\<close>
      by (auto simp: Cons str_body.simps(2) dr split: if_splits list.splits option.splits
          dest!: IH [unfolded Cons] simp flip: drop_Suc)
  qed (use 1 in simp)
qed

lemma digits_length: "digits s = (ds, r) \<Longrightarrow> length r + length ds = length s"
  unfolding digits_def by (metis add.commute length_append prod.inject takeWhile_dropWhile_id)

lemma sign_part_length: "sign_part s = (t, r) \<Longrightarrow> length r \<le> length s"
  by (auto simp: sign_part_def split: if_splits)

lemma int_part_shrinks: "int_part s = Some (t, r) \<Longrightarrow> length r < length s"
  using digits_length [of s "fst (digits s)" "snd (digits s)"]
  by (cases s; cases "fst (digits s)") (auto simp: int_part_def split: if_splits)

lemma frac_part_length: "frac_part s = Some (t, r) \<Longrightarrow> length r \<le> length s"
  using digits_length [of "drop 1 s" "fst (digits (drop 1 s))" "snd (digits (drop 1 s))"]
  by (auto simp: frac_part_def split: if_splits prod.splits)

lemma exp_part_length: "exp_part s = Some (t, r) \<Longrightarrow> length r \<le> length s"
  by (auto simp: exp_part_def Let_def split: if_splits prod.splits dest!: digits_length)

lemma num_literal_shrinks: "num_literal s = Some (t, r) \<Longrightarrow> length r < length s"
  by (force simp: num_literal_def split: prod.splits option.splits
    dest!: sign_part_length int_part_shrinks frac_part_length exp_part_length)

lemma skip_ws_shrinks: "skip_ws s = c # r \<Longrightarrow> length r < length s"
  using length_skip_ws [of s] by simp

lemma parse_shrinks:
  "parse_value k d s = Some (v, r) \<Longrightarrow> length r < length s"
  "parse_elems k d s = Some (vs, r) \<Longrightarrow> length r < length s"
  "parse_members k d s = Some (ms, r) \<Longrightarrow> length r < length s"
proof (induction k arbitrary: d s v r vs ms)
  case 0
  {
    case 1 then show ?case by simp
  next
    case 2 then show ?case by simp
  next
    case 3 then show ?case by simp
  }
next
  case (Suc k)
  {
    case 1
    then show ?case
      by (fastforce split: list.splits if_splits option.splits
          dest!: skip_ws_shrinks str_body_shrinks expect_shorter num_literal_shrinks Suc.IH)
  next
    case 2
    then show ?case
      by (auto split: list.splits if_splits option.splits prod.splits
          dest!: expect_shorter Suc.IH)
  next
    case 3
    then show ?case
      by (auto split: list.splits if_splits option.splits prod.splits
          dest!: expect_shorter str_body_shrinks Suc.IH)
  }
qed

lemma parse_fuel:
  "2 * length s + 1 \<le> k \<Longrightarrow> k \<le> k' \<Longrightarrow> parse_value k' d s = parse_value k d s"
  "2 * length s + 2 \<le> k \<Longrightarrow> k \<le> k' \<Longrightarrow> parse_elems k' d s = parse_elems k d s"
  "2 * length s + 2 \<le> k \<Longrightarrow> k \<le> k' \<Longrightarrow> parse_members k' d s = parse_members k d s"
proof (induction k arbitrary: k' d s)
  case 0
  {
    case 1 then show ?case by simp
  next
    case 2 then show ?case by simp
  next
    case 3 then show ?case by simp
  }
next
  case (Suc k)
  {
    case 1
    then obtain j where j: "k' = Suc j" "k \<le> j" by (cases k') auto
    have "parse_elems j (d - 1) r = parse_elems k (d - 1) r"
      "parse_members j (d - 1) r = parse_members k (d - 1) r" if "skip_ws s = c # r" for c r
      using skip_ws_shrinks [OF that] 1 j by (auto intro!: Suc.IH)
    then show ?case by (auto simp: j(1) split: list.splits option.splits)
  next
    case 2
    then obtain j where j: "k' = Suc j" "k \<le> j" by (cases k') auto
    have v: "parse_value j d s = parse_value k d s" using 2 j by (auto intro!: Suc.IH)
    have "parse_elems j d r2 = parse_elems k d r2"
      if "parse_value k d s = Some (v, r1)" "expect CHR '','' r1 = Some r2" for v r1 r2
      using parse_shrinks(1) [OF that(1)] expect_shorter [OF that(2)] 2 j by (auto intro!: Suc.IH)
    then show ?case by (auto simp: j(1) v split: option.splits)
  next
    case 3
    then obtain j where j: "k' = Suc j" "k \<le> j" by (cases k') auto
    have v: "parse_value j d r3 = parse_value k d r3"
      if "expect CHR 0x22 s = Some r1" "str_body r1 = Some (key, r2)" "expect CHR '':'' r2 = Some r3" for key r1 r2 r3
      using expect_shorter [OF that(1)] str_body_shrinks [OF that(2)] expect_shorter [OF that(3)] 3 j by (auto intro!: Suc.IH)
    have "parse_members j d r5 = parse_members k d r5"
      if "expect CHR 0x22 s = Some r1" "str_body r1 = Some (key, r2)" "expect CHR '':'' r2 = Some r3"
       "parse_value k d r3 = Some (v, r4)" "expect CHR '','' r4 = Some r5" for key v r1 r2 r3 r4 r5
      using expect_shorter [OF that(1)] str_body_shrinks [OF that(2)] expect_shorter [OF that(3)] 
        parse_shrinks(1) [OF that(4)] expect_shorter [OF that(5)] 3 j by (auto intro!: Suc.IH)
    with v show ?case by (auto simp: j(1) split: option.splits)
  }
qed

lemma decode_value_fuel:
  "json_fuel s \<le> k \<Longrightarrow> parse_value k d s = parse_value (json_fuel s) d s"
  by (rule parse_fuel) (simp_all add: json_fuel_def)

section \<open>Decoding into a struct\<close>

text \<open>
  \<open>foldName\<close>, as far as ASCII field names can tell: ASCII letters go to upper case, and the
  two other code points in the case orbits of ASCII letters, U+017F and U+212A, to S and K.
\<close>

function fold_name :: "string \<Rightarrow> string" where
  "fold_name [] = []"
| "fold_name (c # s) =
     (if take 2 (c # s) = [CHR 0xC5, CHR 0xBF] then CHR ''S'' # fold_name (drop 1 s)
      else if take 3 (c # s) = [CHR 0xE2, CHR 0x84, CHR 0xAA] then CHR ''K'' # fold_name (drop 2 s)
      else (if 97 \<le> byte c \<and> byte c \<le> 122 then char_of (byte c - 32) else c) # fold_name s)"
  by pat_completeness auto
termination by (relation "measure length") auto

text \<open>The field a key of the object goes to: an exact match first, then a folded one.\<close>

definition field_for :: "string list \<Rightarrow> string \<Rightarrow> string option" where
  "field_for names k =
     (if k \<in> set names then Some k else List.find (\<lambda>f. fold_name f = fold_name k) names)"

text \<open>
  The values that \<open>Decode\<close> assigns to the field \<open>f\<close> of a struct with the fields \<open>names\<close>, in
  the order of the object. \<open>null\<close> at the top leaves every field alone.
\<close>

definition field_values :: "string list \<Rightarrow> string \<Rightarrow> json \<Rightarrow> json list" where
  "field_values names f j =
     (case j of JObj ms \<Rightarrow> map snd (filter (\<lambda>(k, v). field_for names k = Some f) ms) | _ \<Rightarrow> [])"

text \<open>A string field: the last string wins, \<open>null\<close> changes nothing, anything else is an error.\<close>

definition assigned_string :: "json list \<Rightarrow> string" where
  "assigned_string vs = fold (\<lambda>v acc. case v of JStr s \<Rightarrow> s | _ \<Rightarrow> acc) vs []"

definition string_field :: "json list \<Rightarrow> string option" where
  "string_field vs =
     (if list_all (\<lambda>v. case v of JStr _ \<Rightarrow> True | JNull \<Rightarrow> True | _ \<Rightarrow> False) vs
      then Some (assigned_string vs) else None)"

text \<open>An \<open>int\<close> field: a literal that \<open>ParseInt\<close> accepts.\<close>

definition int_field :: "json list \<Rightarrow> int option" where
  "int_field vs =
     (if list_all (\<lambda>v. case v of JNum l \<Rightarrow> snd (parse_int l) = None | JNull \<Rightarrow> True | _ \<Rightarrow> False) vs
      then Some (fold (\<lambda>v acc. case v of JNum l \<Rightarrow> fst (parse_int l) | _ \<Rightarrow> acc) vs 0)
      else None)"

definition struct_value :: "json \<Rightarrow> bool" where
  "struct_value j \<longleftrightarrow> (case j of JObj _ \<Rightarrow> True | JNull \<Rightarrow> True | _ \<Rightarrow> False)"

text \<open>\<open>Decode(&in)\<close> for a struct of two string fields, \<open>None\<close> when it returns an error.\<close>

definition decode_two :: "string \<Rightarrow> string \<Rightarrow> bool \<Rightarrow> string \<Rightarrow> (string \<times> string) option" where
  "decode_two f g broken s =
     (case decode_value broken s of None \<Rightarrow> None
      | Some j \<Rightarrow>
          if \<not> struct_value j then None
          else (case (string_field (field_values [f, g] f j), string_field (field_values [f, g] g j)) of
                  (Some a, Some b) \<Rightarrow> Some (a, b)
                | _ \<Rightarrow> None))"

text \<open>The same for one string field, with the value assigned even when there is an error.\<close>

definition decode_one :: "string \<Rightarrow> bool \<Rightarrow> string \<Rightarrow> string option" where
  "decode_one f broken s =
     (case decode_value broken s of None \<Rightarrow> None
      | Some j \<Rightarrow> if \<not> struct_value j then None else string_field (field_values [f] f j))"

definition decode_one_loose :: "string \<Rightarrow> bool \<Rightarrow> string \<Rightarrow> string" where
  "decode_one_loose f broken s =
     (case decode_value broken s of None \<Rightarrow> []
      | Some j \<Rightarrow> assigned_string (field_values [f] f j))"

text \<open>\<open>utf8.RuneCountInString\<close>.\<close>

function rune_count :: "string \<Rightarrow> nat" where
  "rune_count [] = 0"
| "rune_count (c # s) =
     (case decode_rune (c # s) of (u, k) \<Rightarrow> Suc (rune_count (drop k (c # s))))"
  by pat_completeness auto
termination by (relation "measure length") (auto dest: decode_rune_posD dest!: sym [of "(_, _)"])

declare rune_count.simps(2) [simp del]

lemma rune_count_le: "rune_count s \<le> length s"
proof (induction s rule: rune_count.induct)
  case (2 c s)
  obtain u k where dr: "decode_rune (c # s) = (u, k)" by (cases "decode_rune (c # s)")
  then have "0 < k" by (rule decode_rune_posD)
  with 2 dr have "rune_count (drop k (c # s)) \<le> length (c # s) - k" by simp
  with \<open>0 < k\<close> show ?case by (simp add: rune_count.simps(2) dr)
qed simp

lemma rune_count_ascii: "list_all (\<lambda>c. byte c < 0x80) s \<Longrightarrow> rune_count s = length s"
proof (induction s)
  case (Cons c s)
  then have "decode_rune (c # s) = (byte c, 1)" by (simp add: decode_rune_def)
  with Cons show ?case by (simp add: rune_count.simps(2))
qed simp

end
