(* ===== verification/Go_Crypto.thy ===== *)
theory Go_Crypto
  imports Go_Numbers
begin

text \<open>
  Go's \<open>crypto/sha256\<close> as FIPS 180-4 defines it, on byte lists, and the bridge between
  byte strings and byte lists. The entity tags and the body hashes of the notes handlers
  are computed with it.
\<close>

text \<open>
  The constants, as the standard derives them: the first 32 bits of the fractional parts of the
  cube roots of the first 64 primes and of the square roots of the first eight. \<open>whole\_root\<close>
  finds the largest number of 40 bits whose power does not exceed its argument.
\<close>

definition whole_root :: "nat \<Rightarrow> nat \<Rightarrow> nat" where
  "whole_root k n = foldr (\<lambda>b r. if (r + 2 ^ b) ^ k \<le> n then r + 2 ^ b else r) [0..<40] 0"

definition root_bits :: "nat \<Rightarrow> nat \<Rightarrow> 32 word" where
  "root_bits k p = of_nat (whole_root k (p * 2 ^ (32 * k)))"

definition first_primes :: "nat \<Rightarrow> nat list" where
  "first_primes m = take m (filter (\<lambda>p. list_all (\<lambda>q. \<not> q dvd p) [2..<p]) [2..<320])"

lemma eight_primes: "length (first_primes 8) = 8"
proof -
  have "filter (\<lambda>p. list_all (\<lambda>q. \<not> q dvd p) [2..<p]) [2..<20] = [2, 3, 5, 7, 11, 13, 17, 19 :: nat]"
    by code_simp
  moreover have "[2..<320] = [2..<20] @ [20..<320 :: nat]"
    using upt_add_eq_append [of 2 20 300] by (simp del: upt_rec_numeral)
  ultimately show ?thesis by (simp add: first_primes_def del: upt_rec_numeral)
qed

definition round_constants :: "32 word list" where
  "round_constants = map (root_bits 3) (first_primes 64)"

definition initial_hash :: "32 word list" where
  "initial_hash = map (root_bits 2) (first_primes 8)"

definition Ch :: "32 word \<Rightarrow> 32 word \<Rightarrow> 32 word \<Rightarrow> 32 word" where
  "Ch x y z = (x AND y) XOR (NOT x AND z)"

definition Maj :: "32 word \<Rightarrow> 32 word \<Rightarrow> 32 word \<Rightarrow> 32 word" where
  "Maj x y z = (x AND y) XOR (x AND z) XOR (y AND z)"

definition rotr :: "nat \<Rightarrow> 32 word \<Rightarrow> 32 word" where
  "rotr n x = drop_bit n x OR push_bit (32 - n) x"

definition Sum0 :: "32 word \<Rightarrow> 32 word" where
  "Sum0 x = rotr 2 x XOR rotr 13 x XOR rotr 22 x"

definition Sum1 :: "32 word \<Rightarrow> 32 word" where
  "Sum1 x = rotr 6 x XOR rotr 11 x XOR rotr 25 x"

definition sig0 :: "32 word \<Rightarrow> 32 word" where
  "sig0 x = rotr 7 x XOR rotr 18 x XOR drop_bit 3 x"

definition sig1 :: "32 word \<Rightarrow> 32 word" where
  "sig1 x = rotr 17 x XOR rotr 19 x XOR drop_bit 10 x"

text \<open>The message: a 1 bit, zeros up to 56 modulo 64 bytes, the bit length on 8 bytes.\<close>

definition be64 :: "nat \<Rightarrow> 8 word list" where
  "be64 n = map (\<lambda>i. of_nat (n div 256 ^ i mod 256)) [7, 6, 5, 4, 3, 2, 1, 0]"

definition pad :: "8 word list \<Rightarrow> 8 word list" where
  "pad m = m @ [0x80] @ replicate (nat ((55 - int (length m)) mod 64)) 0 @ be64 (8 * length m)"

fun words_of :: "8 word list \<Rightarrow> 32 word list" where
  "words_of (a # b # c # d # r) =
     (ucast a * 0x1000000 + ucast b * 0x10000 + ucast c * 0x100 + ucast d) # words_of r"
| "words_of _ = []"

fun blocks_of :: "nat \<Rightarrow> 32 word list \<Rightarrow> 32 word list list" where
  "blocks_of 0 ws = []"
| "blocks_of (Suc n) ws = take 16 ws # blocks_of n (drop 16 ws)"

text \<open>The message schedule, newest word first.\<close>

fun extend_schedule :: "nat \<Rightarrow> 32 word list \<Rightarrow> 32 word list" where
  "extend_schedule 0 ws = ws"
| "extend_schedule (Suc n) ws =
     extend_schedule n ((sig1 (ws ! 1) + ws ! 6 + sig0 (ws ! 14) + ws ! 15) # ws)"

definition schedule :: "32 word list \<Rightarrow> 32 word list" where
  "schedule blk = rev (extend_schedule 48 (rev blk))"

fun sha_round :: "32 word \<times> 32 word \<Rightarrow> 32 word list \<Rightarrow> 32 word list" where
  "sha_round (k, w) [a, b, c, d, e, f, g, h] =
     (let t1 = h + Sum1 e + Ch e f g + k + w; t2 = Sum0 a + Maj a b c
      in [t1 + t2, a, b, c, d + t1, e, f, g])"
| "sha_round _ st = st"

definition compress :: "32 word list \<Rightarrow> 32 word list \<Rightarrow> 32 word list" where
  "compress blk h = map2 (+) h (fold sha_round (zip round_constants (schedule blk)) h)"

definition be32 :: "32 word \<Rightarrow> 8 word list" where
  "be32 w = [ucast (drop_bit 24 w), ucast (drop_bit 16 w), ucast (drop_bit 8 w), ucast w]"

text \<open>\<open>sha256.Sum256\<close>.\<close>

definition sha256 :: "8 word list \<Rightarrow> 8 word list" where
  "sha256 m =
     (let p = pad m
      in concat (map be32 (fold compress (blocks_of (length p div 64) (words_of p)) initial_hash)))"

definition bytes_of :: "string \<Rightarrow> 8 word list" where
  "bytes_of s = map of_char s"

lemma length_pad: "64 dvd length (pad m)"
proof -
  let ?n = "int (length m)"
  have "int (length (pad m)) = ?n + 9 + (55 - ?n) mod 64"
    by (simp add: pad_def be64_def)
  then have "int (length (pad m)) mod 64 = (?n + 9 + (55 - ?n)) mod 64"
    by (simp only: mod_add_right_eq)
  then have "64 dvd int (length (pad m))"
    by (simp add: mod_eq_0_iff_dvd)
  then have "int 64 dvd int (length (pad m))"
    by simp
  then show ?thesis
    by (simp only: of_nat_dvd_iff)
qed

lemma length_sha_round [simp]: "length (sha_round x st) = length st"
  by (induction x st rule: sha_round.induct) (auto simp: Let_def)

lemma length_sha_rounds [simp]: "length (fold sha_round xs st) = length st"
  by (induction xs arbitrary: st) auto

lemma length_compress [simp]: "length (compress blk h) = length h"
  by (simp add: compress_def)

lemma length_compresses: "length (fold compress blks h) = length h"
  by (induction blks arbitrary: h) auto

lemma length_concat_be32: "length (concat (map be32 ws)) = 4 * length ws"
  by (induction ws) (auto simp: be32_def)

text \<open>The digest has 32 bytes, so its hex form has 64 digits.\<close>

lemma length_sha256 [simp]: "length (sha256 m) = 32"
  by (simp add: sha256_def Let_def length_concat_be32 length_compresses initial_hash_def
      eight_primes)

end
