(* ===== verification/Go_Time.thy ===== *)
theory Go_Time
  imports Go_Numbers "HOL-Library.Monad_Syntax"
begin

text \<open>
  Go's \<open>time.Time\<close> values and the layout \<open>time.RFC3339\<close>: the civil date of a day number and
  back, \<open>Format\<close> of whole seconds, which is also how \<open>encoding/json\<close> writes them, and
  \<open>Parse\<close>.
\<close>

section \<open>Civil dates\<close>

text \<open>Year, month and day of the day \<open>z\<close> after 1970-01-01, counted in 400-year eras from March.\<close>

definition year_of_era :: "int \<Rightarrow> int" where
  "year_of_era doe = (doe - doe div 1460 + doe div 36524 - doe div 146096) div 365"

definition days_before :: "int \<Rightarrow> int" where
  "days_before yoe = 365 * yoe + yoe div 4 - yoe div 100"

definition civil_of_days :: "int \<Rightarrow> int \<times> int \<times> int" where
  "civil_of_days z0 =
     (let z = z0 + 719468; era = z div 146097; doe = z mod 146097;
          yoe = year_of_era doe;
          doy = doe - days_before yoe;
          mp = (5 * doy + 2) div 153;
          m = (if mp < 10 then mp + 3 else mp - 9)
      in (yoe + era * 400 + (if m \<le> 2 then 1 else 0), m, doy - (153 * mp + 2) div 5 + 1))"

definition days_of_civil :: "int \<Rightarrow> int \<Rightarrow> int \<Rightarrow> int" where
  "days_of_civil y m d =
     (let y1 = (if m \<le> 2 then y - 1 else y); era = y1 div 400; yoe = y1 mod 400;
          mp = (if m > 2 then m - 3 else m + 9)
      in era * 146097 + days_before yoe + (153 * mp + 2) div 5 + d - 1 - 719468)"

definition leap_year :: "int \<Rightarrow> bool" where
  "leap_year y \<longleftrightarrow> 4 dvd y \<and> (\<not> 100 dvd y \<or> 400 dvd y)"

definition days_in :: "int \<Rightarrow> int \<Rightarrow> int" where
  "days_in m y = (if m = 2 then (if leap_year y then 29 else 28) else if m \<in> {4, 6, 9, 11} then 30 else 31)"

section \<open>Format\<close>

definition pad_left :: "nat \<Rightarrow> int \<Rightarrow> string" where
  "pad_left n i =
     (let s = dec_nat (nat \<bar>i\<bar>)
      in (if i < 0 then ''-'' else []) @ replicate (n - length s) CHR ''0'' @ s)"

text \<open>The seconds \<open>t\<close> in a zone \<open>off\<close> seconds east of UTC; the offset is written in whole minutes.\<close>

definition zone_text :: "int \<Rightarrow> string" where
  "zone_text off =
     (if off = 0 then ''Z''
      else let z = \<bar>off\<bar> div 60
           in (if off \<le> - 60 then ''-'' else ''+'') @ pad_left 2 (z div 60) @ '':'' @ pad_left 2 (z mod 60))"

definition rfc3339_in :: "int \<Rightarrow> int \<Rightarrow> string" where
  "rfc3339_in off t =
     (let u = t + off; sod = u mod 86400
      in case civil_of_days (u div 86400) of (y, m, d) \<Rightarrow>
           pad_left 4 y @ ''-'' @ pad_left 2 m @ ''-'' @ pad_left 2 d @ ''T'' @
           pad_left 2 (sod div 3600) @ '':'' @ pad_left 2 (sod div 60 mod 60) @ '':'' @
           pad_left 2 (sod mod 60) @ zone_text off)"

definition rfc3339 :: "int \<Rightarrow> string" where
  "rfc3339 t = rfc3339_in 0 t"

text \<open>\<open>Time.IsZero\<close> on Unix seconds: January 1 of year 1.\<close>

definition zero_time :: int where
  "zero_time = - 62135596800"

lemma civil_samples:
  "civil_of_days 0 = (1970, 1, 1)" "civil_of_days 19782 = (2024, 2, 29)"
  "civil_of_days 19783 = (2024, 3, 1)" "civil_of_days (zero_time div 86400) = (1, 1, 1)"
  by code_simp+

lemma rfc3339_sample:
  "rfc3339 1709210096 = ''2024-02-29T12:34:56Z''"
  "rfc3339_in (- 12600) 1709210096 = ''2024-02-29T09:04:56-03:30''"
  by code_simp+

section \<open>Parse\<close>

text \<open>One step of the layout: the value of the field and the rest, \<open>None\<close> for an error.\<close>

definition getnum :: "bool \<Rightarrow> string \<Rightarrow> (int \<times> string) option" where
  "getnum fixed s =
     (case s of
        [] \<Rightarrow> None
      | a # r \<Rightarrow>
          if \<not> is_digit a then None
          else if r \<noteq> [] \<and> is_digit (hd r) then Some (int (digit_val a * 10 + digit_val (hd r)), tl r)
          else if fixed then None else Some (int (digit_val a), r))"

definition ranged :: "int \<Rightarrow> int \<Rightarrow> (int \<times> string) option \<Rightarrow> (int \<times> string) option" where
  "ranged lo hi x = do { (n, r) \<leftarrow> x; if lo \<le> n \<and> n \<le> hi then Some (n, r) else None }"

definition skip_char :: "char \<Rightarrow> string \<Rightarrow> string option" where
  "skip_char c s = (if take 1 s = [c] then Some (drop 1 s) else None)"

definition digits_num :: "string \<Rightarrow> int" where
  "digits_num s = int (foldl (\<lambda>n c. n * 10 + digit_val c) 0 s)"

definition long_year :: "string \<Rightarrow> (int \<times> string) option" where
  "long_year s =
     (if 4 \<le> length s \<and> list_all is_digit (take 4 s) then Some (digits_num (take 4 s), drop 4 s)
      else None)"

text \<open>A fraction of a second is accepted although the layout has none; nine digits count.\<close>

definition fraction :: "string \<Rightarrow> int \<times> string" where
  "fraction s =
     (let ds = takeWhile is_digit (drop 1 s)
      in if (take 1 s = ''.'' \<or> take 1 s = '','') \<and> ds \<noteq> []
         then (digits_num (take 9 ds) * 10 ^ (9 - min 9 (length ds)), drop (Suc (length ds)) s)
         else (0, s))"

text \<open>The zone: \<open>Z\<close> is UTC, otherwise an offset in seconds.\<close>

definition zone_part :: "string \<Rightarrow> (int option \<times> string) option" where
  "zone_part s =
     (if take 1 s = ''Z'' then Some (None, drop 1 s)
      else if length s < 6 \<or> s ! 3 \<noteq> CHR '':'' then None
      else do {
        (h, _) \<leftarrow> ranged 0 24 (getnum True (take 2 (drop 1 s)));
        (m, _) \<leftarrow> ranged 0 60 (getnum True (take 2 (drop 4 s)));
        if s ! 0 = CHR ''+'' then Some (Some ((h * 60 + m) * 60), drop 6 s)
        else if s ! 0 = CHR ''-'' then Some (Some (- ((h * 60 + m) * 60)), drop 6 s)
        else None })"

text \<open>
  \<open>time.Parse(time.RFC3339, s)\<close>: nanoseconds since 1970 and the offset. The strict fast way
  that the library tries first accepts fewer texts, with the same result.
\<close>

definition parse_rfc3339 :: "string \<Rightarrow> (int \<times> int option) option" where
  "parse_rfc3339 s = do {
     (y, s) \<leftarrow> long_year s;
     s \<leftarrow> skip_char CHR ''-'' s;
     (m, s) \<leftarrow> ranged 1 12 (getnum True s);
     s \<leftarrow> skip_char CHR ''-'' s;
     (d, s) \<leftarrow> getnum True s;
     s \<leftarrow> skip_char CHR ''T'' s;
     (hh, s) \<leftarrow> ranged 0 23 (getnum False s);
     s \<leftarrow> skip_char CHR '':'' s;
     (mm, s) \<leftarrow> ranged 0 59 (getnum True s);
     s \<leftarrow> skip_char CHR '':'' s;
     (ss, s) \<leftarrow> ranged 0 59 (getnum True s);
     (z, r) \<leftarrow> zone_part (snd (fraction s));
     (if r \<noteq> [] \<or> d < 1 \<or> d > days_in m y then None
      else Some ((days_of_civil y m d * 86400 + hh * 3600 + mm * 60 + ss -
                  (case z of None \<Rightarrow> 0 | Some off \<Rightarrow> off)) * second + fst (fraction s), z)) }"

lemma parse_rfc3339_samples:
  "parse_rfc3339 ''2024-02-29T12:34:56Z'' = Some (1709210096 * second, None)"
  "parse_rfc3339 ''2024-02-29T9:04:56,25-03:30'' = Some (1709210096250000000, Some (- 12600))"
  "parse_rfc3339 ''2023-02-29T12:34:56Z'' = None"
  by code_simp+

section \<open>A day number is read back from its date\<close>

definition era_shift :: "int \<Rightarrow> int" where
  "era_shift doe = doe - doe div 1460 + doe div 36524 - doe div 146096"

definition days_through :: "int \<Rightarrow> int" where
  "days_through yoe = days_before (yoe + 1) + (if yoe = 399 then 1 else 0)"

lemma era_shift_Suc: "0 \<le> d \<Longrightarrow> d < 146096 \<Longrightarrow> era_shift d \<le> era_shift (d + 1)"
proof (cases "d = 146095")
  case False
  assume d: "0 \<le> d" "d < 146096"
  with False have "d div 146096 = 0" "(d + 1) div 146096 = 0" by simp_all
  moreover have "(d + 1) div 1460 \<le> (d + 1460) div 1460" by (rule zdiv_mono1) simp_all
  then have "(d + 1) div 1460 \<le> d div 1460 + 1" by (simp only: div_add_self2 [of 1460] zero_neq_numeral not_False_eq_True)
  moreover have "d div 36524 \<le> (d + 1) div 36524" by (rule zdiv_mono1) simp_all
  moreover have "a' \<le> a + 1 \<Longrightarrow> b \<le> b' \<Longrightarrow> d - a + b - 0 \<le> d + 1 - a' + b' - 0" for a a' b b' :: int
    by simp
  ultimately show ?thesis unfolding era_shift_def by metis
qed (simp add: era_shift_def)

lemma era_shift_mono: "0 \<le> a \<Longrightarrow> a \<le> b \<Longrightarrow> b \<le> 146096 \<Longrightarrow> era_shift a \<le> era_shift b"
proof -
  assume "0 \<le> a"
  have "b \<le> 146096 \<Longrightarrow> era_shift a \<le> era_shift b" if "a \<le> b" using that
  proof (induction b rule: int_ge_induct)
    case (step i)
    then show ?case using era_shift_Suc [of i] \<open>0 \<le> a\<close> by linarith
  qed simp
  then show "a \<le> b \<Longrightarrow> b \<le> 146096 \<Longrightarrow> era_shift a \<le> era_shift b" by blast
qed

lemma era_years: "list_all (\<lambda>y. 365 * y \<le> era_shift (days_before y) \<and> era_shift (days_through y - 1) < 365 * (y + 1) \<and>
  0 \<le> days_before y \<and> days_through y \<le> 146097) [0..399]"
  by code_simp

lemma era_yearsD:
  assumes "0 \<le> y" and "y \<le> 399"
  shows "365 * y \<le> era_shift (days_before y)" and "era_shift (days_through y - 1) < 365 * (y + 1)"
    and "0 \<le> days_before y" and "days_through y \<le> 146097"
proof -
  have "y \<in> set [0..399]" using assms by simp
  with era_years show "365 * y \<le> era_shift (days_before y)"
    "era_shift (days_through y - 1) < 365 * (y + 1)" "0 \<le> days_before y" "days_through y \<le> 146097"
    unfolding list_all_iff by blast+
qed

lemma era_year:
  assumes "0 \<le> doe" and "doe < 146097" and "y = year_of_era doe"
  shows "0 \<le> y" and "y \<le> 399" and "days_before y \<le> doe" and "doe < days_through y"
proof -
  have y: "y = era_shift doe div 365" using assms(3) by (simp add: year_of_era_def era_shift_def)
  have "era_shift 0 \<le> era_shift doe" "era_shift doe \<le> era_shift 146096"
    using assms by (intro era_shift_mono; simp)+
  then have "0 \<le> era_shift doe" "era_shift doe < 365 * 400" by (simp_all add: era_shift_def)
  then show lo: "0 \<le> y" and hi: "y \<le> 399" using y by auto
  have le: "365 * y \<le> era_shift doe" "era_shift doe < 365 * (y + 1)" unfolding y by auto
  show "doe < days_through y"
  proof (rule ccontr)
    assume n: "\<not> doe < days_through y"
    then have "y \<noteq> 399" using assms(2) by (auto simp: days_through_def days_before_def)
    then have "days_through y = days_before (y + 1)" "0 \<le> y + 1" "y + 1 \<le> 399"
      using lo hi by (simp_all add: days_through_def)
    with era_yearsD [of "y + 1"] have "365 * (y + 1) \<le> era_shift (days_through y)" "0 \<le> days_through y"
      by simp_all
    moreover from this(2) n assms(2) have "era_shift (days_through y) \<le> era_shift doe"
      by (intro era_shift_mono) simp_all
    ultimately show False using le by linarith
  qed
  show "days_before y \<le> doe"
  proof (rule ccontr)
    assume n: "\<not> days_before y \<le> doe"
    then have "y \<noteq> 0" using assms(1) by (auto simp: days_before_def)
    then have "days_through (y - 1) = days_before y" "0 \<le> y - 1" "y - 1 \<le> 399"
      using lo hi by (simp_all add: days_through_def)
    with era_yearsD [of "y - 1"] have "era_shift (days_before y - 1) < 365 * y" "days_before y \<le> 146097"
      by simp_all
    moreover from this(2) n assms(1) have "era_shift doe \<le> era_shift (days_before y - 1)"
      by (intro era_shift_mono) simp_all
    ultimately show False using le by linarith
  qed
qed


lemma year_lengths:
  "list_all (\<lambda>y. days_through y - days_before y \<le> (if leap_year (y + 1) then 366 else 365)) [0..399]"
  by code_simp

definition month_part :: "int \<Rightarrow> int" where
  "month_part doy = (5 * doy + 2) div 153"

lemma month_days:
  "list_all (\<lambda>doy. let mp = month_part doy; d = doy - (153 * mp + 2) div 5 + 1 in
     0 \<le> mp \<and> mp \<le> 11 \<and> 1 \<le> d \<and>
     d \<le> (if mp = 11 then (if doy = 365 then 29 else 28) else days_in (if mp < 10 then mp + 3 else mp - 9) 0)) [0..365]"
  by code_simp

lemma leap_year_shift: "leap_year (y + era * 400) \<longleftrightarrow> leap_year y"
proof -
  have "n dvd 400 \<Longrightarrow> n dvd y + era * 400 \<longleftrightarrow> n dvd y" for n :: int
    by (simp add: dvd_add_left_iff)
  then show ?thesis by (simp add: leap_year_def)
qed

lemma triple_unique: "x = (a, b, c) \<Longrightarrow> x = (a', b', c') \<Longrightarrow> a = a' \<and> b = b' \<and> c = c'"
  by simp

lemma civil_of_days:
  assumes "civil_of_days z = (y, m, d)"
  shows "days_of_civil y m d = z" and "1 \<le> m" and "m \<le> 12" and "1 \<le> d" and "d \<le> days_in m y"
proof -
  define era doe where "era = (z + 719468) div 146097" and "doe = (z + 719468) mod 146097"
  define yoe where "yoe = year_of_era doe"
  define doy where "doy = doe - days_before yoe"
  define mp where "mp = month_part doy"
  have doe: "0 \<le> doe" "doe < 146097" by (simp_all add: doe_def)
  note yoe = era_year [OF doe yoe_def]
  have "yoe \<in> set [0..399]" using yoe by simp
  with year_lengths have len: "days_through yoe - days_before yoe \<le> (if leap_year (yoe + 1) then 366 else 365)"
    unfolding list_all_iff by blast
  have doy: "0 \<le> doy" "doy \<le> 365" "doy = 365 \<Longrightarrow> leap_year (yoe + 1)"
    using yoe len by (auto simp: doy_def split: if_splits)
  then have "doy \<in> set [0..365]" by simp
  with month_days have mp: "0 \<le> mp" "mp \<le> 11" "1 \<le> doy - (153 * mp + 2) div 5 + 1"
      "doy - (153 * mp + 2) div 5 + 1 \<le>
        (if mp = 11 then (if doy = 365 then 29 else 28) else days_in (if mp < 10 then mp + 3 else mp - 9) 0)"
    unfolding list_all_iff Let_def mp_def by blast+
  define mm where "mm = (if mp < 10 then mp + 3 else mp - 9)"
  have "civil_of_days z = (yoe + era * 400 + (if mm \<le> 2 then 1 else 0), mm, doy - (153 * mp + 2) div 5 + 1)"
    by (simp only: civil_of_days_def Let_def era_def doe_def yoe_def doy_def mp_def month_part_def mm_def)
  from triple_unique [OF this assms] have "mm = m" "d = doy - (153 * mp + 2) div 5 + 1"
      "y = yoe + era * 400 + (if mm \<le> 2 then 1 else 0)"
    by (rule conjE, elim conjE, simp only:)+
  then have ymd0: "m = (if mp < 10 then mp + 3 else mp - 9)" "d = doy - (153 * mp + 2) div 5 + 1"
      "y = yoe + era * 400 + (if m \<le> 2 then 1 else 0)"
    by (simp_all only: mm_def)
  have "m \<le> 2 \<longleftrightarrow> \<not> mp < 10" using ymd0(1) mp(1,2) by auto
  then have ymd: "m = (if mp < 10 then mp + 3 else mp - 9)" "d = doy - (153 * mp + 2) div 5 + 1"
      "y = yoe + era * 400 + (if mp < 10 then 0 else 1)"
    using ymd0 by simp_all
  show "1 \<le> m" "m \<le> 12" "1 \<le> d" using ymd mp by auto
  have "(yoe + era * 400) div 400 = era" "(yoe + era * 400) mod 400 = yoe" using yoe by simp_all
  moreover have "(if m \<le> 2 then y - 1 else y) = yoe + era * 400" "(if m > 2 then m - 3 else m + 9) = mp"
    using ymd mp by auto
  ultimately have "days_of_civil y m d = era * 146097 + days_before yoe + (153 * mp + 2) div 5 + d - 1 - 719468"
    by (simp only: days_of_civil_def Let_def)
  also have "\<dots> = era * 146097 + doe - 719468" by (simp add: ymd(2) doy_def)
  also have "\<dots> = z" by (simp add: era_def doe_def)
  finally show "days_of_civil y m d = z" .
  show "d \<le> days_in m y"
  proof (cases "mp = 11")
    case True
    have "leap_year y = leap_year (yoe + 1)"
      using leap_year_shift [of "yoe + 1" era] ymd(3) True by (simp add: algebra_simps)
    with True show ?thesis using mp(4) doy(3) ymd(1,2) by (auto simp: days_in_def split: if_splits)
  next
    case False
    then have "m \<noteq> 2" using ymd(1) mp(1,2) by (auto split: if_splits)
    then have "days_in m y = days_in m 0" by (simp add: days_in_def)
    with False mp(4) ymd(1,2) show ?thesis by simp
  qed
qed

section \<open>A time is read back from its text\<close>

lemma pad_left_nat:
  assumes "0 \<le> i" and "length (dec_nat (nat i)) \<le> k"
  shows "length (pad_left k i) = k" and "list_all is_digit (pad_left k i)" and "digits_num (pad_left k i) = i"
proof -
  have zeros: "foldl (\<lambda>n c. n * 10 + digit_val c) 0 (replicate m CHR ''0'') = 0" for m
    by (induction m) (simp_all add: digit_val_def)
  show "length (pad_left k i) = k" "list_all is_digit (pad_left k i)"
    using assms dec_nat_digits [of "nat i"]
    by (auto simp: pad_left_def Let_def list_all_iff is_digit_def)
  show "digits_num (pad_left k i) = i"
    using assms by (simp add: pad_left_def digits_num_def zeros digits_value Let_def)
qed

lemma long_year_pad:
  assumes "0 \<le> y" and "y \<le> 9999"
  shows "long_year (pad_left 4 y @ s) = Some (y, s)"
proof -
  have "length (dec_nat (nat y)) \<le> 4" using dec_nat_length [of "nat y" 3] assms by simp
  note p = pad_left_nat [OF assms(1) this]
  then show ?thesis by (simp add: long_year_def)
qed

lemma pad_left_two:
  assumes "0 \<le> n" and "n \<le> 99"
  obtains a b where "pad_left 2 n = [a, b]" and "is_digit a" and "is_digit b" and "digits_num [a, b] = n"
proof -
  have "length (dec_nat (nat n)) \<le> 2" using dec_nat_length [of "nat n" 1] assms by (simp add: numeral_2_eq_2)
  note p = pad_left_nat [OF assms(1) this]
  then obtain a b where ab: "pad_left 2 n = [a, b]"
    by (metis (no_types) length_0_conv length_Suc_conv numeral_2_eq_2)
  with p show ?thesis using that [OF ab] by simp
qed

lemma getnum_pad:
  assumes "0 \<le> n" and "n \<le> 99"
  shows "getnum fixed (pad_left 2 n @ s) = Some (n, s)"
proof -
  obtain a b where "pad_left 2 n = [a, b]" "is_digit a" "is_digit b" "digits_num [a, b] = n"
    by (rule pad_left_two [OF assms])
  then show ?thesis by (simp add: getnum_def digits_num_def)
qed

lemma zone_part_text:
  assumes "60 dvd off" and "\<bar>off\<bar> < 90000"
  shows "zone_part (zone_text off) = Some (if off = 0 then None else Some off, [])"
    and "fraction (zone_text off) = (0, zone_text off)"
proof -
  obtain k where k: "off = 60 * k" using assms(1) by (elim dvdE)
  define h where "h = \<bar>off\<bar> div 60 div 60"
  define m where "m = \<bar>off\<bar> div 60 mod 60"
  have ak: "\<bar>off\<bar> div 60 = \<bar>k\<bar>" unfolding k by (simp add: abs_mult)
  have "\<bar>k\<bar> div 60 \<le> 1499 div 60" using assms(2) k by (intro zdiv_mono1) simp_all
  then have r: "0 \<le> h" "h \<le> 24" "h \<le> 99" "0 \<le> m" "m \<le> 60" "m \<le> 99"
    by (simp_all add: ak h_def m_def)
  obtain a b where ab: "pad_left 2 h = [a, b]" by (rule pad_left_two [OF r(1,3)])
  obtain c d where cd: "pad_left 2 m = [c, d]" by (rule pad_left_two [OF r(4,6)])
  have g: "getnum True [a, b] = Some (h, [])" "getnum True [c, d] = Some (m, [])"
    using getnum_pad [OF r(1,3), of True "[]"] getnum_pad [OF r(4,6), of True "[]"] by (simp_all add: ab cd)
  have ztext: "zone_text off = (if off = 0 then ''Z'' else [if off \<le> - 60 then CHR ''-'' else CHR ''+'', a, b, CHR '':'', c, d])"
    using ab cd by (simp add: zone_text_def Let_def h_def m_def)
  have "h * 60 + m = \<bar>k\<bar>" by (simp add: h_def m_def ak)
  then have sum: "(h * 60 + m) * 60 = \<bar>off\<bar>" using k by (simp add: abs_mult)
  have "off \<noteq> 0 \<Longrightarrow> off \<le> - 60 \<or> 0 < off" unfolding k by (cases "k < 0") auto
  then show "zone_part (zone_text off) = Some (if off = 0 then None else Some off, [])"
    unfolding ztext zone_part_def using g r sum by (auto simp: ranged_def)
  show "fraction (zone_text off) = (0, zone_text off)"
    by (simp add: fraction_def ztext)
qed

lemma skip_char_Cons [simp]: "skip_char c (c # s) = Some s"
  by (simp add: skip_char_def)

lemma parse_format_rfc3339:
  assumes "civil_of_days ((t + off) div 86400) = (y, m, d)" and "0 \<le> y" and "y \<le> 9999"
    and "60 dvd off" and "\<bar>off\<bar> < 90000"
  shows "parse_rfc3339 (rfc3339_in off t) = Some (t * second, if off = 0 then None else Some off)"
proof -
  note civ = civil_of_days [OF assms(1)]
  define sod where "sod = (t + off) mod 86400"
  have sod: "0 \<le> sod" "sod < 86400" by (simp_all add: sod_def)
  have days: "days_of_civil y m d * 86400 + sod = t + off" using civ(1) by (simp add: sod_def)
  have "days_in m y \<le> 31" by (simp add: days_in_def)
  then have md: "0 \<le> m" "m \<le> 99" "0 \<le> d" "d \<le> 99" using civ by auto
  define hh where "hh = sod div 3600"
  define mm where "mm = sod div 60 mod 60"
  define ss where "ss = sod mod 60"
  have hms: "0 \<le> hh" "hh \<le> 23" "hh \<le> 99" "0 \<le> mm" "mm \<le> 59" "mm \<le> 99" "0 \<le> ss" "ss \<le> 59" "ss \<le> 99"
    using sod zdiv_mono1 [of sod 86399 3600] by (simp_all add: pos_imp_zdiv_nonneg_iff hh_def mm_def ss_def)
  have split: "hh * 3600 + mm * 60 + ss = sod"
  proof -
    have "hh = sod div 60 div 60" by (simp add: zdiv_zmult2_eq [of 60, symmetric] hh_def)
    then have "hh * 60 + mm = sod div 60" by (simp add: mm_def)
    moreover have "sod div 60 * 60 + ss = sod" by (simp add: ss_def)
    ultimately show ?thesis by linarith
  qed
  have "rfc3339_in off t = pad_left 4 y @ CHR ''-'' # pad_left 2 m @ CHR ''-'' # pad_left 2 d @ CHR ''T'' #
      pad_left 2 hh @ CHR '':'' # pad_left 2 mm @ CHR '':'' # pad_left 2 ss @ zone_text off"
    unfolding rfc3339_in_def by (simp add: assms(1) sod_def hh_def mm_def ss_def Let_def)
  then have "parse_rfc3339 (rfc3339_in off t) =
      Some ((days_of_civil y m d * 86400 + hh * 3600 + mm * 60 + ss - off) * second,
        if off = 0 then None else Some off)"
    using civ md hms by (simp add: parse_rfc3339_def long_year_pad getnum_pad ranged_def assms zone_part_text)
  moreover have "days_of_civil y m d * 86400 + hh * 3600 + mm * 60 + ss - off = t"
    using split days by linarith
  ultimately show ?thesis by simp
qed

end
