(* ===== verification/Http.thy ===== *)
theory Http
  imports Sql Go_Json Go_Crypto Go_Time Complex_Main
begin

text \<open>
  What \<open>net/http\<close> shows a handler: the request, the response writer with the wrappers that
  middleware puts around it, \<open>http.Error\<close>; and the world a handler acts on: the database,
  the Redis keys, the log, and the values read from the clock and from \<open>crypto/rand\<close>.
  The services and libraries outside the repository are the fields of \<open>sys\<close>.
\<close>

section \<open>Requests\<close>

text \<open>
  \<open>rq_broken\<close>: reading the body fails after the bytes \<open>rq_body\<close>. \<open>rq_uid\<close> is the context
  value that the authentication middleware adds.
\<close>

record req =
  rq_method :: string
  rq_path :: string
  rq_headers :: "string \<rightharpoonup> string"
  rq_query :: "string \<rightharpoonup> string"
  rq_param :: "string \<rightharpoonup> string"
  rq_body :: string
  rq_broken :: bool
  rq_length :: int
  rq_remote :: string
  rq_uid :: "int option"

definition get_or_empty :: "(string \<rightharpoonup> string) \<Rightarrow> string \<Rightarrow> string" where
  "get_or_empty m k = (case m k of None \<Rightarrow> [] | Some v \<Rightarrow> v)"

text \<open>\<open>r.Header.Get\<close>, \<open>r.URL.Query().Get\<close>, \<open>chi.URLParam\<close>.\<close>

definition header :: "req \<Rightarrow> string \<Rightarrow> string" where
  "header r k = get_or_empty (rq_headers r) k"

definition query_param :: "req \<Rightarrow> string \<Rightarrow> string" where
  "query_param r k = get_or_empty (rq_query r) k"

definition url_param :: "req \<Rightarrow> string \<Rightarrow> string" where
  "url_param r k = get_or_empty (rq_param r) k"

section \<open>The response writer\<close>

text \<open>
  \<open>w_sent\<close> is the status line and the headers as they were when it was written; \<open>w_taps\<close>
  are the \<open>status\<close> fields of the wrappers between the handler and the connection, innermost
  first.
\<close>

record writer =
  w_hdr :: "string \<rightharpoonup> string"
  w_sent :: "(int \<times> (string \<rightharpoonup> string)) option"
  w_body :: string
  w_taps :: "int list"

definition new_writer :: writer where
  "new_writer = \<lparr>w_hdr = Map.empty, w_sent = None, w_body = [], w_taps = []\<rparr>"

definition set_hdr :: "string \<Rightarrow> string \<Rightarrow> writer \<Rightarrow> writer" where
  "set_hdr k v w = w\<lparr>w_hdr := (w_hdr w)(k \<mapsto> v)\<rparr>"

text \<open>Only the first \<open>WriteHeader\<close> reaches the client; every wrapper records every call.\<close>

definition write_header :: "int \<Rightarrow> writer \<Rightarrow> writer" where
  "write_header c w =
     w\<lparr>w_taps := map (\<lambda>_. c) (w_taps w),
       w_sent := (case w_sent w of None \<Rightarrow> Some (c, w_hdr w) | Some s \<Rightarrow> Some s)\<rparr>"

text \<open>The first \<open>Write\<close> sends status 200, which the wrappers do not see.\<close>

definition write_body :: "string \<Rightarrow> writer \<Rightarrow> writer" where
  "write_body s w =
     w\<lparr>w_sent := (case w_sent w of None \<Rightarrow> Some (200, w_hdr w) | Some x \<Rightarrow> Some x),
       w_body := w_body w @ s\<rparr>"

text \<open>\<open>http.Error\<close>.\<close>

definition http_error :: "string \<Rightarrow> int \<Rightarrow> writer \<Rightarrow> writer" where
  "http_error msg c w =
     write_body (msg @ [CHR 0x0A]) (write_header c
       (set_hdr ''X-Content-Type-Options'' ''nosniff''
         (set_hdr ''Content-Type'' ''text/plain; charset=utf-8'' w)))"

text \<open>A wrapper in front of the writer, and its \<open>status\<close> field when the handler has returned.\<close>

definition tap :: "writer \<Rightarrow> writer" where
  "tap w = w\<lparr>w_taps := 200 # w_taps w\<rparr>"

definition tapped :: "writer \<Rightarrow> int" where
  "tapped w = (case w_taps w of [] \<Rightarrow> 200 | c # _ \<Rightarrow> c)"

definition untap :: "writer \<Rightarrow> writer" where
  "untap w = w\<lparr>w_taps := tl (w_taps w)\<rparr>"

text \<open>The status and a header as the client sees them.\<close>

definition status_of :: "writer \<Rightarrow> int" where
  "status_of w = (case w_sent w of None \<Rightarrow> 200 | Some (c, _) \<Rightarrow> c)"

definition sent_header :: "writer \<Rightarrow> string \<Rightarrow> string option" where
  "sent_header w k = (case w_sent w of None \<Rightarrow> w_hdr w k | Some (_, h) \<Rightarrow> h k)"

lemmas writer_defs [handler_defs] =
  set_hdr_def write_header_def write_body_def http_error_def

section \<open>The world of a handler\<close>

datatype log_entry =
    LogHttp string string string string int int int
  | LogApi bool int string string string string
  | LogPanic

text \<open>Redis keys hold a counter or the text 1, and an expiry time in nanoseconds.\<close>

record redis =
  r_tick :: nat
  r_keys :: "string \<rightharpoonup> int \<times> int option"

record world =
  wdb :: db
  wr :: writer
  rds :: redis
  logs :: "log_entry list"
  observed :: "(string \<times> string \<times> string) list"
  failed_logins :: nat
  clock :: nat
  drawn :: nat

text \<open>Claims of a token: a JSON number, a string, or something else.\<close>

datatype claim_val = CNum rat | CStr string | COther

type_synonym claims = "string \<rightharpoonup> claim_val"

text \<open>
  The services and libraries: the SQL server and its key constraint, the Redis server, the
  readings of the clock (nanoseconds) and of \<open>rand.Read\<close> in order, the Unicode case tables,
  bcrypt, the e-mail rule of the validator, the JWT library (unverified parts, signature
  check, claim check, signing), the drivers' error texts, and the offset in seconds of the
  process's time zone at a Unix time.
\<close>

record sys =
  senv :: env
  keying :: idem_schema
  redis_out :: "nat \<Rightarrow> outcome"
  redis_now :: "nat \<Rightarrow> int"
  wall :: "nat \<Rightarrow> int"
  rand :: "nat \<Rightarrow> nat \<Rightarrow> 8 word list"
  uni_lower :: "string \<Rightarrow> string"
  uni_fold :: "nat \<Rightarrow> nat"
  bcrypt_hash :: "string \<Rightarrow> int \<Rightarrow> string option"
  bcrypt_ok :: "string \<Rightarrow> string \<Rightarrow> bool"
  valid_email :: "string \<Rightarrow> bool"
  jwt_parts :: "string \<Rightarrow> (string \<times> claims) option"
  jwt_signed :: "string \<Rightarrow> string \<Rightarrow> bool"
  jwt_claims_ok :: "int \<Rightarrow> (string \<times> string) option \<Rightarrow> claims \<Rightarrow> bool"
  jwt_sign :: "string \<Rightarrow> string \<Rightarrow> claims \<Rightarrow> string"
  db_text :: "dberr \<Rightarrow> string"
  redis_text :: "nat \<Rightarrow> string"
  zone_offset :: "int \<Rightarrow> int"

definition on_writer :: "(writer \<Rightarrow> writer) \<Rightarrow> world \<Rightarrow> world" where
  "on_writer f w = w\<lparr>wr := f (wr w)\<rparr>"

text \<open>Run a repository operation on the database of the world.\<close>

definition on_db :: "(db \<Rightarrow> 'a \<times> db) \<Rightarrow> world \<Rightarrow> 'a \<times> world" where
  "on_db f w = (case f (wdb w) of (x, d) \<Rightarrow> (x, w\<lparr>wdb := d\<rparr>))"

text \<open>\<open>time.Now()\<close> and \<open>rand.Read\<close> of \<open>k\<close> bytes.\<close>

definition time_now :: "sys \<Rightarrow> world \<Rightarrow> int \<times> world" where
  "time_now S w = (wall S (clock w), w\<lparr>clock := Suc (clock w)\<rparr>)"

definition rand_read :: "sys \<Rightarrow> nat \<Rightarrow> world \<Rightarrow> 8 word list \<times> world" where
  "rand_read S k w = (rand S (drawn w) k, w\<lparr>drawn := Suc (drawn w)\<rparr>)"

lemmas world_defs [handler_defs] = on_writer_def on_db_def time_now_def rand_read_def

text \<open>A handler returns or panics; a middleware turns a handler into a handler.\<close>

datatype flow = Returned | Panicked

type_synonym handler = "req \<Rightarrow> world \<Rightarrow> flow \<times> world"

text \<open>\<open>strings.ToLower\<close>: its ASCII path, and the case tables for everything else.\<close>

definition to_lower :: "sys \<Rightarrow> string \<Rightarrow> string" where
  "to_lower S s =
     (if list_all (\<lambda>c. byte c < 0x80) s
      then map (\<lambda>c. if 65 \<le> byte c \<and> byte c \<le> 90 then char_of (byte c + 32) else c) s
      else uni_lower S s)"

section \<open>Facts about the writer\<close>

lemma status_write_header [simp]:
  "w_sent w = None \<Longrightarrow> status_of (write_header c w) = c"
  by (simp add: status_of_def write_header_def)

lemma status_sent: "w_sent w = Some (c, h) \<Longrightarrow> status_of w = c"
  by (simp add: status_of_def)

lemma sent_set_hdr [simp]: "w_sent (set_hdr k v w) = w_sent w"
  by (simp add: set_hdr_def)

lemma status_set_hdr [simp]: "status_of (set_hdr k v w) = status_of w"
  by (simp add: status_of_def)

lemma status_write_body [simp]: "status_of (write_body s w) = status_of w"
  by (simp add: status_of_def write_body_def split: option.splits)

lemma status_http_error [simp]:
  "w_sent w = None \<Longrightarrow> status_of (http_error msg c w) = c"
  by (simp add: http_error_def)

text \<open>What has been sent stays sent: no operation changes the status line once it is out.\<close>

definition keeps_sent :: "(writer \<Rightarrow> writer) \<Rightarrow> bool" where
  "keeps_sent f \<longleftrightarrow> (\<forall>w s. w_sent w = Some s \<longrightarrow> w_sent (f w) = Some s)"

lemma keeps_sent_ops [intro]:
  "keeps_sent (set_hdr k v)" "keeps_sent (write_header c)" "keeps_sent (write_body s)"
  "keeps_sent (http_error msg c)"
  by (auto simp: keeps_sent_def writer_defs)

text \<open>The number of wrappers does not change below a handler's writes.\<close>

lemma taps_ops [simp]:
  "w_taps (set_hdr k v w) = w_taps w" "w_taps (write_body s w) = w_taps w"
  "w_taps (write_header c w) = map (\<lambda>_. c) (w_taps w)"
  "w_taps (http_error msg c w) = map (\<lambda>_. c) (w_taps w)"
  by (simp_all add: writer_defs)

lemma on_writer_simps [simp]:
  "wdb (on_writer f w) = wdb w" "wr (on_writer f w) = f (wr w)" "rds (on_writer f w) = rds w"
  "logs (on_writer f w) = logs w" "clock (on_writer f w) = clock w" "drawn (on_writer f w) = drawn w"
  by (simp_all add: on_writer_def)

lemma body_ops [simp]:
  "w_body (write_body s w) = w_body w @ s" "w_body (set_hdr k v w) = w_body w"
  "w_body (write_header c w) = w_body w"
  by (simp_all add: writer_defs)

lemma hdr_set [simp]: "w_hdr (set_hdr k v w) = (w_hdr w)(k \<mapsto> v)"
  by (simp add: set_hdr_def)

lemma sent_header_write_body [simp]:
  "w_sent w = None \<Longrightarrow> sent_header (write_body s w) k = w_hdr w k"
  by (simp add: sent_header_def write_body_def)

lemma status_unsent: "w_sent w = None \<Longrightarrow> status_of w = 200"
  by (simp add: status_of_def)

lemma on_db_simps [simp]:
  "fst (on_db f w) = fst (f (wdb w))" "snd (on_db f w) = w\<lparr>wdb := snd (f (wdb w))\<rparr>"
  by (simp_all add: on_db_def split: prod.splits)

lemma on_db_eq: "on_db f w = (fst (f (wdb w)), w\<lparr>wdb := snd (f (wdb w))\<rparr>)"
  by (simp add: prod_eq_iff)

end
