(* ===== verification/App_Errors.thy ===== *)
theory App_Errors
  imports Http
begin

text \<open>
  \<open>internal/errors/errors.go\<close>: the application errors, their constructor and sentinels, and
  \<open>Write\<close>, which answers a request with an error as JSON and logs it.
\<close>

section \<open>AppError\<close>

record app_error =
  ae_status :: int
  ae_code :: string
  ae_message :: string
  ae_fields :: "(string \<times> string) list option"
  ae_cause :: "string option"

text \<open>A Go error is an \<open>*AppError\<close> or carries only its text.\<close>

datatype go_error = App app_error | Plain string

definition error_text :: "app_error \<Rightarrow> string" where
  "error_text e = (case ae_cause e of Some c \<Rightarrow> c | None \<Rightarrow> ae_message e)"

definition E ::
  "int \<Rightarrow> string \<Rightarrow> string \<Rightarrow> string option \<Rightarrow> (string \<times> string) list option \<Rightarrow> app_error" where
  "E status code msg cause flds =
     \<lparr>ae_status = status, ae_code = code, ae_message = msg, ae_fields = flds, ae_cause = cause\<rparr>"

definition Unauthorized :: app_error where
  "Unauthorized = E 401 ''unauthorized'' ''unauthorized'' None None"

definition Forbidden :: app_error where
  "Forbidden = E 403 ''forbidden'' ''forbidden'' None None"

definition NotFound :: app_error where
  "NotFound = E 404 ''not_found'' ''not found'' None None"

definition Conflict :: app_error where
  "Conflict = E 409 ''conflict'' ''conflict'' None None"

definition BadRequest :: app_error where
  "BadRequest = E 400 ''bad_request'' ''bad request'' None None"

definition TooMany :: app_error where
  "TooMany = E 429 ''too_many_requests'' ''too many requests'' None None"

definition Validation :: "(string \<times> string) list option \<Rightarrow> app_error" where
  "Validation flds = E 422 ''validation_error'' ''validation error'' None flds"

lemmas sentinels =
  E_def Unauthorized_def Forbidden_def NotFound_def Conflict_def BadRequest_def TooMany_def

section \<open>Write\<close>

text \<open>\<open>stderrs.As(err, &app)\<close>, with the internal error for everything else.\<close>

definition as_app :: "go_error \<Rightarrow> app_error" where
  "as_app err =
     (case err of App a \<Rightarrow> a
      | Plain t \<Rightarrow> E 500 ''internal_error'' ''internal error'' (Some t) None)"

definition fields_json :: "(string \<times> string) list option \<Rightarrow> json" where
  "fields_json fs = (case fs of None \<Rightarrow> JNull | Some xs \<Rightarrow> JObj (map (apsnd JStr) xs))"

definition error_json :: "app_error \<Rightarrow> string \<Rightarrow> json" where
  "error_json a rid =
     JObj [(''code'', JStr (ae_code a)), (''fields'', fields_json (ae_fields a)),
       (''message'', JStr (ae_message a)), (''rid'', JStr rid)]"

text \<open>The status line, the body and the log entry (its first field: logged as an error).\<close>

definition write_error :: "req \<Rightarrow> go_error \<Rightarrow> world \<Rightarrow> world" where
  "write_error r err w =
     (let app = as_app err; rid = header r ''X-Request-ID'';
          w1 = on_writer (set_hdr ''Content-Type'' ''application/json; charset=utf-8'') w;
          w2 = on_writer (write_header (ae_status app)) w1;
          w3 = on_writer (write_body (encode_line (error_json app rid))) w2
      in w3\<lparr>logs := logs w3 @
           [LogApi (\<not> ae_status app < 500) (ae_status app) (ae_code app) rid (rq_path r)
              (case ae_cause app of None \<Rightarrow> [] | Some c \<Rightarrow> c)]\<rparr>)"

lemma write_error_simps [simp]:
  "wdb (write_error r err w) = wdb w" "rds (write_error r err w) = rds w"
  "drawn (write_error r err w) = drawn w" "clock (write_error r err w) = clock w"
  "w_taps (wr (write_error r err w)) = map (\<lambda>_. ae_status (as_app err)) (w_taps (wr w))"
  by (simp_all add: write_error_def Let_def)

lemma status_write_error [simp]:
  "w_sent (wr w) = None \<Longrightarrow> status_of (wr (write_error r err w)) = ae_status (as_app err)"
  by (simp add: write_error_def Let_def)

lemma sent_header_write_error [simp]:
  "w_sent (wr w) = None \<Longrightarrow> sent_header (wr (write_error r err w)) k =
    (if k = ''Content-Type'' then Some ''application/json; charset=utf-8'' else w_hdr (wr w) k)"
  by (simp add: write_error_def Let_def sent_header_def write_body_def write_header_def set_hdr_def)

lemma sent_write_error:
  "w_sent (wr w) = Some s \<Longrightarrow> w_sent (wr (write_error r err w)) = Some s"
  by (simp add: write_error_def Let_def write_body_def write_header_def set_hdr_def)

lemma as_app_App [simp]: "as_app (App a) = a"
  by (simp add: as_app_def)

lemma sentinel_status [simp]:
  "ae_status Unauthorized = 401" "ae_status Forbidden = 403" "ae_status NotFound = 404"
  "ae_status Conflict = 409" "ae_status BadRequest = 400" "ae_status TooMany = 429"
  "ae_status (E s c m x f) = s"
  by (simp_all add: sentinels)

end
