(* ===== verification/Notes_Handler.thy ===== *)
theory Notes_Handler
  imports Notes_Repo Idempotency App_Errors
begin

text \<open>
  \<open>internal/handlers/notes.go\<close>: the entity tags and the five handlers of \<open>/notes\<close>, on the
  repositories \<open>Notes\<close> and \<open>Idem\<close>. Request contexts and their timeouts are the failures of
  the SQL server's calls.
\<close>

section \<open>Entity tags\<close>

definition quoted :: "string \<Rightarrow> string" where
  "quoted s = CHR 0x22 # s @ [CHR 0x22]"

definition max_id :: "note_row list \<Rightarrow> int" where
  "max_id items = fold (\<lambda>r m. if n_id r > m then n_id r else m) items 0"

definition collETag :: "sys \<Rightarrow> int \<Rightarrow> int \<Rightarrow> string \<Rightarrow> string \<Rightarrow> note_row list \<Rightarrow> string" where
  "collETag S page sz q sortkey items =
     (let sum = crc32_ieee (to_lower S q @ ''|'' @ sortkey)
      in ''W/'' @ quoted (''notes-'' @ format_int (max_id items) @ ''-'' @
           format_int (int (length items)) @ ''-'' @ format_int page @ ''-'' @ format_int sz @ ''-'' @
           hex8 sum))"

definition noteETag :: "note_row \<Rightarrow> string" where
  "noteETag n =
     (let ts = (if n_updated n = zero_time then n_created n else n_updated n);
          h = sha256 (bytes_of (n_title n @ ''|'' @ n_body n))
      in ''W/'' @ quoted (''n-'' @ format_int (n_id n) @ ''-'' @ format_int ts @ ''-'' @
           hex_encode (take 4 h)))"

text \<open>The JSON form of a \<open>Note\<close>: the fields with tags, in the order of the struct.\<close>

definition note_json :: "note_row \<Rightarrow> json" where
  "note_json n =
     JObj [(''id'', JInt (n_id n)), (''title'', JStr (n_title n)), (''body'', JStr (n_body n)),
       (''created_at'', JStr (rfc3339 (n_created n))), (''updated_at'', JStr (rfc3339 (n_updated n)))]"

section \<open>The handlers\<close>

text \<open>\<open>middleware.UserID\<close>, whose second result these handlers drop.\<close>

definition user_of :: "req \<Rightarrow> int" where
  "user_of r = (case rq_uid r of None \<Rightarrow> 0 | Some u \<Rightarrow> u)"

definition db_error :: "sys \<Rightarrow> dberr \<Rightarrow> go_error" where
  "db_error S er = App (E 500 ''db_error'' ''db error'' (Some (db_text S er)) None)"

definition answer :: "string \<Rightarrow> world \<Rightarrow> flow \<times> world" where
  "answer s w = (Returned, on_writer (write_body s) w)"

definition fail :: "req \<Rightarrow> go_error \<Rightarrow> world \<Rightarrow> flow \<times> world" where
  "fail r err w = (Returned, write_error r err w)"

definition cache_headers :: "string \<Rightarrow> writer \<Rightarrow> writer" where
  "cache_headers etag w =
     set_hdr ''Cache-Control'' ''private, max-age=0, must-revalidate'' (set_hdr ''ETag'' etag w)"

text \<open>\<open>inm != "" && inm == etag\<close> for the header If-None-Match.\<close>

definition not_modified :: "req \<Rightarrow> string \<Rightarrow> bool" where
  "not_modified r etag \<longleftrightarrow>
     (let inm = header r ''If-None-Match'' in inm \<noteq> [] \<and> inm = etag)"

definition page_param :: "req \<Rightarrow> int" where
  "page_param r = (let p = fst (parse_int (query_param r ''page'')) in if p < 1 then 1 else p)"

definition size_param :: "req \<Rightarrow> int" where
  "size_param r =
     (let s = fst (parse_int (query_param r ''size'')) in if s < 1 \<or> s > 100 then 20 else s)"

definition list_json :: "note_row list \<Rightarrow> int \<Rightarrow> int \<Rightarrow> int \<Rightarrow> json" where
  "list_json items cnt page sz =
     JObj [(''items'', JArr (map note_json items)), (''page'', JInt page), (''size'', JInt sz),
       (''total'', JInt cnt)]"

definition notes_list :: "sys \<Rightarrow> handler" where
  "notes_list S r w =
     (let uid = user_of r; page = page_param r; sz = size_param r;
          q = query_param r ''q''; sortkey = query_param r ''sort''
      in case on_db (Notes_ListFiltered (senv S) uid page sz q sortkey) w of
           (Inl er, w1) \<Rightarrow> fail r (db_error S er) w1
         | (Inr (items, cnt), w1) \<Rightarrow>
             (let etag = collETag S page sz q sortkey items
              in if not_modified r etag then (Returned, on_writer (write_header 304) w1)
                 else answer (encode_line (list_json items cnt page sz))
                   (on_writer (cache_headers etag) w1)))"

definition notes_get :: "sys \<Rightarrow> handler" where
  "notes_get S r w =
     (case parse_int (url_param r ''id'') of
        (_, Some _) \<Rightarrow> fail r (App BadRequest) w
      | (id64, None) \<Rightarrow>
     (case on_db (Notes_Get (senv S) (user_of r) id64) w of
        (Inl _, w1) \<Rightarrow> fail r (App NotFound) w1
      | (Inr n, w1) \<Rightarrow>
          (let etag = noteETag n
           in if not_modified r etag then (Returned, on_writer (write_header 304) w1)
              else answer (encode_line (note_json n)) (on_writer (cache_headers etag) w1))))"

text \<open>\<open>json.NewDecoder(r.Body).Decode(&in)\<close> for \<open>struct{ Title, Body string }\<close>.\<close>

definition decode_note :: "bool \<Rightarrow> string \<Rightarrow> (string \<times> string) option" where
  "decode_note broken s = decode_two ''Title'' ''Body'' broken s"

definition notes_create :: "sys \<Rightarrow> handler" where
  "notes_create S r w =
     (case decode_note (rq_broken r) (rq_body r) of
        None \<Rightarrow> fail r (App BadRequest) w
      | Some (title, body) \<Rightarrow>
          if trim_space title = [] then fail r (App BadRequest) w
          else
     (case on_db (Notes_Create (senv S) (user_of r) (trim_space title) body) w of
        (Inl er, w1) \<Rightarrow> fail r (db_error S er) w1
      | (Inr i, w1) \<Rightarrow>
     (case on_db (Notes_Get (senv S) (user_of r) i) w1 of
        (Inl er, w2) \<Rightarrow> fail r (db_error S er) w2
      | (Inr n, w2) \<Rightarrow>
          answer (encode_line (note_json n)) (on_writer (set_hdr ''ETag'' (noteETag n)) w2))))"

text \<open>The body hash of a keyed request: \<open>raw\<close> is at most a mebibyte of the body.\<close>

definition raw_body :: "req \<Rightarrow> string" where
  "raw_body r = take (2 ^ 20) (rq_body r)"

definition body_hash :: "string \<Rightarrow> string" where
  "body_hash raw = hex_encode (sha256 (bytes_of raw))"

definition note_path :: "int \<Rightarrow> string" where
  "note_path i = ''/notes/'' @ format_int i"

text \<open>
  The claim in front of an update or deletion with a key: \<open>None\<close> means go on, otherwise the
  request has been answered.
\<close>

definition claim_first ::
  "sys \<Rightarrow> string \<Rightarrow> string \<Rightarrow> int \<Rightarrow> string \<Rightarrow> req \<Rightarrow> world \<Rightarrow> (flow \<times> world) option \<times> world" where
  "claim_first S key verb i hash r w =
     (case on_db (Idem_Claim (keying S) (senv S) key (user_of r) verb (note_path i) hash) w of
        ((_, Some ErrMismatch), w1) \<Rightarrow> (Some (fail r (App Conflict) w1), w1)
      | ((_, Some ErrInProgress), w1) \<Rightarrow>
          (Some (fail r (App Conflict) (on_writer (set_hdr ''Retry-After'' ''2'') w1)), w1)
      | ((_, Some (DbErr er)), w1) \<Rightarrow>
          (Some (fail r (App (E 500 ''idem_error'' ''idempotency error'' (Some (db_text S er)) None)) w1), w1)
      | ((Some res, None), w1) \<Rightarrow>
          (Some (answer res (on_writer (set_hdr ''Content-Type'' ''application/json'') w1)), w1)
      | ((None, None), w1) \<Rightarrow> (None, w1))"

text \<open>The end of an update or deletion that succeeded: tag, completion of the key, body.\<close>

definition finish_note :: "sys \<Rightarrow> string \<Rightarrow> note_row \<Rightarrow> req \<Rightarrow> world \<Rightarrow> flow \<times> world" where
  "finish_note S key n r w =
     (let w1 = on_writer (set_hdr ''ETag'' (noteETag n)) w;
          resp = marshal (note_json n);
          w2 = (if key \<noteq> [] then snd (on_db (Idem_Complete (senv S) key (user_of r) resp) w1) else w1)
      in answer resp w2)"

definition notes_update :: "sys \<Rightarrow> handler" where
  "notes_update S r w =
     (case parse_int (url_param r ''id'') of
        (_, Some _) \<Rightarrow> fail r (App BadRequest) w
      | (id64, None) \<Rightarrow>
     (let key = header r ''Idempotency-Key'';
          raw = (if key \<noteq> [] then raw_body r else []);
          decoded = (if key \<noteq> [] then decode_note False raw else decode_note (rq_broken r) (rq_body r))
      in case decoded of
        None \<Rightarrow> fail r (App BadRequest) w
      | Some (title, body) \<Rightarrow>
     (case (if key \<noteq> [] then claim_first S key ''PUT'' id64 (body_hash raw) r w else (None, w)) of
        (Some res, _) \<Rightarrow> res
      | (None, w1) \<Rightarrow>
     (case on_db (Notes_Update (senv S) (user_of r) id64 (trim_space title) body) w1 of
        (Inl _, w2) \<Rightarrow> fail r (App NotFound) w2
      | (Inr n, w2) \<Rightarrow> finish_note S key n r w2))))"

definition notes_delete :: "sys \<Rightarrow> handler" where
  "notes_delete S r w =
     (case parse_int (url_param r ''id'') of
        (_, Some _) \<Rightarrow> fail r (App BadRequest) w
      | (id64, None) \<Rightarrow>
     (let key = header r ''Idempotency-Key''
      in case (if key \<noteq> [] then claim_first S key ''DELETE'' id64 ''delete'' r w else (None, w)) of
        (Some res, _) \<Rightarrow> res
      | (None, w1) \<Rightarrow>
     (case on_db (Notes_Delete (senv S) (user_of r) id64) w1 of
        (Inl _, w2) \<Rightarrow> fail r (App NotFound) w2
      | (Inr n, w2) \<Rightarrow> finish_note S key n r w2)))"

lemmas notes_handlers [handler_defs] =
  notes_list_def notes_get_def notes_create_def notes_update_def notes_delete_def
  answer_def fail_def finish_note_def

end
