(* ===== verification/Demo_Http.thy ===== *)
theory Demo_Http
  imports App_Errors Demo
begin

text \<open>
  A sample system and sample requests for the witnesses of the HTTP theorems: the sample SQL
  server, a Redis server that answers, a clock that stands at 100 seconds, random bytes that
  count up, and libraries that know one token.
\<close>

definition demo_claims :: claims where
  "demo_claims = [''sub'' \<mapsto> CNum 7, ''exp'' \<mapsto> CNum 200, ''jti'' \<mapsto> CStr ''j'']"

definition demo_sys :: sys where
  "demo_sys = \<lparr>senv = demo_env, keying = PerKey, redis_out = (\<lambda>_. Okay),
     redis_now = (\<lambda>_. 100 * second), wall = (\<lambda>_. 100 * second),
     rand = (\<lambda>n k. replicate k (of_nat n)), uni_lower = (\<lambda>s. s), uni_fold = (\<lambda>c. c),
     bcrypt_hash = (\<lambda>p c. if length p \<le> 72 then Some (CHR ''$'' # p) else None),
     bcrypt_ok = (\<lambda>h p. h = CHR ''$'' # p), valid_email = (\<lambda>s. CHR ''@'' \<in> set s),
     jwt_parts = (\<lambda>t. if t = ''tok'' then Some (''k1'', demo_claims) else None),
     jwt_signed = (\<lambda>t key. t = ''tok'' \<and> key = ''secret''),
     jwt_claims_ok = (\<lambda>n ex c. True), jwt_sign = (\<lambda>kid key c. ''tok''),
     db_text = (\<lambda>_. ''db''), redis_text = (\<lambda>_. ''redis''), zone_offset = (\<lambda>_. 0)\<rparr>"

lemma demo_sys_simps [simp]:
  "senv demo_sys = demo_env" "keying demo_sys = PerKey" "redis_out demo_sys n = Okay"
  "redis_now demo_sys n = 100 * second" "wall demo_sys n = 100 * second"
  "rand demo_sys n k = replicate k (of_nat n)"
  "bcrypt_hash demo_sys p c = (if length p \<le> 72 then Some (CHR ''$'' # p) else None)"
  "bcrypt_ok demo_sys h p \<longleftrightarrow> h = CHR ''$'' # p" "valid_email demo_sys s \<longleftrightarrow> CHR ''@'' \<in> set s"
  "jwt_parts demo_sys t = (if t = ''tok'' then Some (''k1'', demo_claims) else None)"
  "jwt_signed demo_sys t key \<longleftrightarrow> t = ''tok'' \<and> key = ''secret''"
  "jwt_claims_ok demo_sys tm ex cl" "jwt_sign demo_sys kid key cl = ''tok''"
  "db_text demo_sys er = ''db''" "uni_lower demo_sys s = s"
  "zone_offset demo_sys u = 0"
  by (simp_all add: demo_sys_def)

definition world_on :: "tables \<Rightarrow> world" where
  "world_on t = \<lparr>wdb = \<lparr>tick = 0, tabs = t\<rparr>, wr = new_writer, rds = \<lparr>r_tick = 0, r_keys = Map.empty\<rparr>,
     logs = [], observed = [], failed_logins = 0, clock = 0, drawn = 0\<rparr>"

lemma world_on_simps [simp]:
  "wdb (world_on t) = \<lparr>tick = 0, tabs = t\<rparr>" "wr (world_on t) = new_writer"
  "rds (world_on t) = \<lparr>r_tick = 0, r_keys = Map.empty\<rparr>" "logs (world_on t) = []"
  "clock (world_on t) = 0" "drawn (world_on t) = 0" "failed_logins (world_on t) = 0"
  "observed (world_on t) = []"
  by (simp_all add: world_on_def)

lemma new_writer_simps [simp]:
  "w_sent new_writer = None" "w_body new_writer = []" "w_hdr new_writer = Map.empty"
  "w_taps new_writer = []"
  by (simp_all add: new_writer_def)

definition bare_req :: req where
  "bare_req = \<lparr>rq_method = ''GET'', rq_path = ''/'', rq_headers = Map.empty, rq_query = Map.empty,
     rq_param = Map.empty, rq_body = [], rq_broken = False, rq_length = 0,
     rq_remote = ''10.0.0.1:5000'', rq_uid = None\<rparr>"

lemma bare_req_simps [simp]:
  "rq_headers bare_req = Map.empty" "rq_query bare_req = Map.empty" "rq_param bare_req = Map.empty"
  "rq_body bare_req = []" "rq_broken bare_req = False" "rq_uid bare_req = None"
  "rq_remote bare_req = ''10.0.0.1:5000''" "rq_method bare_req = ''GET''" "rq_path bare_req = ''/''"
  by (simp_all add: bare_req_def)

text \<open>A request of user 7 for the note 1, with a JSON body that sets title and body.\<close>

definition note_body :: "string \<Rightarrow> string \<Rightarrow> string" where
  "note_body t b = marshal (JObj [(''Title'', JStr t), (''Body'', JStr b)])"

definition note_req :: "string \<Rightarrow> req" where
  "note_req body = bare_req\<lparr>rq_uid := Some 7, rq_param := [''id'' \<mapsto> ''1''], rq_body := body\<rparr>"

lemma note_req_simps [simp]:
  "rq_headers (note_req b) = Map.empty" "rq_query (note_req b) = Map.empty"
  "rq_param (note_req b) = [''id'' \<mapsto> ''1'']" "rq_body (note_req b) = b" "rq_uid (note_req b) = Some 7"
  "rq_broken (note_req b) = False"
  by (simp_all add: note_req_def)

lemma parse_one [simp]: "parse_int ''1'' = (1, None)"
proof -
  have "format_int 1 = ''1''" by code_simp
  then show ?thesis using parse_format_int [of 1] by (simp add: in_i64_def max_i64_def min_i64_def)
qed

lemma header_None [simp]: "rq_headers r = Map.empty \<Longrightarrow> header r k = []"
  by (simp add: header_def get_or_empty_def)

end
