(* ===== verification/Notes_Http.thy ===== *)
theory Notes_Http
  imports Notes_Handler Demo_Http
begin

text \<open>
  What the notes handlers answer: reads and conditional reads, creation, the entity tags and
  what they miss, and updates and deletions with an idempotency key.
\<close>

section \<open>Library\<close>

lemma Notes_Get_unfold:
  "Notes_Get e uid i d =
     (if out e (tick d) = Okay
      then (case List.find (visible uid i) (notes_of d) of None \<Rightarrow> Inl NoRows | Some x \<Rightarrow> Inr x)
      else Inl Fault, d\<lparr>tick := Suc (tick d)\<rparr>)"
  by (simp add: Notes_Get_def query_row_unfold sel_note_def)

text \<open>A response that carries a body text, and one that only says it is not modified.\<close>

definition answered :: "string \<Rightarrow> world \<Rightarrow> world \<Rightarrow> bool" where
  "answered s w w' \<longleftrightarrow> status_of (wr w') = 200 \<and> w_body (wr w') = w_body (wr w) @ s"

definition refused :: "int \<Rightarrow> world \<Rightarrow> world \<Rightarrow> bool" where
  "refused c w w' \<longleftrightarrow> status_of (wr w') = c \<and> tabs (wdb w') = tabs (wdb w)"

lemma cache_headers_simps [simp]:
  "w_sent (cache_headers t w) = w_sent w" "w_body (cache_headers t w) = w_body w"
  "w_hdr (cache_headers t w) ''ETag'' = Some t"
  by (simp_all add: cache_headers_def set_hdr_def)

section \<open>Reading\<close>

lemma notes_get_on:
  assumes "w_sent (wr w) = None"
  shows "tabs (wdb (snd (notes_get S r w))) = tabs (wdb w) \<and>
    (case parse_int (url_param r ''id'') of
       (_, Some _) \<Rightarrow> status_of (wr (snd (notes_get S r w))) = 400
     | (i, None) \<Rightarrow>
        (case (out (senv S) (tick (wdb w)),
               List.find (visible (user_of r) i) (notes_of (wdb w))) of
           (Okay, Some n) \<Rightarrow>
             if not_modified r (noteETag n)
             then status_of (wr (snd (notes_get S r w))) = 304 \<and>
               w_body (wr (snd (notes_get S r w))) = w_body (wr w)
             else answered (encode_line (note_json n)) w (snd (notes_get S r w)) \<and>
               sent_header (wr (snd (notes_get S r w))) ''ETag'' = Some (noteETag n)
         | _ \<Rightarrow> status_of (wr (snd (notes_get S r w))) = 404))"
  using assms
  by (auto simp: notes_get_def on_db_eq Notes_Get_unfold fail_def answer_def answered_def Let_def
      status_unsent split: prod.splits option.splits outcome.splits)

text \<open>
  Reading a note, on every branch: an id that is no 64-bit decimal is 400; without a
  visible note of this user, or without an answer of the database, 404; with the note, 304 and
  no body if the client's tag matches, otherwise 200 with the tag and the note as JSON. No
  branch changes a table.
\<close>

theorem get_note_answers:
  assumes "w_sent (wr w) = None"
  shows "tabs (wdb (snd (notes_get S r w))) = tabs (wdb w) \<and>
    (case parse_int (url_param r ''id'') of
       (_, Some _) \<Rightarrow> status_of (wr (snd (notes_get S r w))) = 400
     | (i, None) \<Rightarrow>
        (case (out (senv S) (tick (wdb w)),
               List.find (visible (user_of r) i) (notes_of (wdb w))) of
           (Okay, Some n) \<Rightarrow>
             if not_modified r (noteETag n)
             then status_of (wr (snd (notes_get S r w))) = 304 \<and>
               w_body (wr (snd (notes_get S r w))) = w_body (wr w)
             else answered (encode_line (note_json n)) w (snd (notes_get S r w)) \<and>
               sent_header (wr (snd (notes_get S r w))) ''ETag'' = Some (noteETag n)
         | _ \<Rightarrow> status_of (wr (snd (notes_get S r w))) = 404))"
  using assms by (rule notes_get_on)

theorem get_note_answers_witness:
  "answered (encode_line (note_json (new_note 1 7 ''a'' ''x'' 50))) (world_on demo_notes)
     (snd (notes_get demo_sys (note_req []) (world_on demo_notes)))"
proof -
  have "w_sent (wr (world_on demo_notes)) = None" by simp
  from conjunct2 [OF get_note_answers [OF this, of demo_sys "note_req []"]] show ?thesis
    by (simp add: url_param_def get_or_empty_def user_of_def demo_notes_def visible_def new_note_def
        not_modified_def header_def)
qed

section \<open>Entity tags that miss changes\<close>

lemma max_id_cong: "map n_id items = map n_id items' \<Longrightarrow> max_id items = max_id items'"
proof -
  have "max_id xs = fold (\<lambda>i m. if i > m then i else m) (map n_id xs) 0" for xs
    unfolding max_id_def by (simp add: fold_map o_def)
  then show "map n_id items = map n_id items' \<Longrightarrow> max_id items = max_id items'" by simp
qed

text \<open>
  The tag of a listing depends on the ids alone: when the same ids are listed again, a client
  that revalidates with the tag it was given is told 304 with an empty body, however titles and
  bodies have changed meanwhile.
\<close>

theorem stale_listing_not_modified:
  assumes "fst (Notes_ListFiltered (senv S) (user_of r) (page_param r) (size_param r)
      (query_param r ''q'') (query_param r ''sort'') (wdb w)) = Inr (items', cnt)"
    and "map n_id items' = map n_id items"
    and "header r ''If-None-Match'' =
      collETag S (page_param r) (size_param r) (query_param r ''q'') (query_param r ''sort'') items"
    and "w_sent (wr w) = None"
  shows "status_of (wr (snd (notes_list S r w))) = 304 \<and>
    w_body (wr (snd (notes_list S r w))) = w_body (wr w)"
proof -
  let ?tag = "collETag S (page_param r) (size_param r) (query_param r ''q'') (query_param r ''sort'')"
  have tag: "?tag items' = ?tag items"
    using max_id_cong [OF assms(2)] map_eq_imp_length_eq [OF assms(2)] by (simp add: collETag_def)
  moreover have "?tag items \<noteq> []" by (simp add: collETag_def Let_def)
  ultimately have "not_modified r (?tag items')" using assms(3) by (simp add: not_modified_def)
  with assms(1,4) show ?thesis
    by (simp add: notes_list_def on_db_eq Let_def)
qed

theorem stale_listing_not_modified_witness:
  "status_of (wr (snd (notes_list demo_sys
      (note_req []\<lparr>rq_headers := [''If-None-Match'' \<mapsto>
         collETag demo_sys 1 20 [] [] [new_note 4 7 ''d'' ''z'' 50, new_note 2 7 ''b'' ''y'' 50, new_note 1 7 ''a'' ''x'' 50]]\<rparr>)
      (world_on (snd (the (upd_note_text demo_env 7 1 ''changed'' ''x'' 0 demo_notes))))))) = 304"
proof -
  let ?items = "[new_note 4 7 ''d'' ''z'' 50, new_note 2 7 ''b'' ''y'' 50, new_note 1 7 ''a'' ''x'' 50]"
  let ?r = "note_req []\<lparr>rq_headers := [''If-None-Match'' \<mapsto> collETag demo_sys 1 20 [] [] ?items]\<rparr>"
  let ?t = "snd (the (upd_note_text demo_env 7 1 ''changed'' ''x'' 0 demo_notes))"
  have zero: "parse_int [] = (0, Some ErrSyntax)"
    by (simp add: parse_int_def parse_uint_def has_prefix_def)
  have params: "page_param ?r = 1" "size_param ?r = 20" "query_param ?r k = []" "user_of ?r = 7" for k
    by (simp_all add: page_param_def size_param_def query_param_def get_or_empty_def zero user_of_def)
  have listing: "fst (Notes_ListFiltered demo_env 7 1 20 [] [] (wdb (world_on ?t))) =
      Inr ([new_note 4 7 ''d'' ''z'' 50, new_note 2 7 ''b'' ''y'' 50,
        edit_note ''changed'' ''x'' 100 (new_note 1 7 ''a'' ''x'' 50)], 3)"
    by (simp add: note_eval demo_notes_def listed_def page_offset_def i64_id in_i64_def min_i64_def
        max_i64_def sanitizeSort_def order_by_frags sort_by_def page_of_def)
  have "status_of (wr (snd (notes_list demo_sys ?r (world_on ?t)))) = 304 \<and>
      w_body (wr (snd (notes_list demo_sys ?r (world_on ?t)))) = w_body (wr (world_on ?t))"
  proof (rule stale_listing_not_modified [where items = ?items])
    show "fst (Notes_ListFiltered (senv demo_sys) (user_of ?r) (page_param ?r) (size_param ?r)
        (query_param ?r ''q'') (query_param ?r ''sort'') (wdb (world_on ?t))) =
      Inr ([new_note 4 7 ''d'' ''z'' 50, new_note 2 7 ''b'' ''y'' 50,
        edit_note ''changed'' ''x'' 100 (new_note 1 7 ''a'' ''x'' 50)], 3)"
      by (simp only: params demo_sys_simps listing)
    show "header ?r ''If-None-Match'' = collETag demo_sys (page_param ?r) (size_param ?r)
        (query_param ?r ''q'') (query_param ?r ''sort'') ?items"
      by (simp only: params) (simp add: header_def get_or_empty_def)
  qed (simp_all add: new_note_def)
  then show ?thesis by blast
qed

text \<open>
  The tag of a note does not determine its content: the separator between title and body may
  occur in the title, so two different contents of one note have the same tag when they were
  stored in the same second.
\<close>

theorem note_tag_ambiguous:
  "noteETag (new_note i uid (t @ ''|'' @ b) c tm) = noteETag (new_note i uid t (b @ ''|'' @ c) tm) \<and>
   (new_note i uid (t @ ''|'' @ b) c tm \<noteq> new_note i uid t (b @ ''|'' @ c) tm)"
  by (simp add: noteETag_def new_note_def)

section \<open>Creating\<close>

lemma Notes_Create_unfold:
  "out e (tick d) = Okay \<Longrightarrow>
   Notes_Create e uid title body d =
     (if auto_id e (tick d) \<in> n_id ` set (notes_of d) then (Inl Duplicate, d\<lparr>tick := Suc (tick d)\<rparr>)
      else (Inr (auto_id e (tick d)), \<lparr>tick = Suc (tick d),
        tabs = (tabs d)\<lparr>note_rows := notes_of d @
          [new_note (auto_id e (tick d)) uid title body (now e (tick d))]\<rparr>\<rparr>))"
  by (cases d) (simp add: Notes_Create_def exec_def ins_note_def Let_def)

lemma notes_create_on:
  assumes "w_sent (wr w) = None" and "\<And>n. out (senv S) n = Okay"
    and "auto_id (senv S) (tick (wdb w)) \<notin> n_id ` set (notes_of (wdb w))"
  shows "case decode_note (rq_broken r) (rq_body r) of
      None \<Rightarrow> refused 400 w (snd (notes_create S r w))
    | Some (title, body) \<Rightarrow>
        if trim_space title = [] then refused 400 w (snd (notes_create S r w))
        else
          let n = new_note (auto_id (senv S) (tick (wdb w))) (user_of r) (trim_space title) body
                    (now (senv S) (tick (wdb w)))
          in answered (encode_line (note_json n)) w (snd (notes_create S r w)) \<and>
            notes_of (wdb (snd (notes_create S r w))) = notes_of (wdb w) @ [n] \<and>
            sent_header (wr (snd (notes_create S r w))) ''ETag'' = Some (noteETag n)"
proof -
  let ?i = "auto_id (senv S) (tick (wdb w))"
  have "List.find (visible (user_of r) ?i) (notes_of (wdb w)) = None"
    using assms(3) by (force simp: find_None_conv visible_def)
  then have find: "List.find (visible (user_of r) ?i)
      (notes_of (wdb w) @ [new_note ?i (user_of r) t b tm]) = Some (new_note ?i (user_of r) t b tm)"
    for t b tm by (simp add: find_append visible_def new_note_def)
  show ?thesis
    using assms find
    by (simp add: notes_create_def on_db_eq Notes_Create_unfold Notes_Get_unfold fail_def answer_def
        answered_def refused_def status_unsent Let_def
        split: option.splits prod.splits)
qed

text \<open>
  Creating a note: a body that is no JSON object of the right shape, or a title that is blank
  after trimming, is 400 and stores nothing; otherwise, when the database answers and the id is
  fresh, one row is stored, with the trimmed title and the body as sent, and the answer is 200
  with that note as JSON and its tag.
\<close>

theorem create_note_answers:
  assumes "w_sent (wr w) = None" and "\<And>n. out (senv S) n = Okay"
    and "auto_id (senv S) (tick (wdb w)) \<notin> n_id ` set (notes_of (wdb w))"
  shows "case decode_note (rq_broken r) (rq_body r) of
      None \<Rightarrow> refused 400 w (snd (notes_create S r w))
    | Some (title, body) \<Rightarrow>
        if trim_space title = [] then refused 400 w (snd (notes_create S r w))
        else
          let n = new_note (auto_id (senv S) (tick (wdb w))) (user_of r) (trim_space title) body
                    (now (senv S) (tick (wdb w)))
          in answered (encode_line (note_json n)) w (snd (notes_create S r w)) \<and>
            notes_of (wdb (snd (notes_create S r w))) = notes_of (wdb w) @ [n] \<and>
            sent_header (wr (snd (notes_create S r w))) ''ETag'' = Some (noteETag n)"
  using assms by (rule notes_create_on)

lemma decode_demo: "decode_note False (note_body ''a'' ''x'') = Some (''a'', ''x'')"
  by code_simp

lemma decode_blank: "decode_note False (note_body '' '' ''x'') = Some ('' '', ''x'')"
  by code_simp

lemma trim_samples: "trim_space ''a'' = ''a''" "trim_space '' '' = []"
proof -
  show "trim_space ''a'' = ''a''" by code_simp
  have "[CHR 0x20] \<in> set space_seqs" by (simp add: space_seqs_def)
  from trim_space_unit_left [OF this, of "[]"] have "trim_space '' '' = trim_space []"
    by (simp only: append_Nil2)
  also have "trim_space [] = []"
    by (simp add: trim_space_def trim_left_def trim_right_def)
  finally show "trim_space '' '' = []" .
qed

theorem create_note_answers_witness:
  "notes_of (wdb (snd (notes_create demo_sys (note_req (note_body ''a'' ''x'')) (world_on empty_tables)))) =
   [new_note 1 7 ''a'' ''x'' 100]"
proof -
  have "w_sent (wr (world_on empty_tables)) = None" by simp
  from create_note_answers [OF this, of demo_sys "note_req (note_body ''a'' ''x'')"] show ?thesis
    by (simp add: decode_demo trim_samples user_of_def Let_def)
qed

text \<open>
  Updating does not have the check that creating has: a blank title is stored, as the empty
  title, and answered with 200.
\<close>

theorem update_accepts_blank_title:
  assumes "w_sent (wr w) = None" and "\<And>n. out (senv S) n = Okay"
    and "header r ''Idempotency-Key'' = []" and "parse_int (url_param r ''id'') = (i, None)"
    and "decode_note (rq_broken r) (rq_body r) = Some (title, body)" and "trim_space title = []"
    and "List.find (visible (user_of r) i) (notes_of (wdb w)) = Some n"
  shows "status_of (wr (snd (notes_update S r w))) = 200 \<and>
    shelf_of (tabs (wdb (snd (notes_update S r w)))) (user_of r) i = Some ([], body)"
proof -
  let ?d = "wdb w"
  have upd: "Notes_Update (senv S) (user_of r) i [] body ?d =
      (Inr (edit_note [] body (now (senv S) (tick ?d)) n),
       \<lparr>tick = tick ?d + 2, tabs = (tabs ?d)\<lparr>note_rows :=
          upd_visible (user_of r) i (edit_note [] body (now (senv S) (tick ?d))) (notes_of ?d)\<rparr>\<rparr>)"
  proof -
    let ?f = "edit_note [] body (now (senv S) (tick ?d))"
    have "List.find (visible (user_of r) i) (upd_visible (user_of r) i ?f (notes_of ?d)) = Some (?f n)"
      using assms(7) find_SomeD [OF assms(7)]
      unfolding upd_visible_def by (subst find_map_same) (auto simp: visible_def)
    then show ?thesis
      using assms(2) by (simp add: Notes_Update_def exec_def upd_note_text_def Notes_Get_unfold Let_def)
  qed
  have "view (notes_of ?d) (user_of r) i \<noteq> None"
    using assms(7) by (simp add: view_def)
  then have "shelf_of ((tabs ?d)\<lparr>note_rows := upd_visible (user_of r) i
      (edit_note [] body (now (senv S) (tick ?d))) (notes_of ?d)\<rparr>) (user_of r) i = Some ([], body)"
    by (simp add: shelf_of_view view_edit)
  with assms upd show ?thesis
    by (simp add: notes_update_def on_db_eq finish_note_def answer_def Let_def status_unsent)
qed

theorem update_accepts_blank_title_witness:
  "shelf_of (tabs (wdb (snd (notes_update demo_sys (note_req (note_body '' '' ''x''))
     (world_on demo_notes))))) 7 1 = Some ([], ''x'')"
proof -
  let ?r = "note_req (note_body '' '' ''x'')"
  have find: "List.find (visible (user_of ?r) 1) (notes_of (wdb (world_on demo_notes))) =
      Some (new_note 1 7 ''a'' ''x'' 50)"
    by (simp add: user_of_def demo_notes_def visible_def new_note_def)
  have "status_of (wr (snd (notes_update demo_sys ?r (world_on demo_notes)))) = 200 \<and>
      shelf_of (tabs (wdb (snd (notes_update demo_sys ?r (world_on demo_notes))))) (user_of ?r) 1 =
        Some ([], ''x'')"
    by (rule update_accepts_blank_title [where title = "'' ''", OF _ _ _ _ _ _ find])
      (simp_all add: url_param_def get_or_empty_def decode_blank trim_samples)
  then show ?thesis by (simp add: user_of_def)
qed

end
