(* ===== verification/Notes_Replay.thy ===== *)
theory Notes_Replay
  imports Notes_Http
begin

text \<open>
  Updates with an idempotency key: what a repeated request is answered, what the key does not
  bind, and what happens to a key whose first request failed.
\<close>

section \<open>Library\<close>

lemma claim_first_replay:
  assumes "replays (senv S) ((key, user_of r), (h, s)) (wdb w)" and "\<And>n. out (senv S) n = Okay"
    and "w_sent (wr w) = None"
  shows "\<exists>w'. fst (claim_first S key verb i h r w) = Some (Returned, w') \<and> answered s w w' \<and>
    tabs (wdb w') = tabs (wdb w)"
  using assms
  by (simp add: claim_first_def on_db_eq Idem_Claim_replays answer_def answered_def status_unsent)

lemma claim_first_granted:
  assumes "grants (keying S) (senv S) (verb, note_path i, h) (key, user_of r) (wdb w)"
  shows "claim_first S key verb i h r w =
    (None, w\<lparr>wdb := snd (Idem_Claim (keying S) (senv S) key (user_of r) verb (note_path i) h (wdb w))\<rparr>)"
  using assms by (auto simp: grants_def claim_first_def on_db_eq split: prod.splits)

lemma free_key_grants:
  assumes "\<not> key_taken sc e (key, uid) d" and "\<And>n. out e n = Okay"
  shows "grants sc e (verb, url, h) (key, uid) d"
  using assms by (simp add: grants_def key_taken_def Idem_Claim_unfold Let_def)

lemma Idem_Complete_ok:
  "out e (tick d) = Okay \<Longrightarrow> fst (Idem_Complete e key uid res d) = None"
  by (simp add: Idem_Complete_def exec_def upd_result_def Let_def)

lemma finish_note_keyed:
  assumes "key \<noteq> []" and "out (senv S) (tick (wdb w)) = Okay" and "w_sent (wr w) = None"
  shows "fst (finish_note S key n r w) = Returned \<and>
    answered (marshal (note_json n)) w (snd (finish_note S key n r w)) \<and>
    wdb (snd (finish_note S key n r w)) =
      snd (Idem_Complete (senv S) key (user_of r) (marshal (note_json n)) (wdb w))"
  using assms
  by (simp add: finish_note_def on_db_eq answer_def answered_def status_unsent Let_def)

section \<open>Properties\<close>

text \<open>
  C20. A keyed update runs once: while the database answers every call, the first request with a free
  key whose update succeeds changes the note and is answered with it; a later request of the same
  user with the same key and body, for whatever note id its path names, whatever others do
  with their keys in between and whatever happens to the other tables, is answered with the very
  same text and changes no table.
\<close>

theorem keyed_update_runs_once:
  assumes ok: "\<And>n. out (senv S) n = Okay"
    and first: "header r ''Idempotency-Key'' = key" "key \<noteq> []"
      "parse_int (url_param r ''id'') = (i, None)"
      "decode_note False (raw_body r) = Some (title, body)" "w_sent (wr w) = None"
      "\<not> key_taken (keying S) (senv S) (key, user_of r) (wdb w)"
      "fst (Notes_Update (senv S) (user_of r) i (trim_space title) body
         (snd (Idem_Claim (keying S) (senv S) key (user_of r) ''PUT'' (note_path i)
            (body_hash (raw_body r)) (wdb w)))) = Inr n"
    and second: "header r' ''Idempotency-Key'' = key" "user_of r' = user_of r"
      "parse_int (url_param r' ''id'') = (j, None)" "raw_body r' = raw_body r"
      "w_sent (wr w') = None"
      "idem_rows (tabs (wdb w')) =
         idem_rows (tabs (fold (idem_step (keying S) (senv S)) ops (wdb (snd (notes_update S r w)))))"
  shows "answered (marshal (note_json n)) w (snd (notes_update S r w)) \<and>
    notes_of (wdb (snd (notes_update S r w))) =
      upd_visible (user_of r) i (edit_note (trim_space title) body (now (senv S) (tick (wdb w) + 3)))
        (notes_of (wdb w)) \<and>
    answered (marshal (note_json n)) w' (snd (notes_update S r' w')) \<and>
    tabs (wdb (snd (notes_update S r' w'))) = tabs (wdb w')"
proof -
  let ?e = "senv S" and ?h = "body_hash (raw_body r)" and ?s = "marshal (note_json n)"
  let ?d1 = "snd (Idem_Claim (keying S) ?e key (user_of r) ''PUT'' (note_path i) ?h (wdb w))"
  let ?upd = "Notes_Update ?e (user_of r) i (trim_space title) body ?d1"
  let ?fin = "finish_note S key n r (w\<lparr>wdb := snd ?upd\<rparr>)"
  have grant: "grants (keying S) ?e (''PUT'', note_path i, ?h) (key, user_of r) (wdb w)"
    using free_key_grants [OF first(6) ok] .
  have run: "notes_update S r w = ?fin"
    using first claim_first_granted [OF grant] by (simp add: notes_update_def on_db_eq Let_def)
  have fin: "answered ?s (w\<lparr>wdb := snd ?upd\<rparr>) (snd ?fin)"
    "wdb (snd ?fin) = snd (Idem_Complete ?e key (user_of r) ?s (snd ?upd))"
    using finish_note_keyed [of key S "w\<lparr>wdb := snd ?upd\<rparr>" n r] first(2,5) ok by simp_all
  have "Idem_Complete ?e key (user_of r) ?s (snd ?upd) = (None, wdb (snd ?fin))"
    using Idem_Complete_ok [OF ok] fin(2) by (simp add: prod_eq_iff)
  then have "replays ?e ((key, user_of r), (?h, ?s)) (wdb (snd ?fin))"
    by (intro completed_replays [OF grant]) (simp_all add: frame ok)
  then have "replays ?e ((key, user_of r), (?h, ?s))
      (fold (idem_step (keying S) ?e) ops (wdb (snd (notes_update S r w))))"
    unfolding run by (rule idem_replay.spent_history [OF _ no_mints])
  then have rep: "replays ?e ((key, user_of r'), (?h, ?s)) (wdb w')"
    using second(2,6) by (simp add: replays_def)
  from claim_first_replay [OF rep ok second(5)] obtain w2
    where "fst (claim_first S key ''PUT'' j ?h r' w') = Some (Returned, w2)"
      "answered ?s w' w2" "tabs (wdb w2) = tabs (wdb w')" by blast
  moreover have "notes_update S r' w' = (Returned, w2)"
    using calculation first(1-4) second
    by (cases "claim_first S key ''PUT'' j ?h r' w'") (simp add: notes_update_def Let_def)
  moreover have "tick ?d1 = tick (wdb w) + 3"
    using grant ok by (auto simp: grants_def Idem_Claim_unfold Let_def claim_answer_def
        split: if_splits option.splits)
  then have "notes_of (wdb (snd ?fin)) =
      upd_visible (user_of r) i (edit_note (trim_space title) body (now ?e (tick (wdb w) + 3))) (notes_of (wdb w))"
    unfolding fin(2) using ok
    by (simp add: frame Notes_Update_def Notes_Get_def exec_def query_row_unfold upd_note_text_def
        split: option.splits)
  ultimately show ?thesis
    using fin(1) run by (simp add: answered_def)
qed

definition keyed_req :: "string \<Rightarrow> string \<Rightarrow> string \<Rightarrow> req" where
  "keyed_req i key body = bare_req\<lparr>rq_uid := Some 7, rq_param := [''id'' \<mapsto> i],
     rq_headers := [''Idempotency-Key'' \<mapsto> key], rq_body := body\<rparr>"

lemma keyed_req_simps [simp]:
  "header (keyed_req i key body) ''Idempotency-Key'' = key" "user_of (keyed_req i key body) = 7"
  "url_param (keyed_req i key body) ''id'' = i" "raw_body (keyed_req i key body) = take (2 ^ 20) body"
  by (simp_all add: keyed_req_def header_def get_or_empty_def user_of_def url_param_def raw_body_def)

lemma decode_demo_raw: "decode_note False (take (2 ^ 20) (note_body ''a'' ''x'')) = Some (''a'', ''x'')"
proof -
  have "length (note_body ''a'' ''x'') \<le> 2 ^ 20"
  proof -
    have "length (note_body ''a'' ''x'') < 100" by code_simp
    then show ?thesis by simp
  qed
  then show ?thesis by (simp only: take_all decode_demo)
qed

lemma parse_two [simp]: "parse_int ''2'' = (2, None)"
proof -
  have "format_int 2 = ''2''" by code_simp
  then show ?thesis using parse_format_int [of 2] by (simp add: in_i64_def max_i64_def min_i64_def)
qed

theorem keyed_update_runs_once_witness:
  "answered (marshal (note_json (new_note 1 7 ''a'' ''x'' 50)))
     ((world_on demo_notes)\<lparr>wdb := wdb (snd (notes_update demo_sys
        (keyed_req ''1'' ''k'' (note_body ''a'' ''x'')) (world_on demo_notes)))\<rparr>)
     (snd (notes_update demo_sys (keyed_req ''2'' ''k'' (note_body ''a'' ''x''))
        ((world_on demo_notes)\<lparr>wdb := wdb (snd (notes_update demo_sys
           (keyed_req ''1'' ''k'' (note_body ''a'' ''x'')) (world_on demo_notes)))\<rparr>)))"
proof -
  let ?r = "keyed_req ''1'' ''k'' (note_body ''a'' ''x'')"
  let ?r' = "keyed_req ''2'' ''k'' (note_body ''a'' ''x'')"
  let ?w' = "(world_on demo_notes)\<lparr>wdb := wdb (snd (notes_update demo_sys ?r (world_on demo_notes)))\<rparr>"
  have upd: "fst (Notes_Update demo_env 7 1 ''a'' ''x'' (snd (Idem_Claim PerKey demo_env ''k'' 7 ''PUT''
      (note_path 1) h (wdb (world_on demo_notes))))) = Inr (new_note 1 7 ''a'' ''x'' 50)" for h
    by (simp add: Idem_Claim_unfold Let_def note_eval demo_notes_def)
  have "answered (marshal (note_json (new_note 1 7 ''a'' ''x'' 50))) (world_on demo_notes)
      (snd (notes_update demo_sys ?r (world_on demo_notes))) \<and>
    notes_of (wdb (snd (notes_update demo_sys ?r (world_on demo_notes)))) =
      upd_visible (user_of ?r) 1 (edit_note (trim_space ''a'') ''x'' (now (senv demo_sys) (tick (wdb (world_on demo_notes)) + 3)))
        (notes_of (wdb (world_on demo_notes))) \<and>
    answered (marshal (note_json (new_note 1 7 ''a'' ''x'' 50))) ?w'
      (snd (notes_update demo_sys ?r' ?w')) \<and>
    tabs (wdb (snd (notes_update demo_sys ?r' ?w'))) = tabs (wdb ?w')"
    by (rule keyed_update_runs_once [where i = 1 and j = 2 and ops = "[]" and title = "''a''" and
          body = "''x''" and key = "''k''"])
      (simp_all only: keyed_req_simps parse_one parse_two decode_demo_raw trim_samples demo_sys_simps
        upd demo_env_simps, simp_all add: key_taken_def demo_notes_def)
  then show ?thesis by blast
qed

text \<open>
  A keyed update that fails keeps its key: when the note is not there, the request is answered
  with 404, the key stays claimed, and every later request with that key and body is answered
  with 409 and Retry-After, although nothing is in progress, until somebody else completes it.
\<close>

theorem failed_update_blocks_key:
  assumes ok: "\<And>n. out (senv S) n = Okay"
    and first: "header r ''Idempotency-Key'' = key" "key \<noteq> []"
      "parse_int (url_param r ''id'') = (i, None)"
      "decode_note False (raw_body r) = Some (title, body)" "w_sent (wr w) = None"
      "\<not> key_taken (keying S) (senv S) (key, user_of r) (wdb w)"
      "List.find (visible (user_of r) i) (notes_of (wdb w)) = None"
    and second: "header r' ''Idempotency-Key'' = key" "user_of r' = user_of r"
      "parse_int (url_param r' ''id'') = (j, None)" "raw_body r' = raw_body r"
      "w_sent (wr w') = None"
      "wdb w' = fold (idem_step (keying S) (senv S)) ops (wdb (snd (notes_update S r w)))"
      "list_all (\<lambda>p. \<not> completes (senv S) p ((key, user_of r), body_hash (raw_body r))) ops"
  shows "status_of (wr (snd (notes_update S r w))) = 404 \<and>
    status_of (wr (snd (notes_update S r' w'))) = 409 \<and>
    sent_header (wr (snd (notes_update S r' w'))) ''Retry-After'' = Some ''2''"
proof -
  let ?e = "senv S" and ?h = "body_hash (raw_body r)"
  let ?d1 = "snd (Idem_Claim (keying S) ?e key (user_of r) ''PUT'' (note_path i) ?h (wdb w))"
  let ?upd = "Notes_Update ?e (user_of r) i (trim_space title) body ?d1"
  have grant: "grants (keying S) ?e (''PUT'', note_path i, ?h) (key, user_of r) (wdb w)"
    using free_key_grants [OF first(6) ok] .
  have "\<not> is_ok (fst ?upd)"
    using first(7) by (intro Notes_Update_missing) (simp add: frame)
  then obtain er where upd: "fst ?upd = Inl er" by (cases "fst ?upd") simp_all
  have run: "notes_update S r w = fail r (App NotFound) (w\<lparr>wdb := snd ?upd\<rparr>)"
    using first claim_first_granted [OF grant] upd by (simp add: notes_update_def on_db_eq Let_def)
  have "pending ?e ((key, user_of r), ?h) ?d1"
    by (rule grant_pending [OF grant]) (simp add: ok)
  then have "pending ?e ((key, user_of r), ?h) (wdb (snd (notes_update S r w)))"
    by (simp add: run fail_def pending_def frame)
  then have "pending ?e ((key, user_of r), ?h) (wdb w')"
    using idem_pending.spent_history second(6,7) by metis
  then have "fst (Idem_Claim (keying S) ?e key (user_of r) ''PUT'' (note_path j) ?h (wdb w')) =
      (None, Some ErrInProgress)"
    by (simp add: pending_claim ok)
  then have "notes_update S r' w' = fail r' (App Conflict) (on_writer (set_hdr ''Retry-After'' ''2'')
      (w'\<lparr>wdb := snd (Idem_Claim (keying S) ?e key (user_of r) ''PUT'' (note_path j) ?h (wdb w'))\<rparr>))"
    using first(1-4) second by (simp add: notes_update_def claim_first_def on_db_eq Let_def)
  with run first(5) second(5) show ?thesis
    by (simp add: fail_def)
qed

theorem failed_update_blocks_key_witness:
  "status_of (wr (snd (notes_update demo_sys (keyed_req ''2'' ''k'' (note_body ''a'' ''x''))
     ((world_on demo_notes)\<lparr>wdb := wdb (snd (notes_update demo_sys
        (keyed_req ''2'' ''k'' (note_body ''a'' ''x'')) (world_on empty_tables)))\<rparr>)))) = 409"
proof -
  let ?r = "keyed_req ''2'' ''k'' (note_body ''a'' ''x'')"
  let ?w' = "(world_on demo_notes)\<lparr>wdb := wdb (snd (notes_update demo_sys ?r (world_on empty_tables)))\<rparr>"
  have "status_of (wr (snd (notes_update demo_sys ?r (world_on empty_tables)))) = 404 \<and>
    status_of (wr (snd (notes_update demo_sys ?r ?w'))) = 409 \<and>
    sent_header (wr (snd (notes_update demo_sys ?r ?w'))) ''Retry-After'' = Some ''2''"
    by (rule failed_update_blocks_key [where i = 2 and j = 2 and ops = "[]" and title = "''a''" and
          body = "''x''" and key = "''k''"])
      (simp_all only: keyed_req_simps parse_two decode_demo_raw demo_sys_simps demo_env_simps,
       simp_all add: key_taken_def)
  then show ?thesis by blast
qed

text \<open>
  Reading, updating and deleting report every failure of the database as 404: with a server
  that refuses the call the client is told that its note does not exist.
\<close>

theorem database_failure_is_not_found:
  assumes "w_sent (wr w) = None" and "parse_int (url_param r ''id'') = (i, None)"
    and "header r ''Idempotency-Key'' = []" and "out (senv S) (tick (wdb w)) = Refused"
  shows "status_of (wr (snd (notes_get S r w))) = 404 \<and>
    status_of (wr (snd (notes_delete S r w))) = 404 \<and>
    (decode_note (rq_broken r) (rq_body r) \<noteq> None \<longrightarrow>
       status_of (wr (snd (notes_update S r w))) = 404)"
  using assms
  by (auto simp: notes_get_def notes_delete_def notes_update_def on_db_eq Notes_Get_unfold
      Notes_Delete_def Notes_Update_def exec_def fail_def Let_def)

theorem database_failure_is_not_found_witness:
  "status_of (wr (snd (notes_get (demo_sys\<lparr>senv := demo_env\<lparr>out := (\<lambda>_. Refused)\<rparr>\<rparr>) (note_req [])
     (world_on demo_notes)))) = 404"
proof -
  let ?S = "demo_sys\<lparr>senv := demo_env\<lparr>out := (\<lambda>_. Refused)\<rparr>\<rparr>"
  have "parse_int (url_param (note_req []) ''id'') = (1, None)"
    by (simp add: url_param_def get_or_empty_def)
  from conjunct1 [OF database_failure_is_not_found [OF _ this, of "world_on demo_notes" ?S]]
  show ?thesis by simp
qed

end
