(* ===== verification/Users_Repo.thy ===== *)
theory Users_Repo
  imports Paging Demo Notes_Repo
begin

text \<open>
  \<open>internal/repos/users.go\<close> over the table \<open>users\<close> (migration 0002) and
  \<open>internal/repos/audit.go\<close> over \<open>audit\_logs\<close> (migration 0006): creating, finding and
  listing users, and listing the audit log.
\<close>

section \<open>The statements\<close>

definition email_taken :: "env \<Rightarrow> string \<Rightarrow> user_row list \<Rightarrow> bool" where
  "email_taken e email us \<longleftrightarrow> list_ex (\<lambda>u. text_eq e (u_email u) email) us"

definition ins_user :: "env \<Rightarrow> string \<Rightarrow> string \<Rightarrow> stmt" where
  "ins_user e email pass n t =
     (let i = auto_id e n
      in if i \<in> u_id ` set (user_rows t) \<or> email_taken e email (user_rows t) then None
         else Some (i, t\<lparr>user_rows := user_rows t @ [\<lparr>u_id = i, u_email = email, u_hash = pass\<rparr>]\<rparr>))"

definition sel_user :: "env \<Rightarrow> string \<Rightarrow> nat \<Rightarrow> tables \<Rightarrow> user_row option" where
  "sel_user e email n t = List.find (\<lambda>u. text_eq e (u_email u) email) (user_rows t)"

definition user_listed :: "env \<Rightarrow> string \<Rightarrow> user_row \<Rightarrow> bool" where
  "user_listed e q u \<longleftrightarrow> (q \<noteq> [] \<longrightarrow> like e (''%'' @ q @ ''%'') (u_email u))"

definition sel_user_count :: "env \<Rightarrow> string \<Rightarrow> nat \<Rightarrow> tables \<Rightarrow> int option" where
  "sel_user_count e q n t = Some (int (length (filter (user_listed e q) (user_rows t))))"

text \<open>\<open>order by id desc limit ? offset ?\<close>; ids are a key, so the order is the only one.\<close>

definition sel_users ::
  "env \<Rightarrow> string \<Rightarrow> int \<Rightarrow> int \<Rightarrow> nat \<Rightarrow> tables \<Rightarrow> (int \<times> string) list option" where
  "sel_users e q lim off n t =
     (if lim < 0 \<or> off < 0 then None
      else Some (page_of (nat lim) (nat off)
        (map (\<lambda>u. (u_id u, u_email u))
          (rev (sort_key u_id (filter (user_listed e q) (user_rows t)))))))"

lemmas user_stmts [sql_defs] =
  ins_user_def sel_user_def sel_user_count_def sel_users_def

section \<open>The operations\<close>

definition Users_Create :: "env \<Rightarrow> string \<Rightarrow> string \<Rightarrow> db \<Rightarrow> (dberr, int) result \<times> db" where
  "Users_Create e email pass d = exec e (ins_user e email pass) d"

definition Users_FindByEmail :: "env \<Rightarrow> string \<Rightarrow> db \<Rightarrow> (dberr, user_row) result \<times> db" where
  "Users_FindByEmail e email d = query_row e (sel_user e email) d"

definition Users_List ::
  "env \<Rightarrow> int \<Rightarrow> int \<Rightarrow> string \<Rightarrow> db \<Rightarrow> (dberr, (int \<times> string) list \<times> int) result \<times> db" where
  "Users_List e page0 sz0 q d =
     (let page = (if page0 < 1 then 1 else page0);
          sz1 = (if sz0 < 1 then 20 else sz0);
          sz = (if sz1 > 100 then 100 else sz1)
      in case query_row e (sel_user_count e q) d of
           (Inl er, d1) \<Rightarrow> (Inl er, d1)
         | (Inr cnt, d1) \<Rightarrow>
     (case query e (sel_users e q sz (page_offset page sz)) d1 of
           (Inl er, d2) \<Rightarrow> (Inl er, d2)
         | (Inr None, d2) \<Rightarrow> (Inl Fault, d2)
         | (Inr (Some rows), d2) \<Rightarrow> (Inr (rows, cnt), d2)))"

lemmas user_ops = Users_Create_def Users_FindByEmail_def Users_List_def

section \<open>The audit log\<close>

text \<open>The bounds are nanoseconds; the driver sends them with microseconds.\<close>

definition micros :: "int \<Rightarrow> int" where
  "micros t = t div 1000 * 1000"

definition audit_between :: "int \<Rightarrow> int \<Rightarrow> audit_row \<Rightarrow> bool" where
  "audit_between lo hi a \<longleftrightarrow>
     micros lo \<le> au_created a * second \<and> au_created a * second \<le> micros hi"

definition sel_audit :: "int \<Rightarrow> int \<Rightarrow> int \<Rightarrow> nat \<Rightarrow> tables \<Rightarrow> audit_row list" where
  "sel_audit lo hi lim n t =
     take (nat lim) (rev (sort_key au_id (filter (audit_between lo hi) (audit_rows t))))"

definition Audit_List ::
  "env \<Rightarrow> int \<Rightarrow> int \<Rightarrow> int \<Rightarrow> db \<Rightarrow> (dberr, audit_row list) result \<times> db" where
  "Audit_List e lo hi limit0 d =
     (let lim = (if limit0 \<le> 0 \<or> limit0 > 1000 then 100 else limit0)
      in query e (sel_audit lo hi lim) d)"

section \<open>One account per address\<close>

definition emails_keyed :: "env \<Rightarrow> tables \<Rightarrow> bool" where
  "emails_keyed e t \<longleftrightarrow> keyed (\<lambda>u. weight e (u_email u)) (user_rows t) \<and> keyed u_id (user_rows t)"

lemma Users_Create_unfold:
  "Users_Create e email pass d =
     (let n = tick d; i = auto_id e n; us = user_rows (tabs d);
          d1 = d\<lparr>tick := Suc n\<rparr>;
          d2 = d1\<lparr>tabs := (tabs d)\<lparr>user_rows := us @ [\<lparr>u_id = i, u_email = email, u_hash = pass\<rparr>]\<rparr>\<rparr>
      in if out e n = Refused then (Inl Fault, d1)
         else if i \<in> u_id ` set us \<or> email_taken e email us
         then (Inl (if out e n = Okay then Duplicate else Fault), d1)
         else (if out e n = Okay then Inr i else Inl Fault, d2))"
  by (simp add: Users_Create_def exec_def ins_user_def Let_def split: outcome.splits)

lemma emails_keyed_create:
  "emails_keyed e (tabs d) \<Longrightarrow> emails_keyed e (tabs (snd (Users_Create e email pass d)))"
  by (auto simp: emails_keyed_def Users_Create_unfold Let_def keyed_snoc email_taken_def
      list_ex_iff text_eq_def)

section \<open>Pages of users\<close>

record user_listing =
  ul_env :: env
  ul_tabs :: tables
  ul_query :: string
  ul_size :: nat
  ul_pages :: nat
  ul_tick :: "nat \<Rightarrow> nat"

definition ul_rows :: "user_listing \<Rightarrow> (int \<times> string) list" where
  "ul_rows s =
     map (\<lambda>u. (u_id u, u_email u)) (filter (user_listed (ul_env s) (ul_query s)) (user_rows (ul_tabs s)))"

definition ul_call :: "user_listing \<Rightarrow> nat \<Rightarrow> (dberr, (int \<times> string) list \<times> int) result" where
  "ul_call s p =
     fst (Users_List (ul_env s) (int p + 1) (int (ul_size s)) (ul_query s)
       \<lparr>tick = ul_tick s p, tabs = ul_tabs s\<rparr>)"

definition ul_fetch :: "user_listing \<Rightarrow> nat \<Rightarrow> (int \<times> string) list" where
  "ul_fetch s p = (case ul_call s p of Inr (rows, _) \<Rightarrow> rows | Inl _ \<Rightarrow> [])"

definition ul_ok :: "user_listing \<Rightarrow> bool" where
  "ul_ok s \<longleftrightarrow> (\<forall>n. out (ul_env s) n = Okay) \<and> keyed u_id (user_rows (ul_tabs s)) \<and>
     1 \<le> ul_size s \<and> ul_size s \<le> 100 \<and> int (ul_pages s) * int (ul_size s) \<le> max_i64"

definition ul_le :: "user_listing \<Rightarrow> int \<times> string \<Rightarrow> int \<times> string \<Rightarrow> bool" where
  "ul_le s a b \<longleftrightarrow> fst b \<le> fst a"

definition ul_sorted :: "user_listing \<Rightarrow> (int \<times> string) list" where
  "ul_sorted s = map (\<lambda>u. (u_id u, u_email u))
     (rev (sort_key u_id (filter (user_listed (ul_env s) (ul_query s)) (user_rows (ul_tabs s)))))"

lemma ul_sorted_props:
  "mset (ul_sorted s) = mset (ul_rows s)" "sorted_wrt (ul_le s) (ul_sorted s)"
proof -
  show "mset (ul_sorted s) = mset (ul_rows s)"
    unfolding ul_sorted_def ul_rows_def by (simp only: mset_map mset_rev mset_sort)
  have "sorted (map u_id (sort_key u_id us))" for us by simp
  then have "sorted_wrt (\<lambda>a b. u_id a \<le> u_id b) (sort_key u_id us)" for us
    by (simp add: sorted_map)
  then show "sorted_wrt (ul_le s) (ul_sorted s)"
    unfolding ul_sorted_def ul_le_def by (simp add: sorted_wrt_map sorted_wrt_rev)
qed

lemma ul_call_eq:
  assumes "ul_ok s" and "p < ul_pages s"
  shows "ul_call s p =
    Inr (page_of (ul_size s) (p * ul_size s) (ul_sorted s), int (length (ul_rows s)))"
proof -
  have "(int p + 1) * int (ul_size s) \<le> int (ul_pages s) * int (ul_size s)"
    using assms(2) by (intro mult_right_mono) simp_all
  also have "\<dots> \<le> max_i64" using assms(1) by (simp add: ul_ok_def)
  finally have "page_offset (int p + 1) (int (ul_size s)) = int (p * ul_size s)"
    using assms(1) by (subst page_offset_exact) (simp_all add: ul_ok_def)
  then show ?thesis
    using assms(1)
    by (simp add: ul_call_def Users_List_def query_row_unfold query_def sel_user_count_def
        sel_users_def ul_ok_def ul_rows_def ul_sorted_def Let_def del: of_nat_mult)
qed

interpretation user_pages: pager ul_ok ul_fetch ul_rows ul_le ul_size ul_pages
proof
  fix s p
  assume ok: "ul_ok s" and p: "p < ul_pages s"
  show "\<exists>arr. mset arr = mset (ul_rows s) \<and> sorted_wrt (ul_le s) arr \<and>
      ul_fetch s p = page_of (ul_size s) (p * ul_size s) arr"
    using ul_call_eq [OF ok p] ul_sorted_props by (auto simp: ul_fetch_def)
next
  fix s x y
  assume ok: "ul_ok s" and xy: "x \<in> set (ul_rows s)" "y \<in> set (ul_rows s)" "ul_le s x y" "ul_le s y x"
  then obtain u v where "u \<in> set (user_rows (ul_tabs s))" "v \<in> set (user_rows (ul_tabs s))"
    "x = (u_id u, u_email u)" "y = (u_id v, u_email v)" "u_id u = u_id v"
    by (auto simp: ul_rows_def ul_le_def)
  then show "x = y"
    using ok keyed_unique [of u_id "user_rows (ul_tabs s)" u v] by (simp add: ul_ok_def)
qed

section \<open>Properties\<close>

text \<open>
  One account per address: no history of registrations, however the calls fail, stores two
  users whose addresses the collation identifies, or two users with one id.
\<close>

theorem one_account_per_address:
  assumes "emails_keyed e (tabs d)"
  shows "emails_keyed e (tabs (fold (\<lambda>(email, pass) d. snd (Users_Create e email pass d)) accounts d))"
  using assms by (induction accounts arbitrary: d) (auto simp: emails_keyed_create)

theorem one_account_per_address_witness:
  "emails_keyed demo_env (tabs (fold (\<lambda>(email, pass) d. snd (Users_Create demo_env email pass d))
     [(''a'', ''p''), (''a'', ''q'')] empty_db))"
  by (rule one_account_per_address) (simp add: emails_keyed_def)

text \<open>
  The pages of the user list partition it: fetched one by one, they hold every matching user
  exactly once, newest first, and every call reports the same total.
\<close>

theorem user_pages_partition:
  assumes "ul_ok s" and "0 < ul_pages s" and "length (ul_rows s) \<le> ul_pages s * ul_size s"
  shows "mset (concat (map (ul_fetch s) [0..<ul_pages s])) = mset (ul_rows s) \<and>
    sorted_wrt (ul_le s) (concat (map (ul_fetch s) [0..<ul_pages s])) \<and>
    (\<forall>p<ul_pages s. ul_call s p = Inr (ul_fetch s p, int (length (ul_rows s))))"
  using user_pages.pages_fit [OF assms] ul_call_eq [OF assms(1)]
  by (simp add: ul_fetch_def)

definition demo_users :: tables where
  "demo_users = empty_tables\<lparr>user_rows :=
     [\<lparr>u_id = 1, u_email = ''a'', u_hash = ''p''\<rparr>, \<lparr>u_id = 2, u_email = ''b'', u_hash = ''q''\<rparr>]\<rparr>"

theorem user_pages_partition_witness:
  "mset (concat (map (ul_fetch \<lparr>ul_env = demo_env, ul_tabs = demo_users, ul_query = [], ul_size = 1,
     ul_pages = 2, ul_tick = (\<lambda>p. p)\<rparr>) [0..<2])) = {#(1, ''a''), (2, ''b'')#}"
proof -
  let ?s = "\<lparr>ul_env = demo_env, ul_tabs = demo_users, ul_query = [], ul_size = 1, ul_pages = 2,
    ul_tick = (\<lambda>p. p)\<rparr>"
  have rows: "ul_rows ?s = [(1, ''a''), (2, ''b'')]"
    by (simp add: ul_rows_def demo_users_def user_listed_def)
  have "ul_ok ?s" by (simp add: ul_ok_def demo_users_def keyed_def max_i64_def)
  moreover have "0 < ul_pages ?s" by simp
  moreover have "length (ul_rows ?s) \<le> ul_pages ?s * ul_size ?s" by (simp only: rows) simp
  ultimately have "mset (concat (map (ul_fetch ?s) [0..<ul_pages ?s])) = mset (ul_rows ?s)"
    using user_pages_partition by blast
  then show ?thesis by (simp only: rows) simp
qed

end
