(* ===== verification/Roles_Repo.thy ===== *)
theory Roles_Repo
  imports Demo
begin

text \<open>
  \<open>internal/repos/roles.go\<close> over the tables \<open>roles\<close> and \<open>user\_roles\<close> (migration 0005):
  assigning and withdrawing roles and the check that the role middleware makes. The contract
  of such a store is the locale \<open>role\_store\<close>.
\<close>

section \<open>The statements and the operations\<close>

definition sel_role :: "env \<Rightarrow> string \<Rightarrow> nat \<Rightarrow> tables \<Rightarrow> int option" where
  "sel_role e role n t =
     map_option fst (List.find (\<lambda>(i, name). text_eq e name role) (role_rows t))"

definition ins_user_role :: "int \<Rightarrow> int \<Rightarrow> stmt" where
  "ins_user_role uid rid n t =
     Some (0, if (uid, rid) \<in> set (user_role_rows t) then t
              else t\<lparr>user_role_rows := user_role_rows t @ [(uid, rid)]\<rparr>)"

definition del_user_role :: "int \<Rightarrow> int \<Rightarrow> stmt" where
  "del_user_role uid rid n t =
     Some (0, t\<lparr>user_role_rows := filter (\<lambda>x. x \<noteq> (uid, rid)) (user_role_rows t)\<rparr>)"

text \<open>The join of \<open>user\_roles\<close> and \<open>roles\<close>, counted.\<close>

definition sel_has :: "env \<Rightarrow> int \<Rightarrow> string \<Rightarrow> nat \<Rightarrow> tables \<Rightarrow> int option" where
  "sel_has e uid role n t =
     Some (int (length (filter (\<lambda>((u, rid), (i, name)). i = rid \<and> u = uid \<and> text_eq e name role)
       (List.product (user_role_rows t) (role_rows t)))))"

definition Roles_Assign :: "env \<Rightarrow> int \<Rightarrow> string \<Rightarrow> db \<Rightarrow> dberr option \<times> db" where
  "Roles_Assign e uid role d =
     (case query_row e (sel_role e role) d of
        (Inl er, d1) \<Rightarrow> (Some er, d1)
      | (Inr rid, d1) \<Rightarrow>
     (case exec e (ins_user_role uid rid) d1 of
        (Inl er, d2) \<Rightarrow> (Some er, d2)
      | (Inr _, d2) \<Rightarrow> (None, d2)))"

definition Roles_Unassign :: "env \<Rightarrow> int \<Rightarrow> string \<Rightarrow> db \<Rightarrow> dberr option \<times> db" where
  "Roles_Unassign e uid role d =
     (case query_row e (sel_role e role) d of
        (Inl er, d1) \<Rightarrow> (Some er, d1)
      | (Inr rid, d1) \<Rightarrow>
     (case exec e (del_user_role uid rid) d1 of
        (Inl er, d2) \<Rightarrow> (Some er, d2)
      | (Inr _, d2) \<Rightarrow> (None, d2)))"

definition Roles_Has :: "env \<Rightarrow> int \<Rightarrow> string \<Rightarrow> db \<Rightarrow> (bool \<times> dberr option) \<times> db" where
  "Roles_Has e uid role d =
     (case query_row e (sel_has e uid role) d of
        (Inl er, d1) \<Rightarrow> ((False, Some er), d1)
      | (Inr n, d1) \<Rightarrow> ((n > 0, None), d1))"

lemmas role_ops = Roles_Assign_def Roles_Unassign_def Roles_Has_def

section \<open>The contract of a role store\<close>

text \<open>
  \<open>wf\<close> is the provider's invariant, \<open>known\<close> says that the role exists, \<open>same\<close> identifies
  spellings of one role. The client concludes that a history of changes decides \<open>has\<close> by its
  last change to that user and role.
\<close>

datatype role_op = RAssign int string | RUnassign int string

locale role_store =
  fixes step :: "role_op \<Rightarrow> 's \<Rightarrow> 's"
    and has :: "int \<Rightarrow> string \<Rightarrow> 's \<Rightarrow> bool"
    and wf :: "'s \<Rightarrow> bool"
    and known :: "string \<Rightarrow> 's \<Rightarrow> bool"
    and same :: "string \<Rightarrow> string \<Rightarrow> bool"
  assumes wf_step: "wf s \<Longrightarrow> wf (step p s)"
    and known_step: "wf s \<Longrightarrow> known r (step p s) = known r s"
    and assigned: "wf s \<Longrightarrow> known r s \<Longrightarrow>
      has u q (step (RAssign v r) s) \<longleftrightarrow> has u q s \<or> (u = v \<and> same q r)"
    and unassigned: "wf s \<Longrightarrow> known r s \<Longrightarrow>
      has u q (step (RUnassign v r) s) \<longleftrightarrow> has u q s \<and> \<not> (u = v \<and> same q r)"
    and unknown: "wf s \<Longrightarrow> \<not> known r s \<Longrightarrow>
      has u q (step (RAssign v r) s) = has u q s \<and> has u q (step (RUnassign v r) s) = has u q s"
begin

text \<open>What one operation says about user \<open>u\<close> and role \<open>q\<close>, and the last word of a history.\<close>

definition verdict :: "int \<Rightarrow> string \<Rightarrow> 's \<Rightarrow> role_op \<Rightarrow> bool option" where
  "verdict u q s p =
     (case p of
        RAssign v r \<Rightarrow> if known r s \<and> u = v \<and> same q r then Some True else None
      | RUnassign v r \<Rightarrow> if known r s \<and> u = v \<and> same q r then Some False else None)"

definition last_word :: "int \<Rightarrow> string \<Rightarrow> 's \<Rightarrow> role_op list \<Rightarrow> bool option" where
  "last_word u q s ps = fold (\<lambda>p b. case verdict u q s p of None \<Rightarrow> b | Some v \<Rightarrow> Some v) ps None"

lemma has_step:
  "wf s \<Longrightarrow> has u q (step p s) = (case verdict u q s p of None \<Rightarrow> has u q s | Some b \<Rightarrow> b)"
proof (cases p)
  case (RAssign v r)
  then show "wf s \<Longrightarrow> ?thesis"
    by (cases "known r s") (auto simp: verdict_def assigned unknown)
next
  case (RUnassign v r)
  then show "wf s \<Longrightarrow> ?thesis"
    by (cases "known r s") (auto simp: verdict_def unassigned unknown)
qed

lemma verdict_step: "wf s \<Longrightarrow> verdict u q (step p s) p' = verdict u q s p'"
  by (auto simp: verdict_def known_step split: role_op.splits)

lemma has_history:
  "wf s \<Longrightarrow> has u q (fold step ps s) =
     fold (\<lambda>p b. case verdict u q s p of None \<Rightarrow> b | Some v \<Rightarrow> v) ps (has u q s)"
proof (induction ps arbitrary: s)
  case Nil
  then show ?case by simp
next
  case (Cons p ps)
  then have "has u q (fold step ps (step p s)) =
      fold (\<lambda>p' b. case verdict u q (step p s) p' of None \<Rightarrow> b | Some v \<Rightarrow> v) ps (has u q (step p s))"
    by (simp add: wf_step)
  with Cons.prems show ?case by (simp add: has_step verdict_step cong: option.case_cong)
qed

end

section \<open>The model implements the contract\<close>

definition role_step :: "env \<Rightarrow> role_op \<Rightarrow> db \<Rightarrow> db" where
  "role_step e p d =
     (case p of RAssign u r \<Rightarrow> snd (Roles_Assign e u r d) | RUnassign u r \<Rightarrow> snd (Roles_Unassign e u r d))"

definition holds_role :: "env \<Rightarrow> int \<Rightarrow> string \<Rightarrow> db \<Rightarrow> bool" where
  "holds_role e uid role d \<longleftrightarrow>
     (\<exists>(u, rid)\<in>set (user_role_rows (tabs d)). \<exists>(i, name)\<in>set (role_rows (tabs d)).
        i = rid \<and> u = uid \<and> text_eq e name role)"

definition role_known :: "env \<Rightarrow> string \<Rightarrow> db \<Rightarrow> bool" where
  "role_known e role d \<longleftrightarrow> (\<exists>(i, name)\<in>set (role_rows (tabs d)). text_eq e name role)"

text \<open>The keys of \<open>roles\<close>, and a server that answers.\<close>

definition roles_ok :: "env \<Rightarrow> db \<Rightarrow> bool" where
  "roles_ok e d \<longleftrightarrow> (\<forall>n. out e n = Okay) \<and> keyed fst (role_rows (tabs d)) \<and>
     keyed (\<lambda>x. weight e (snd x)) (role_rows (tabs d))"

lemma Roles_Has_iff:
  "Roles_Has e uid role d =
     (if out e (tick d) = Okay then (holds_role e uid role d, None) else (False, Some Fault),
      d\<lparr>tick := Suc (tick d)\<rparr>)"
proof -
  have "length (filter P xs) > 0 \<longleftrightarrow> (\<exists>x\<in>set xs. P x)" for P and xs :: "((int \<times> int) \<times> int \<times> string) list"
    by (simp add: filter_empty_conv)
  then show ?thesis
    unfolding Roles_Has_def query_row_unfold sel_has_def holds_role_def
    by (simp add: split_beta)
qed

lemma role_step_rows:
  assumes "roles_ok e d"
  shows "role_rows (tabs (role_step e p d)) = role_rows (tabs d) \<and>
    set (user_role_rows (tabs (role_step e p d))) =
      (case p of
         RAssign u r \<Rightarrow> (case sel_role e r 0 (tabs d) of None \<Rightarrow> set (user_role_rows (tabs d))
           | Some rid \<Rightarrow> insert (u, rid) (set (user_role_rows (tabs d))))
       | RUnassign u r \<Rightarrow> (case sel_role e r 0 (tabs d) of None \<Rightarrow> set (user_role_rows (tabs d))
           | Some rid \<Rightarrow> set (user_role_rows (tabs d)) - {(u, rid)}))"
  using assms
  by (auto simp: role_step_def role_ops query_row_unfold exec_def ins_user_role_def
      del_user_role_def roles_ok_def sel_role_def Let_def split: role_op.splits option.splits)

lemma sel_role_None: "sel_role e r n (tabs d) = None \<longleftrightarrow> \<not> role_known e r d"
  by (auto simp: sel_role_def find_None_conv role_known_def split: prod.splits)

lemma sel_role_Some:
  assumes "roles_ok e d" and "sel_role e r n (tabs d) = Some rid"
    and "(i, name) \<in> set (role_rows (tabs d))"
  shows "i = rid \<longleftrightarrow> text_eq e name r"
proof -
  from assms(2) obtain nm where f: "List.find (\<lambda>(i, name). text_eq e name r) (role_rows (tabs d)) = Some (rid, nm)"
    by (auto simp: sel_role_def)
  from find_SomeD [OF f] have m: "(rid, nm) \<in> set (role_rows (tabs d))" "text_eq e nm r" by auto
  show ?thesis
    using keyed_unique [of fst "role_rows (tabs d)" "(i, name)" "(rid, nm)"]
      keyed_unique [of "\<lambda>x. weight e (snd x)" "role_rows (tabs d)" "(i, name)" "(rid, nm)"]
      assms(1,3) m by (auto simp: roles_ok_def text_eq_def)
qed

lemma holds_after:
  assumes "roles_ok e d"
  shows "holds_role e u q (role_step e (RAssign v r) d) \<longleftrightarrow>
      holds_role e u q d \<or> (role_known e r d \<and> u = v \<and> text_eq e q r)" (is ?A)
    and "holds_role e u q (role_step e (RUnassign v r) d) \<longleftrightarrow>
      holds_role e u q d \<and> \<not> (role_known e r d \<and> u = v \<and> text_eq e q r)" (is ?U)
proof -
  show ?A
  proof (cases "sel_role e r 0 (tabs d)")
    case None
    with role_step_rows [OF assms, of "RAssign v r"] show ?thesis
      by (simp add: holds_role_def sel_role_None)
  next
    case (Some rid)
    then have known: "role_known e r d" using sel_role_None [of e r 0 d] by auto
    then obtain i name where row: "(i, name) \<in> set (role_rows (tabs d))" "text_eq e name r"
      by (auto simp: role_known_def)
    have iff: "i' = rid \<longleftrightarrow> text_eq e name' r" if "(i', name') \<in> set (role_rows (tabs d))" for i' name'
      using sel_role_Some [OF assms Some that] .
    have "(\<exists>(i', name')\<in>set (role_rows (tabs d)). i' = rid \<and> text_eq e name' q) \<longleftrightarrow> text_eq e q r"
    proof
      assume "\<exists>(i', name')\<in>set (role_rows (tabs d)). i' = rid \<and> text_eq e name' q"
      then obtain name' where x: "(rid, name') \<in> set (role_rows (tabs d))" "text_eq e name' q" by auto
      from iff [OF x(1)] x(2) show "text_eq e q r" by (simp add: text_eq_def)
    next
      assume "text_eq e q r"
      with row iff [OF row(1)] show "\<exists>(i', name')\<in>set (role_rows (tabs d)). i' = rid \<and> text_eq e name' q"
        by (intro bexI [of _ "(i, name)"]) (simp_all add: text_eq_def)
    qed
    moreover have "holds_role e u q (role_step e (RAssign v r) d) \<longleftrightarrow> holds_role e u q d \<or>
        (v = u \<and> (\<exists>(i', name')\<in>set (role_rows (tabs d)). i' = rid \<and> text_eq e name' q))"
      using role_step_rows [OF assms, of "RAssign v r"] Some
      by (auto simp: holds_role_def split_beta)
    ultimately show ?thesis using known by auto
  qed
  show ?U
  proof (cases "sel_role e r 0 (tabs d)")
    case None
    with role_step_rows [OF assms, of "RUnassign v r"] show ?thesis
      by (simp add: holds_role_def sel_role_None)
  next
    case (Some rid)
    then have known: "role_known e r d" using sel_role_None [of e r 0 d] by auto
    have iff: "i' = rid \<longleftrightarrow> text_eq e name' r" if "(i', name') \<in> set (role_rows (tabs d))" for i' name'
      using sel_role_Some [OF assms Some that] .
    have rows: "set (user_role_rows (tabs (role_step e (RUnassign v r) d))) =
        set (user_role_rows (tabs d)) - {(v, rid)}"
      "role_rows (tabs (role_step e (RUnassign v r) d)) = role_rows (tabs d)"
      using role_step_rows [OF assms, of "RUnassign v r"] Some by simp_all
    have same: "rid' = rid \<longleftrightarrow> text_eq e q r"
      if "(rid', name') \<in> set (role_rows (tabs d))" "text_eq e name' q" for rid' name'
      using iff [OF that(1)] that(2) by (auto simp: text_eq_def)
    show ?thesis
    proof
      assume "holds_role e u q (role_step e (RUnassign v r) d)"
      then obtain rid' name' where x: "(u, rid') \<in> set (user_role_rows (tabs d))" "(u, rid') \<noteq> (v, rid)"
          "(rid', name') \<in> set (role_rows (tabs d))" "text_eq e name' q"
        by (auto simp: holds_role_def rows)
      then show "holds_role e u q d \<and> \<not> (role_known e r d \<and> u = v \<and> text_eq e q r)"
        using same [OF x(3,4)] by (auto simp: holds_role_def)
    next
      assume h: "holds_role e u q d \<and> \<not> (role_known e r d \<and> u = v \<and> text_eq e q r)"
      then obtain rid' name' where x: "(u, rid') \<in> set (user_role_rows (tabs d))"
          "(rid', name') \<in> set (role_rows (tabs d))" "text_eq e name' q"
        by (auto simp: holds_role_def)
      then have "(u, rid') \<noteq> (v, rid)" using same [OF x(2,3)] h known by auto
      with x show "holds_role e u q (role_step e (RUnassign v r) d)"
        by (auto simp: holds_role_def rows)
    qed
  qed
qed

interpretation roles: role_store "role_step e" "holds_role e" "roles_ok e" "role_known e" "text_eq e"
  for e
proof
  fix s p r u q v
  assume ok: "roles_ok e s"
  show "roles_ok e (role_step e p s)"
    using ok role_step_rows [OF ok, of p] by (simp add: roles_ok_def)
  show "role_known e r (role_step e p s) = role_known e r s"
    using role_step_rows [OF ok, of p] by (simp add: role_known_def)
  show "role_known e r s \<Longrightarrow> holds_role e u q (role_step e (RAssign v r) s) =
      (holds_role e u q s \<or> u = v \<and> text_eq e q r)"
    using holds_after [OF ok] by simp
  show "role_known e r s \<Longrightarrow> holds_role e u q (role_step e (RUnassign v r) s) =
      (holds_role e u q s \<and> \<not> (u = v \<and> text_eq e q r))"
    using holds_after [OF ok] by simp
  show "\<not> role_known e r s \<Longrightarrow>
      holds_role e u q (role_step e (RAssign v r) s) = holds_role e u q s \<and>
      holds_role e u q (role_step e (RUnassign v r) s) = holds_role e u q s"
    using holds_after [OF ok] by simp
qed

section \<open>Properties\<close>

text \<open>What a change of roles says about a user and a role, when the role exists.\<close>

definition role_verdict :: "env \<Rightarrow> int \<Rightarrow> string \<Rightarrow> db \<Rightarrow> role_op \<Rightarrow> bool option" where
  "role_verdict e u q d p =
     (case p of
        RAssign v r \<Rightarrow> if role_known e r d \<and> u = v \<and> text_eq e q r then Some True else None
      | RUnassign v r \<Rightarrow> if role_known e r d \<and> u = v \<and> text_eq e q r then Some False else None)"

text \<open>
  Roles are decided by the last change: after any history of assignments and withdrawals by
  administrators, \<open>Has\<close> says yes exactly when the last change that concerns this user and this
  role was an assignment, or there was none and the user had it before.
\<close>

theorem roles_follow_last_change:
  assumes "\<And>n. out e n = Okay" and "keyed fst (role_rows (tabs d))"
    and "keyed (\<lambda>x. weight e (snd x)) (role_rows (tabs d))"
  shows "fst (Roles_Has e u q (fold (role_step e) ps d)) =
    (fold (\<lambda>p b. case role_verdict e u q d p of None \<Rightarrow> b | Some v \<Rightarrow> v) ps
       (fst (fst (Roles_Has e u q d))), None)"
proof -
  have "roles_ok e d" using assms by (simp add: roles_ok_def)
  from roles.has_history [OF this, of u q ps] show ?thesis
    using assms(1) by (simp add: Roles_Has_iff roles.verdict_def role_verdict_def)
qed

theorem roles_follow_last_change_witness:
  "fst (Roles_Has demo_env 7 ''user'' (fold (role_step demo_env)
     [RAssign 7 ''user'', RAssign 7 ''admin'', RUnassign 7 ''admin'', RUnassign 8 ''user''] empty_db)) =
   (True, None)"
proof -
  let ?ps = "[RAssign 7 ''user'', RAssign 7 ''admin'', RUnassign 7 ''admin'', RUnassign 8 ''user'']"
  have "fst (Roles_Has demo_env 7 ''user'' (fold (role_step demo_env) ?ps empty_db)) =
    (fold (\<lambda>p b. case role_verdict demo_env 7 ''user'' empty_db p of None \<Rightarrow> b | Some v \<Rightarrow> v) ?ps
       (fst (fst (Roles_Has demo_env 7 ''user'' empty_db))), None)"
    by (rule roles_follow_last_change) (simp_all add: keyed_def)
  then show ?thesis by (simp add: role_verdict_def role_known_def)
qed

text \<open>
  Roles are per user: a change for one user leaves what \<open>Has\<close> says about every other user.
\<close>

theorem roles_of_others_unchanged:
  assumes "\<And>n. out e n = Okay" and "v \<noteq> u"
  shows "fst (Roles_Has e u q (role_step e (RAssign v r) d)) = fst (Roles_Has e u q d) \<and>
    fst (Roles_Has e u q (role_step e (RUnassign v r) d)) = fst (Roles_Has e u q d)"
  using assms
  by (auto simp: Roles_Has_iff role_step_def role_ops query_row_unfold exec_def ins_user_role_def
      del_user_role_def holds_role_def Let_def split: option.splits)

theorem roles_of_others_unchanged_witness:
  "fst (Roles_Has demo_env 7 ''admin'' (role_step demo_env (RAssign 8 ''admin'') empty_db)) =
   (False, None)"
  using conjunct1 [OF roles_of_others_unchanged [of demo_env 8 7 "''admin''" "''admin''" empty_db]]
  by (simp add: Roles_Has_iff holds_role_def)

end
