(* ===== verification/Jwt_Keys.thy ===== *)
theory Jwt_Keys
  imports Go_Strings
begin

text \<open>
  \<open>internal/jwtauth\<close>: the two readers of the key environment, \<open>Load\<close> (\<open>keys.go\<close>), which the
  authentication middleware uses to verify, and \<open>loadFromEnv\<close> (\<open>load.go\<close>), from which tokens
  are signed; the provider they feed (\<open>provider.go\<close>), and how the two fit together.

  \<open>os.Getenv\<close> is the argument \<open>getenv\<close>; the first key of an iteration over a Go map, which the
  language leaves open, is the argument \<open>pick\<close>.
\<close>

section \<open>keys.go\<close>

type_synonym key_set = "string \<rightharpoonup> string"

record Keys =
  k_current :: string
  k_set :: key_set

definition load_part :: "string \<Rightarrow> key_set \<Rightarrow> key_set" where
  "load_part p0 kset =
     (let p = trim_space p0
      in if p = [] then kset
         else case go_index CHR '':'' p of
                None \<Rightarrow> kset
              | Some i \<Rightarrow> kset(take i p \<mapsto> drop (Suc i) p))"

definition load_set :: "string \<Rightarrow> key_set" where
  "load_set raw = (if raw = [] then Map.empty else fold load_part (go_split CHR '','' raw) Map.empty)"

definition Load :: "(key_set \<Rightarrow> string) \<Rightarrow> (string \<Rightarrow> string) \<Rightarrow> Keys" where
  "Load pick getenv =
     (let cur = getenv ''JWT_CURRENT_KID''; raw = getenv ''JWT_KEYS'';
          kset = load_set raw;
          kset1 = (if kset = Map.empty then [''default'' \<mapsto> getenv ''JWT_SECRET''] else kset);
          cur1 = (if kset = Map.empty \<and> cur = [] then ''default'' else cur);
          cur2 = (if cur1 = [] then pick kset1 else cur1)
      in \<lparr>k_current = cur2, k_set = kset1\<rparr>)"

section \<open>provider.go and load.go\<close>

record EnvProvider =
  p_current :: string
  p_set :: key_set

definition CurrentKID :: "EnvProvider \<Rightarrow> string" where
  "CurrentKID p = p_current p"

definition SecretFor :: "EnvProvider \<Rightarrow> string \<Rightarrow> string option" where
  "SecretFor p kid = p_set p kid"

definition env_part :: "string \<Rightarrow> key_set \<Rightarrow> key_set" where
  "env_part p kset =
     (case go_splitn2 CHR '':'' (trim_space p) of
        [k, v] \<Rightarrow> kset(k \<mapsto> v)
      | _ \<Rightarrow> kset)"

definition env_set :: "string \<Rightarrow> key_set" where
  "env_set keys = (if keys = [] then Map.empty else fold env_part (go_split CHR '','' keys) Map.empty)"

definition loadFromEnv :: "(string \<Rightarrow> string) \<Rightarrow> EnvProvider" where
  "loadFromEnv getenv =
     (let keys = trim_space (getenv ''JWT_KEYS''); current = trim_space (getenv ''JWT_CURRENT_KID'');
          secret = getenv ''JWT_SECRET''; kset = env_set keys
      in if kset = Map.empty \<and> secret \<noteq> [] then
           (let cur = (if current = [] then ''key1'' else current)
            in \<lparr>p_current = cur, p_set = kset(cur \<mapsto> secret)\<rparr>)
         else \<lparr>p_current = current, p_set = kset\<rparr>)"

section \<open>The two parsers\<close>

lemma load_part_env_part: "load_part = env_part"
proof (intro ext)
  fix p kset k
  show "load_part p kset k = env_part p kset k"
    by (cases "trim_space p = []")
      (auto simp: load_part_def env_part_def go_splitn2_def Let_def split: option.splits)
qed

text \<open>No space unit contains a comma, so trimming before or after splitting is the same.\<close>

definition entry :: "string \<Rightarrow> key_set \<Rightarrow> key_set" where
  "entry p kset = (case go_splitn2 CHR '':'' p of [k, v] \<Rightarrow> kset(k \<mapsto> v) | _ \<Rightarrow> kset)"

lemma env_part_entry: "env_part = entry \<circ> trim_space"
  by (simp add: fun_eq_iff env_part_def entry_def)

lemma comma_no_space: "\<forall>p\<in>set space_seqs. CHR '','' \<notin> set p"
  by (simp add: space_seqs_def)

lemma env_parts_trim:
  "fold env_part (go_split CHR '','' (trim_space s)) = fold env_part (go_split CHR '','' s)"
  using split_trim_space [OF comma_no_space, of s]
  by (simp add: env_part_entry flip: fold_map)

lemma env_set_split: "env_set s = fold env_part (go_split CHR '','' s) Map.empty"
  by (cases "s = []")
    (simp_all add: env_set_def env_part_def go_splitn2_def trim_space_def trim_left_def trim_right_def)

lemma load_set_split: "load_set s = fold env_part (go_split CHR '','' s) Map.empty"
  by (cases "s = []")
    (simp_all add: load_set_def load_part_env_part env_part_def go_splitn2_def trim_space_def
      trim_left_def trim_right_def)

lemma load_set_env_set: "load_set raw = env_set (trim_space raw)"
  by (simp add: load_set_split env_set_split env_parts_trim)

section \<open>Which key verifies\<close>

text \<open>
  The key function of \<open>AuthWith\<close> (\<open>middleware/auth.go\<close>): the key named by the token's \<open>kid\<close>,
  else the first key of an iteration over the map.
\<close>

definition verify_key :: "(key_set \<Rightarrow> string) \<Rightarrow> key_set \<Rightarrow> string \<Rightarrow> string option" where
  "verify_key pick kset kid =
     (case (if kid \<noteq> [] then kset kid else None) of
        Some k \<Rightarrow> Some k
      | None \<Rightarrow> if kset = Map.empty then None else kset (pick kset))"

text \<open>The key that \<open>Login\<close> signs with: a missing one is the nil slice, the empty key.\<close>

definition signing_key :: "EnvProvider \<Rightarrow> string" where
  "signing_key p = (case SecretFor p (CurrentKID p) of Some s \<Rightarrow> s | None \<Rightarrow> [])"

text \<open>Iterating over a non-empty map yields a key of the map.\<close>

definition picks :: "(key_set \<Rightarrow> string) \<Rightarrow> key_set \<Rightarrow> bool" where
  "picks pick m \<longleftrightarrow> (m \<noteq> Map.empty \<longrightarrow> pick m \<in> dom m)"

lemma verify_key_singleton:
  "picks pick [a \<mapsto> s] \<Longrightarrow> verify_key pick [a \<mapsto> s] kid = Some s"
  unfolding picks_def verify_key_def by (auto split: if_splits)

lemma keys_agree:
  assumes "picks pick (k_set (Load pick getenv))"
    and "env_set (trim_space (getenv ''JWT_KEYS'')) \<noteq> Map.empty \<Longrightarrow>
      CurrentKID (loadFromEnv getenv) \<in> dom (env_set (trim_space (getenv ''JWT_KEYS''))) - {[]}"
  shows "verify_key pick (k_set (Load pick getenv)) (CurrentKID (loadFromEnv getenv)) =
    Some (signing_key (loadFromEnv getenv))"
proof (cases "env_set (trim_space (getenv ''JWT_KEYS'')) = Map.empty")
  case True
  then have set: "k_set (Load pick getenv) = [''default'' \<mapsto> getenv ''JWT_SECRET'']"
    by (simp add: Load_def load_set_env_set Let_def)
  moreover have "signing_key (loadFromEnv getenv) = getenv ''JWT_SECRET''"
    using True by (simp add: loadFromEnv_def signing_key_def SecretFor_def CurrentKID_def Let_def)
  ultimately show ?thesis
    using verify_key_singleton [OF assms(1) [unfolded set]] by simp
next
  case False
  then have "k_set (Load pick getenv) = p_set (loadFromEnv getenv)"
    "p_set (loadFromEnv getenv) = env_set (trim_space (getenv ''JWT_KEYS''))"
    by (simp_all add: Load_def loadFromEnv_def load_set_env_set Let_def)
  then show ?thesis
    using assms(2) [OF False] by (auto simp: verify_key_def signing_key_def SecretFor_def)
qed

section \<open>Properties\<close>

text \<open>
  C10. The two readers of \<open>JWT\_KEYS\<close> agree: whatever the variable holds, with white space
  anywhere, empty parts, parts without a colon, repeated names or colons in secrets, \<open>Load\<close> and
  \<open>loadFromEnv\<close> build the same key set, as long as it is not empty.
\<close>

theorem key_readers_agree:
  assumes "env_set (trim_space (getenv ''JWT_KEYS'')) \<noteq> Map.empty"
  shows "k_set (Load pick getenv) = p_set (loadFromEnv getenv)"
  using assms by (simp add: Load_def loadFromEnv_def load_set_env_set Let_def)

text \<open>An environment as a list of settings.\<close>

definition env_of :: "(string \<times> string) list \<Rightarrow> string \<Rightarrow> string" where
  "env_of vars k = (case map_of vars k of None \<Rightarrow> [] | Some v \<Rightarrow> v)"

lemma key_sample:
  "env_set (trim_space '' a:x:1 ,b:y,, c '') = [''a'' \<mapsto> ''x:1'', ''b'' \<mapsto> ''y'']"
proof -
  have "map trim_space (go_split CHR '','' '' a:x:1 ,b:y,, c '') = [''a:x:1'', ''b:y'', [], ''c'']"
    by code_simp
  moreover have "fold env_part (go_split CHR '','' '' a:x:1 ,b:y,, c '') =
      fold entry (map trim_space (go_split CHR '','' '' a:x:1 ,b:y,, c ''))"
    by (simp only: fold_map env_part_entry)
  ultimately show ?thesis
    by (simp only: env_set_split env_parts_trim) (simp add: entry_def go_splitn2_def)
qed

theorem key_readers_agree_witness:
  "k_set (Load (\<lambda>_. ''b'') (env_of [(''JWT_KEYS'', '' a:x:1 ,b:y,, c '')])) ''a'' = Some ''x:1''"
proof -
  let ?g = "env_of [(''JWT_KEYS'', '' a:x:1 ,b:y,, c '')]"
  have keys: "env_set (trim_space (?g ''JWT_KEYS'')) = [''a'' \<mapsto> ''x:1'', ''b'' \<mapsto> ''y'']"
    by (simp add: env_of_def key_sample)
  then have "env_set (trim_space (?g ''JWT_KEYS'')) \<noteq> Map.empty" by simp
  then have "k_set (Load (\<lambda>_. ''b'') ?g) = p_set (loadFromEnv ?g)" by (rule key_readers_agree)
  with keys show ?thesis by (simp add: loadFromEnv_def Let_def)
qed


lemma trim_nothing [simp]: "trim_space [] = []"
  by (simp add: trim_space_def trim_left_def trim_right_def)

lemma secret_only:
  "k_set (Load pick (env_of [(''JWT_SECRET'', s)])) = [''default'' \<mapsto> s]"
  by (simp add: Load_def load_set_def env_of_def Let_def)


text \<open>
  With no keys in the environment the key is empty: \<open>JWT\_KEYS\<close> and \<open>JWT\_SECRET\<close> unset,
  tokens are signed and verified with the empty HMAC key, for every \<open>kid\<close>; the configuration's
  default secret plays no part.
\<close>

theorem empty_environment_empty_key:
  assumes "getenv ''JWT_KEYS'' = []" and "getenv ''JWT_SECRET'' = []"
    and "picks pick (k_set (Load pick getenv))"
  shows "verify_key pick (k_set (Load pick getenv)) kid = Some [] \<and>
    signing_key (loadFromEnv getenv) = []"
proof -
  have set: "k_set (Load pick getenv) = [''default'' \<mapsto> []]"
    using assms by (simp add: Load_def load_set_def Let_def)
  with assms show ?thesis
    by (simp add: verify_key_singleton loadFromEnv_def env_set_def signing_key_def SecretFor_def Let_def)
qed

theorem empty_environment_empty_key_witness:
  "verify_key (\<lambda>_. ''default'') (k_set (Load (\<lambda>_. ''default'') (env_of []))) ''any'' = Some []"
proof -
  have "picks (\<lambda>_. ''default'') (k_set (Load (\<lambda>_. ''default'') (env_of [])))"
    by (simp add: picks_def Load_def load_set_def env_of_def Let_def)
  from conjunct1 [OF empty_environment_empty_key [OF _ _ this, of "''any''"]]
  show ?thesis by (simp add: env_of_def)
qed

end
