(* ===== verification/Go_Net.thy ===== *)
theory Go_Net
  imports Go_Numbers
begin

text \<open>
  The part of Go's \<open>net\<close> that the program uses: \<open>SplitHostPort\<close>, \<open>ParseIP\<close>, \<open>ParseCIDR\<close> and
  \<open>IPNet.Contains\<close>. Addresses are lists of 4 or 16 bytes, as in Go; a zone makes \<open>ParseIP\<close> fail.
  The last section shows that containment in a network is agreement on its leading bits.
\<close>

section \<open>SplitHostPort\<close>

definition last_index :: "char \<Rightarrow> string \<Rightarrow> nat option" where
  "last_index c s = map_option (\<lambda>j. length s - 1 - j) (go_index c (rev s))"

text \<open>The host of a host-port pair; an address that is refused has the empty host.\<close>

definition split_host :: "string \<Rightarrow> string" where
  "split_host hp =
     (case last_index CHR '':'' hp of None \<Rightarrow> []
      | Some i \<Rightarrow>
          if hp ! 0 = CHR ''['' then
            (case go_index CHR '']'' hp of None \<Rightarrow> []
             | Some e \<Rightarrow>
                 if e + 1 \<noteq> i then []
                 else if CHR ''['' \<in> set (drop 1 hp) \<or> CHR '']'' \<in> set (drop (e + 1) hp) then []
                 else drop 1 (take e hp))
          else if CHR '':'' \<in> set (take i hp) then []
          else if CHR ''['' \<in> set hp \<or> CHR '']'' \<in> set hp then []
          else take i hp)"

lemma split_host_samples:
  "split_host ''10.0.0.1:5000'' = ''10.0.0.1''" "split_host ''[::1]:80'' = ''::1''"
  "split_host ''10.0.0.1'' = []" "split_host ''::1'' = []"
  by code_simp+

section \<open>Dotted quads\<close>

text \<open>One to three digits without a leading zero, at most 255.\<close>

definition ip4_field :: "string \<Rightarrow> 8 word option" where
  "ip4_field s =
     (if s = [] \<or> 3 < length s \<or> \<not> list_all is_digit s \<or> (1 < length s \<and> hd s = CHR ''0'') then None
      else let n = foldl (\<lambda>n c. n * 10 + digit_val c) 0 s
           in if n \<le> 255 then Some (of_nat n) else None)"

fun collect :: "'a option list \<Rightarrow> 'a list option" where
  "collect [] = Some []"
| "collect (None # _) = None"
| "collect (Some x # r) = map_option ((#) x) (collect r)"

definition parse_ip4 :: "string \<Rightarrow> 8 word list option" where
  "parse_ip4 s =
     (let fs = go_split CHR ''.'' s in if length fs = 4 then collect (map ip4_field fs) else None)"

section \<open>Hexadecimal groups\<close>

definition hex_digit_val :: "char \<Rightarrow> nat option" where
  "hex_digit_val c =
     (let b = of_char c in
      if 48 \<le> b \<and> b \<le> (57 :: nat) then Some (b - 48)
      else if 97 \<le> b \<and> b \<le> 102 then Some (b - 87)
      else if 65 \<le> b \<and> b \<le> 70 then Some (b - 55) else None)"

definition hex_prefix :: "string \<Rightarrow> string" where
  "hex_prefix s = takeWhile (\<lambda>c. hex_digit_val c \<noteq> None) s"

definition hex_number :: "string \<Rightarrow> nat" where
  "hex_number s = foldl (\<lambda>n c. n * 16 + the (hex_digit_val c)) 0 s"

text \<open>
  The loop of \<open>parseIPv6\<close> with the bytes so far, the position of the ellipsis and the rest of
  the text; the result is the bytes and the ellipsis when the whole text was used. A round adds
  at least two bytes, so nine rounds are enough for the at most sixteen.
\<close>

fun ip6_loop :: "nat \<Rightarrow> 8 word list \<Rightarrow> nat option \<Rightarrow> string \<Rightarrow> (8 word list \<times> nat option) option" where
  "ip6_loop 0 bs el s = None"
| "ip6_loop (Suc k) bs el s =
     (if 16 \<le> length bs then (if s = [] then Some (bs, el) else None)
      else
     (let h = hex_prefix s; rest = drop (length h) s
      in if h = [] \<or> 4 < length h then None
         else if rest \<noteq> [] \<and> hd rest = CHR ''.'' then
           (if (el = None \<and> length bs \<noteq> 12) \<or> 12 < length bs then None
            else map_option (\<lambda>q. (bs @ q, el)) (parse_ip4 s))
         else
           (let bs1 = bs @ [of_nat (hex_number h div 256), of_nat (hex_number h mod 256)]
            in if rest = [] then Some (bs1, el)
               else if hd rest \<noteq> CHR '':'' \<or> tl rest = [] then None
               else if hd (tl rest) = CHR '':'' then
                 (if el \<noteq> None then None
                  else if tl (tl rest) = [] then Some (bs1, Some (length bs1))
                  else ip6_loop k bs1 (Some (length bs1)) (tl (tl rest)))
               else ip6_loop k bs1 el (tl rest))))"

definition parse_ip6 :: "string \<Rightarrow> 8 word list option" where
  "parse_ip6 s =
     (let lead = has_prefix s ''::'';
          s1 = (if lead then drop 2 s else s)
      in if lead \<and> s1 = [] then Some (replicate 16 0)
         else
           (case ip6_loop 9 [] (if lead then Some 0 else None) s1 of
              None \<Rightarrow> None
            | Some (bs, None) \<Rightarrow> if length bs = 16 then Some bs else None
            | Some (bs, Some e) \<Rightarrow>
                if length bs < 16 then Some (take e bs @ replicate (16 - length bs) 0 @ drop e bs)
                else None))"

text \<open>
  \<open>netip.ParseAddr\<close>, zones excluded: the first dot or colon decides. The result says whether
  the text was a dotted quad (32 bits) and gives the 16-byte form.
\<close>

definition v4_in_v6 :: "8 word list" where
  "v4_in_v6 = replicate 10 0 @ [0xFF, 0xFF]"

definition parse_addr :: "string \<Rightarrow> (bool \<times> 8 word list) option" where
  "parse_addr s =
     (if CHR ''%'' \<in> set s then None
      else case List.find (\<lambda>c. c = CHR ''.'' \<or> c = CHR '':'') s of
             None \<Rightarrow> None
           | Some c \<Rightarrow>
               if c = CHR ''.'' then map_option (\<lambda>q. (True, v4_in_v6 @ q)) (parse_ip4 s)
               else map_option (Pair False) (parse_ip6 s))"

definition parse_ip :: "string \<Rightarrow> 8 word list option" where
  "parse_ip s = map_option snd (parse_addr s)"

section \<open>Networks\<close>

record IPNet =
  net_ip :: "8 word list"
  net_mask :: "8 word list"

fun cidr_mask :: "nat \<Rightarrow> nat \<Rightarrow> 8 word list" where
  "cidr_mask n 0 = []"
| "cidr_mask n (Suc k) =
     (if 8 \<le> n then 0xFF # cidr_mask (n - 8) k else NOT (drop_bit n 0xFF) # cidr_mask 0 k)"

definition mask_bytes :: "8 word list \<Rightarrow> 8 word list \<Rightarrow> 8 word list" where
  "mask_bytes ip m = map2 (AND) ip m"

text \<open>\<open>dtoi\<close> on a whole text: digits only, below \<open>0xFFFFFF\<close> after every digit.\<close>

definition mask_number :: "string \<Rightarrow> nat option" where
  "mask_number s =
     (if s = [] \<or> \<not> list_all is_digit s then None
      else let n = foldl (\<lambda>n c. n * 10 + digit_val c) 0 s in if n < 0xFFFFFF then Some n else None)"

definition to4 :: "8 word list \<Rightarrow> 8 word list option" where
  "to4 ip =
     (if length ip = 4 then Some ip
      else if length ip = 16 \<and> take 12 ip = v4_in_v6 then Some (drop 12 ip) else None)"

definition parse_cidr :: "string \<Rightarrow> IPNet option" where
  "parse_cidr s =
     (case go_index CHR ''/'' s of None \<Rightarrow> None
      | Some i \<Rightarrow>
          (case (parse_addr (take i s), mask_number (drop (Suc i) s)) of
             (Some (v4, ip), Some n) \<Rightarrow>
               if n > (if v4 then 32 else 128) then None
               else if v4 then
                 (let m = cidr_mask n 4 in Some \<lparr>net_ip = mask_bytes (drop 12 ip) m, net_mask = m\<rparr>)
               else (let m = cidr_mask n 16 in Some \<lparr>net_ip = mask_bytes ip m, net_mask = m\<rparr>)
           | _ \<Rightarrow> None))"

definition net_contains :: "IPNet \<Rightarrow> 8 word list \<Rightarrow> bool" where
  "net_contains n ip0 =
     (let nn = (case to4 (net_ip n) of Some q \<Rightarrow> q | None \<Rightarrow> net_ip n);
          m = (if length (net_mask n) = 16 \<and> length nn = 4 then drop 12 (net_mask n) else net_mask n);
          ip = (case to4 ip0 of Some q \<Rightarrow> q | None \<Rightarrow> ip0)
      in length ip = length nn \<and> mask_bytes nn m = mask_bytes ip m)"

section \<open>Networks as leading bits\<close>

definition byte_bits :: "8 word \<Rightarrow> bool list" where
  "byte_bits b = map (bit b) [7, 6, 5, 4, 3, 2, 1, 0]"

definition addr_bits :: "8 word list \<Rightarrow> bool list" where
  "addr_bits bs = concat (map byte_bits bs)"

lemma byte_eq_iff: "(x :: 8 word) = y \<longleftrightarrow> (\<forall>i\<in>{0, 1, 2, 3, 4, 5, 6, 7}. bit x i = bit y i)"
proof -
  have "{0, 1, 2, 3, 4, 5, 6, 7 :: nat} = {..<8}" by auto
  moreover have "bit x i = bit y i" if "\<forall>i<8. bit x i = bit y i" for i
    using that bit_imp_le_length [of x i] bit_imp_le_length [of y i] by auto
  ultimately show ?thesis by (auto simp: bit_eq_iff)
qed

lemma mask_bit: "n < 8 \<Longrightarrow> bit (NOT (drop_bit n (0xFF :: 8 word))) i \<longleftrightarrow> i < 8 \<and> 8 - n \<le> i"
proof -
  have "(0xFF :: 8 word) = - 1" by simp
  then have ff: "bit (0xFF :: 8 word) j \<longleftrightarrow> j < 8" for j
    by (simp only: bit_minus_1_iff possible_bit_word) simp
  assume "n < 8"
  then show ?thesis by (simp only: bit_not_iff bit_drop_bit_eq comp_def ff possible_bit_word) auto
qed

lemma mask_byte_agree:
  assumes "n < 8"
  shows "x AND NOT (drop_bit n 0xFF) = y AND NOT (drop_bit n 0xFF) \<longleftrightarrow>
    take n (byte_bits x) = take n (byte_bits y)"
proof -
  define m :: "8 word" where "m = NOT (drop_bit n 0xFF)"
  have m: "bit m i \<longleftrightarrow> i < 8 \<and> 8 - n \<le> i" for i
    unfolding m_def by (rule mask_bit [OF assms])
  have "n \<in> {0, 1, 2, 3, 4, 5, 6, 7}" using assms by auto
  then show ?thesis
    unfolding m_def [symmetric]
    by (elim insertE emptyE) (auto simp: byte_eq_iff bit_and_iff m byte_bits_def)
qed

lemma length_byte_bits [simp]: "length (byte_bits b) = 8"
  by (simp add: byte_bits_def)

lemma byte_bits_inj: "byte_bits x = byte_bits y \<longleftrightarrow> x = y"
  by (auto simp: byte_bits_def byte_eq_iff)

lemma mask_agree:
  assumes "length a = k" and "length b = k" and "n \<le> 8 * k"
  shows "mask_bytes a (cidr_mask n k) = mask_bytes b (cidr_mask n k) \<longleftrightarrow>
    take n (addr_bits a) = take n (addr_bits b)"
  using assms
proof (induction k arbitrary: a b n)
  case 0
  then show ?case by (simp add: mask_bytes_def)
next
  case (Suc k)
  then obtain x a' y b' where ab: "a = x # a'" "b = y # b'" "length a' = k" "length b' = k"
    by (metis length_Suc_conv)
  have ff: "z AND 0xFF = z" for z :: "8 word"
    by (simp add: byte_eq_iff bit_and_iff)
  show ?case
  proof (cases "8 \<le> n")
    case True
    with Suc.IH [of a' b' "n - 8"] Suc.prems ab show ?thesis
      by (simp add: mask_bytes_def addr_bits_def ff byte_bits_inj)
  next
    case False
    with Suc.IH [of a' b' 0] ab show ?thesis
      by (simp add: mask_bytes_def addr_bits_def mask_byte_agree)
  qed
qed

section \<open>Printing addresses\<close>

definition ip4_text :: "8 word list \<Rightarrow> string" where
  "ip4_text q =
     dec_nat (unat (q ! 0)) @ ''.'' @ dec_nat (unat (q ! 1)) @ ''.'' @
     dec_nat (unat (q ! 2)) @ ''.'' @ dec_nat (unat (q ! 3))"

lemma ip4_field_text: "ip4_field (dec_nat (unat (b :: 8 word))) = Some b"
proof -
  have b: "unat b < 256" using unsigned_less [of b, where ?'a = nat] by simp
  then have "length (dec_nat (unat b)) \<le> 3" using dec_nat_length [of "unat b" 2] by simp
  moreover have "1 < length (dec_nat (unat b)) \<Longrightarrow> hd (dec_nat (unat b)) \<noteq> CHR ''0''"
    by (cases "unat b = 0") (simp_all add: dec_nat_less_10 dec_nat_hd)
  ultimately show ?thesis
    using b by (auto simp: ip4_field_def dec_nat_digits digits_value Let_def)
qed

lemma split_dots: "go_split CHR ''.'' (ip4_text q) =
    [dec_nat (unat (q ! 0)), dec_nat (unat (q ! 1)), dec_nat (unat (q ! 2)), dec_nat (unat (q ! 3))]"
  by (simp add: ip4_text_def go_split_app_left not_in_dec_nat go_split_no_sep)

lemma parse_ip4_text:
  assumes "length q = 4" shows "parse_ip4 (ip4_text q) = Some q"
proof -
  obtain a b c d where "q = [a, b, c, d]"
    using assms by (auto simp: numeral_eq_Suc length_Suc_conv)
  then show ?thesis by (simp add: parse_ip4_def Let_def split_dots ip4_field_text)
qed

lemma ip4_text_set: "c \<in> set (ip4_text q) \<Longrightarrow> is_digit c \<or> c = CHR ''.''"
  using dec_nat_set by (auto simp: ip4_text_def)

lemma find_dot: "List.find (\<lambda>c. c = CHR ''.'' \<or> c = CHR '':'') (ip4_text q) = Some CHR ''.''"
proof -
  have "List.find (\<lambda>c. c = CHR ''.'' \<or> c = CHR '':'') (dec_nat n) = None" for n
    by (auto simp: find_None_conv not_in_dec_nat)
  then show ?thesis by (simp add: ip4_text_def find_append)
qed

lemma parse_addr_text:
  assumes "length q = 4" shows "parse_addr (ip4_text q) = Some (True, v4_in_v6 @ q)"
proof -
  have "CHR ''%'' \<notin> set (ip4_text q)" using ip4_text_set by force
  then show ?thesis by (simp add: parse_addr_def find_dot parse_ip4_text [OF assms])
qed

lemma parse_ip_text: "length q = 4 \<Longrightarrow> parse_ip (ip4_text q) = Some (v4_in_v6 @ q)"
  by (simp add: parse_ip_def parse_addr_text)

lemma go_index_app: "c \<notin> set p \<Longrightarrow> go_index c (p @ c # s) = Some (length p)"
  by (induction p) auto

definition cidr_text :: "8 word list \<Rightarrow> nat \<Rightarrow> string" where
  "cidr_text q n = ip4_text q @ ''/'' @ dec_nat n"

lemma parse_cidr_text:
  assumes "length q = 4" and "n \<le> 32"
  shows "parse_cidr (cidr_text q n) =
    Some \<lparr>net_ip = mask_bytes q (cidr_mask n 4), net_mask = cidr_mask n 4\<rparr>"
proof -
  have "CHR ''/'' \<notin> set (ip4_text q)" using ip4_text_set by force
  then have "go_index CHR ''/'' (cidr_text q n) = Some (length (ip4_text q))"
    by (simp add: cidr_text_def go_index_app)
  moreover have "mask_number (dec_nat n) = Some n"
    using assms(2) by (simp add: mask_number_def dec_nat_digits digits_value)
  ultimately show ?thesis
    using assms by (simp add: parse_cidr_def parse_addr_text cidr_text_def v4_in_v6_def Let_def)
qed

lemma length_cidr_mask [simp]: "length (cidr_mask n k) = k"
  by (induction k arbitrary: n) auto

lemma mask_bytes_twice: "mask_bytes (mask_bytes a m) m = mask_bytes a m"
proof (induction a arbitrary: m)
  case (Cons x a)
  then show ?case by (cases m) (auto simp: mask_bytes_def and.assoc)
qed (simp add: mask_bytes_def)

text \<open>A dotted-quad network holds the addresses that agree with it on its leading bits.\<close>

lemma contains_text:
  assumes "length q = 4" and "length p = 4" and "n \<le> 32"
  shows "net_contains \<lparr>net_ip = mask_bytes q (cidr_mask n 4), net_mask = cidr_mask n 4\<rparr> (v4_in_v6 @ p)
    \<longleftrightarrow> take n (addr_bits q) = take n (addr_bits p)"
proof -
  have "length (mask_bytes q (cidr_mask n 4)) = 4" using assms(1) by (simp add: mask_bytes_def)
  moreover have "to4 (v4_in_v6 @ p) = Some p" using assms(2) by (simp add: to4_def v4_in_v6_def)
  ultimately show ?thesis
    using assms mask_agree [of q 4 p n]
    by (simp add: net_contains_def to4_def mask_bytes_twice Let_def)
qed

lemma split_host_port:
  assumes "CHR '':'' \<notin> set h" "CHR ''['' \<notin> set h" "CHR '']'' \<notin> set h" "h \<noteq> []"
    and "CHR '':'' \<notin> set p" "CHR ''['' \<notin> set p" "CHR '']'' \<notin> set p"
  shows "split_host (h @ '':'' @ p) = h"
proof -
  have "go_index CHR '':'' (rev p @ CHR '':'' # rev h) = Some (length p)"
    using assms(5) by (subst go_index_app) auto
  then have "last_index CHR '':'' (h @ '':'' @ p) = Some (length h)"
    by (simp add: last_index_def)
  moreover have "(h @ '':'' @ p) ! 0 \<noteq> CHR ''[''"
    using assms(2,4) by (cases h) auto
  ultimately show ?thesis using assms by (simp add: split_host_def)
qed

lemma split_host_text: "split_host (ip4_text q @ '':'' @ dec_nat port) = ip4_text q"
proof (rule split_host_port)
  show "ip4_text q \<noteq> []" by (simp add: ip4_text_def)
qed (use ip4_text_set not_in_dec_nat in force)+

lemma split_host_bare: "CHR '':'' \<notin> set h \<Longrightarrow> split_host h = []"
  by (simp add: split_host_def last_index_def go_index_None [THEN iffD2])

end
