(* ===== verification/Client_Addr.thy ===== *)
theory Client_Addr
  imports Http Go_Net
begin

text \<open>
  How the program names a client: \<open>clientIP\<close> and \<open>IPKey\<close> (\<open>internal/middleware/rlredis.go\<close>) and \<open>ipOf\<close> (\<open>internal/security/brute.go\<close>).
\<close>

section \<open>The names of a client\<close>

text \<open>The first element of \<open>strings.Split(h, ",")\<close>.\<close>

definition first_field :: "string \<Rightarrow> string" where
  "first_field h = hd (go_split CHR '','' h)"

definition forwarded_ip :: "req \<Rightarrow> string" where
  "forwarded_ip r =
     (let h = header r ''X-Real-IP'';
          h1 = (if h = [] then
                  (let f = header r ''X-Forwarded-For'' in if f \<noteq> [] then first_field f else f)
                else h)
      in if h1 = [] then split_host (rq_remote r) else h1)"

definition clientIP :: "req \<Rightarrow> 8 word list option" where
  "clientIP r = parse_ip (forwarded_ip r)"

definition IPKey :: "req \<Rightarrow> string" where
  "IPKey r = ''ip:'' @ forwarded_ip r"

text \<open>\<open>ipOf\<close> takes the headers the same way but cuts the remote address at its first colon.\<close>

definition ipOf :: "req \<Rightarrow> string" where
  "ipOf r =
     (if header r ''X-Real-IP'' \<noteq> [] then header r ''X-Real-IP''
      else if header r ''X-Forwarded-For'' \<noteq> [] then first_field (header r ''X-Forwarded-For'')
      else case go_index CHR '':'' (rq_remote r) of
             Some i \<Rightarrow> take i (rq_remote r)
           | None \<Rightarrow> rq_remote r)"

end
