(* ===== verification/Redis_Store.thy ===== *)
theory Redis_Store
  imports Client_Addr Demo_Http
begin

text \<open>
  The Redis commands that the program sends, and the components that live on them: the store of
  revoked token ids (\<open>internal/jti/store.go\<close>), the request limiter
  (\<open>internal/middleware/rlredis.go\<close>) and the login guard (\<open>internal/security/brute.go\<close>).
\<close>

section \<open>Commands\<close>

definition r_live :: "int \<Rightarrow> redis \<Rightarrow> string \<Rightarrow> int option" where
  "r_live tm d k =
     (case r_keys d k of
        None \<Rightarrow> None
      | Some (v, None) \<Rightarrow> Some v
      | Some (v, Some x) \<Rightarrow> if tm < x then Some v else None)"

text \<open>
  \<open>INCR\<close> and \<open>EXPIRE\<close> in one transaction. The error of \<open>Exec\<close> is dropped by the callers, which
  then read the value 0. (The counter of the server has 64 bits, which no window fills.)
\<close>

definition incr_expire :: "sys \<Rightarrow> string \<Rightarrow> int \<Rightarrow> redis \<Rightarrow> int \<times> redis" where
  "incr_expire S k window d =
     (let n = r_tick d; tm = redis_now S n; d1 = d\<lparr>r_tick := Suc n\<rparr>;
          v = (case r_live tm d k of None \<Rightarrow> 1 | Some v \<Rightarrow> v + 1);
          d2 = d1\<lparr>r_keys := (r_keys d)(k \<mapsto> (v, Some (tm + window)))\<rparr>
      in case redis_out S n of Okay \<Rightarrow> (v, d2) | Refused \<Rightarrow> (0, d1) | Lost \<Rightarrow> (0, d2))"

text \<open>
  \<open>TTL\<close> as a duration: -2 and -1 are passed on as nanoseconds, anything else is rounded to
  seconds. \<open>None\<close> is an error.
\<close>

definition redis_ttl :: "sys \<Rightarrow> string \<Rightarrow> redis \<Rightarrow> int option \<times> redis" where
  "redis_ttl S k d =
     (let n = r_tick d; tm = redis_now S n; d1 = d\<lparr>r_tick := Suc n\<rparr>
      in if redis_out S n \<noteq> Okay then (None, d1)
         else (Some (case r_keys d k of
                 None \<Rightarrow> - 2
               | Some (_, None) \<Rightarrow> - 1
               | Some (_, Some x) \<Rightarrow>
                   if tm < x then (x - tm + 500000000) div second * second else - 2), d1))"

text \<open>
  \<open>SETEX\<close> with the value 1: a duration below a second counts as one second, and the server
  refuses a time that is not positive. The result says whether there was an error.
\<close>

definition setex_secs :: "int \<Rightarrow> int" where
  "setex_secs ttl = (if 0 < ttl \<and> ttl < second then 1 else ttl div second)"

definition redis_setex :: "sys \<Rightarrow> string \<Rightarrow> int \<Rightarrow> redis \<Rightarrow> bool \<times> redis" where
  "redis_setex S k ttl d =
     (let n = r_tick d; tm = redis_now S n; d1 = d\<lparr>r_tick := Suc n\<rparr>;
          d2 = d1\<lparr>r_keys := (r_keys d)(k \<mapsto> (1, Some (tm + setex_secs ttl * second)))\<rparr>
      in if setex_secs ttl \<le> 0 then (True, d1)
         else case redis_out S n of Okay \<Rightarrow> (False, d2) | Refused \<Rightarrow> (True, d1) | Lost \<Rightarrow> (True, d2))"

definition on_redis :: "(redis \<Rightarrow> 'a \<times> redis) \<Rightarrow> world \<Rightarrow> 'a \<times> world" where
  "on_redis f w = (case f (rds w) of (x, d) \<Rightarrow> (x, w\<lparr>rds := d\<rparr>))"

section \<open>internal/jti/store.go\<close>

definition IsRevoked :: "sys \<Rightarrow> string \<Rightarrow> string \<Rightarrow> redis \<Rightarrow> (bool \<times> bool) \<times> redis" where
  "IsRevoked S pre jti d =
     (case redis_ttl S (pre @ jti) d of
        (None, d1) \<Rightarrow> ((False, True), d1)
      | (Some ttl, d1) \<Rightarrow> ((0 < ttl, False), d1))"

definition jti_Revoke :: "sys \<Rightarrow> string \<Rightarrow> string \<Rightarrow> int \<Rightarrow> redis \<Rightarrow> bool \<times> redis" where
  "jti_Revoke S pre jti ttl d = redis_setex S (pre @ jti) ttl d"

section \<open>internal/middleware/rlredis.go\<close>

record RedisLimiter =
  rl_limit :: int
  rl_window :: int
  rl_key :: "req \<Rightarrow> string"
  rl_net :: "IPNet option"

definition NewRedisLimiter ::
  "int \<Rightarrow> int \<Rightarrow> (req \<Rightarrow> string) \<Rightarrow> string \<Rightarrow> RedisLimiter" where
  "NewRedisLimiter limit window keyFn allowCIDR =
     \<lparr>rl_limit = limit, rl_window = window, rl_key = keyFn,
      rl_net = (if allowCIDR \<noteq> [] then parse_cidr allowCIDR else None)\<rparr>"

definition net_allows :: "RedisLimiter \<Rightarrow> req \<Rightarrow> bool" where
  "net_allows l r =
     (case rl_net l of None \<Rightarrow> False
      | Some n \<Rightarrow> (case clientIP r of None \<Rightarrow> False | Some ip \<Rightarrow> net_contains n ip))"

definition redis_limit :: "sys \<Rightarrow> RedisLimiter \<Rightarrow> handler \<Rightarrow> handler" where
  "redis_limit S l nxt r w =
     (if net_allows l r then nxt r w
      else
        (case on_redis (incr_expire S (''rl:'' @ rl_key l r) (rl_window l)) w of
           (cnt, w1) \<Rightarrow>
             if cnt > rl_limit l then
               (Returned, on_writer (\<lambda>x. http_error ''rate_limited'' 429 (set_hdr ''Retry-After'' ''1'' x)) w1)
             else nxt r w1))"

lemma redis_limit_passes:
  assumes "incr_expire S (''rl:'' @ rl_key l r) (rl_window l) (rds w) = (v, d)" and "v \<le> rl_limit l"
  shows "\<exists>d. redis_limit S l nxt r w = nxt r (w\<lparr>rds := d\<rparr>)"
proof (cases "net_allows l r")
  case True
  then have "redis_limit S l nxt r w = nxt r (w\<lparr>rds := rds w\<rparr>)" by (simp add: redis_limit_def)
  then show ?thesis ..
next
  case False
  with assms have "redis_limit S l nxt r w = nxt r (w\<lparr>rds := d\<rparr>)"
    by (simp add: redis_limit_def on_redis_def)
  then show ?thesis ..
qed

section \<open>internal/security/brute.go\<close>

record Brute =
  b_limit :: int
  b_window :: int

definition brute_key :: "sys \<Rightarrow> req \<Rightarrow> string \<Rightarrow> string" where
  "brute_key S r email = ''brute:'' @ ipOf r @ '':'' @ to_lower S (trim_space email)"

text \<open>The results \<open>(ok, remaining, ttl)\<close>; an error of \<open>TTL\<close> is dropped.\<close>

definition Brute_Allow ::
  "sys \<Rightarrow> Brute \<Rightarrow> req \<Rightarrow> string \<Rightarrow> redis \<Rightarrow> (bool \<times> int \<times> int) \<times> redis" where
  "Brute_Allow S b r email d =
     (let key = brute_key S r email
      in case incr_expire S key (b_window b) d of
           (v, d1) \<Rightarrow>
             if v \<le> b_limit b then ((True, b_limit b - v, 0), d1)
             else (case redis_ttl S key d1 of
                     (ttl, d2) \<Rightarrow> ((False, 0, (case ttl of None \<Rightarrow> 0 | Some t \<Rightarrow> t)), d2)))"

text \<open>\<open>JitterBackoff\<close>: \<open>b\<close> are the eight bytes of \<open>rand.Read\<close>; the sum is a 64-bit number.\<close>

fun little_endian :: "8 word list \<Rightarrow> nat" where
  "little_endian [] = 0"
| "little_endian (b # bs) = unat b + 256 * little_endian bs"

definition millisecond :: int where
  "millisecond = 1000000"

definition JitterBackoff :: "8 word list \<Rightarrow> int \<Rightarrow> int" where
  "JitterBackoff b base = i64 (base + i64 (int (little_endian b mod 250) * millisecond))"

section \<open>Counting within a window\<close>

text \<open>
  The contract of a counter with a sliding expiry, as its users rely on it: while the server
  answers and the window lasts (\<open>lasting\<close>), every request is counted under its own key, and
  under no other.
\<close>

locale window_counter =
  fixes bump :: "'k \<Rightarrow> 's \<Rightarrow> int \<times> 's"
    and counted :: "'k \<Rightarrow> 's \<Rightarrow> int"
    and lasting :: "'s \<Rightarrow> bool"
  assumes bump_value: "lasting s \<Longrightarrow> fst (bump k s) = counted k s + 1"
    and bump_counts: "lasting s \<Longrightarrow>
      counted k' (snd (bump k s)) = counted k' s + (if k' = k then 1 else 0)"
    and bump_lasting: "lasting s \<Longrightarrow> lasting (snd (bump k s))"
begin

lemma history:
  "lasting s \<Longrightarrow> lasting (fold (\<lambda>k. snd \<circ> bump k) ks s) \<and>
   counted k (fold (\<lambda>k. snd \<circ> bump k) ks s) = counted k s + int (count_list ks k)"
  by (induction ks arbitrary: s) (simp_all add: bump_counts bump_lasting)

lemma value_after:
  "lasting s \<Longrightarrow>
   fst (bump k (fold (\<lambda>k. snd \<circ> bump k) ks s)) = counted k s + int (count_list ks k) + 1"
  using history [of s ks k] by (simp add: bump_value)

end

text \<open>
  The window \<open>[lo, lo + window)\<close>: the server answers, its clock stays inside, and every stored
  key either expired before or outlives it.
\<close>

definition in_window :: "sys \<Rightarrow> int \<Rightarrow> int \<Rightarrow> redis \<Rightarrow> bool" where
  "in_window S lo window d \<longleftrightarrow>
     (\<forall>n. redis_out S n = Okay \<and> lo \<le> redis_now S n \<and> redis_now S n < lo + window) \<and>
     (\<forall>k v x. r_keys d k = Some (v, x) \<longrightarrow> (case x of None \<Rightarrow> True | Some t \<Rightarrow> t \<le> lo \<or> lo + window \<le> t))"

definition hits :: "int \<Rightarrow> string \<Rightarrow> redis \<Rightarrow> int" where
  "hits lo k d = (case r_live lo d k of None \<Rightarrow> 0 | Some v \<Rightarrow> v)"

lemma in_window_live:
  assumes "in_window S lo window d"
  shows "r_live (redis_now S n) d k = r_live lo d k"
proof (cases "r_keys d k")
  case (Some e)
  obtain v x where e: "e = (v, x)" by (cases e)
  have "lo \<le> redis_now S n" "redis_now S n < lo + window"
    "case x of None \<Rightarrow> True | Some t \<Rightarrow> t \<le> lo \<or> lo + window \<le> t"
    using assms Some e unfolding in_window_def by blast+
  then show ?thesis
    using Some e by (auto simp: r_live_def split: option.splits)
qed (simp add: r_live_def)

interpretation window: window_counter "\<lambda>k. incr_expire S k window" "hits lo" "in_window S lo window"
  for S lo window
proof
  fix s :: redis and k k' :: string
  assume w: "in_window S lo window s"
  then have ok: "redis_out S n = Okay" and lo: "lo \<le> redis_now S n" "redis_now S n < lo + window" for n
    unfolding in_window_def by auto
  have pos: "0 < window" using lo [of 0] by linarith
  have incr: "incr_expire S k window s = (hits lo k s + 1, s\<lparr>r_tick := Suc (r_tick s),
      r_keys := (r_keys s)(k \<mapsto> (hits lo k s + 1, Some (redis_now S (r_tick s) + window)))\<rparr>)"
    by (simp add: incr_expire_def ok in_window_live [OF w] hits_def Let_def split: option.splits)
  show "fst (incr_expire S k window s) = hits lo k s + 1"
    by (simp add: incr)
  have "lo < redis_now S (r_tick s) + window" using lo [of "r_tick s"] pos by linarith
  then show "hits lo k' (snd (incr_expire S k window s)) = hits lo k' s + (if k' = k then 1 else 0)"
    by (simp add: incr hits_def r_live_def)
  show "in_window S lo window (snd (incr_expire S k window s))"
    using w lo by (auto simp: in_window_def incr)
qed

section \<open>Clients that do not pause\<close>

lemma bump_other: "k \<noteq> k' \<Longrightarrow> r_keys (snd (incr_expire S k' window d)) k = r_keys d k"
  by (simp add: incr_expire_def Let_def split: outcome.splits)

lemma bump_others:
  "k \<notin> set ks \<Longrightarrow> r_keys (fold (\<lambda>k. snd \<circ> incr_expire S k window) ks d) k = r_keys d k"
  by (induction ks arbitrary: d) (simp_all add: bump_other)

lemma bump_fresh:
  assumes "redis_out S (r_tick d) = Okay" and "r_live (redis_now S (r_tick d)) d k = None"
  shows "fst (incr_expire S k window d) = 1"
  using assms by (simp add: incr_expire_def Let_def)

text \<open>A client that is never away for a whole window is counted from its first request on.\<close>

definition restless :: "sys \<Rightarrow> int \<Rightarrow> bool" where
  "restless S window \<longleftrightarrow>
     (\<forall>n. redis_out S n = Okay \<and> redis_now S (Suc n) < redis_now S n + window)"

lemma restless_counts:
  assumes "restless S window" and "r_keys d k = None"
  shows "fst (incr_expire S k window (((\<lambda>d. snd (incr_expire S k window d)) ^^ m) d)) = int m + 1"
proof -
  let ?f = "\<lambda>d. snd (incr_expire S k window d)"
  have ok: "redis_out S n = Okay" "redis_now S (Suc n) < redis_now S n + window" for n
    using assms(1) by (auto simp: restless_def)
  have "r_keys ((?f ^^ Suc m) d) k =
      Some (int m + 1, Some (redis_now S (r_tick ((?f ^^ m) d)) + window)) \<and>
      r_tick ((?f ^^ Suc m) d) = Suc (r_tick ((?f ^^ m) d))" for m
  proof (induction m)
    case 0
    then show ?case using assms(2) ok by (simp add: incr_expire_def r_live_def Let_def)
  next
    case (Suc m)
    then show ?case using ok(1) ok(2) [of "r_tick ((?f ^^ m) d)"]
      by (simp add: incr_expire_def r_live_def Let_def)
  qed
  note step = this
  show ?thesis
  proof (cases m)
    case 0
    then show ?thesis using assms(2) ok by (simp add: incr_expire_def r_live_def Let_def)
  next
    case (Suc n)
    then show ?thesis using step [of n] ok(1) ok(2) [of "r_tick ((?f ^^ n) d)"]
      by (simp add: incr_expire_def r_live_def Let_def del: funpow.simps)
  qed
qed

section \<open>Properties\<close>

text \<open>
  C27. The limiter admits exactly its limit: as long as a window lasts and Redis answers every call, with requests of any
  clients interleaved in any order, a request is passed on if and only if at most \<open>Limit\<close>
  requests under its key, itself included, have been seen; the others are answered with 429
  and Retry-After.
\<close>

theorem limiter_admits_limit:
  assumes "in_window S lo (rl_window l) d0" and "hits lo (''rl:'' @ rl_key l r) d0 = 0"
    and "rds w = fold (\<lambda>k. snd \<circ> incr_expire S k (rl_window l)) ks d0"
    and "\<not> net_allows l r" and "w_sent (wr w) = None"
  shows "if int (count_list ks (''rl:'' @ rl_key l r)) + 1 \<le> rl_limit l
    then \<exists>d. redis_limit S l nxt r w = nxt r (w\<lparr>rds := d\<rparr>)
    else status_of (wr (snd (redis_limit S l nxt r w))) = 429 \<and>
      sent_header (wr (snd (redis_limit S l nxt r w))) ''Retry-After'' = Some ''1'' \<and>
      wdb (snd (redis_limit S l nxt r w)) = wdb w"
proof -
  let ?k = "''rl:'' @ rl_key l r"
  have "fst (incr_expire S ?k (rl_window l) (rds w)) = int (count_list ks ?k) + 1"
    using window.value_after [OF assms(1), of ?k ks] assms(2,3) by simp
  then obtain d where "incr_expire S ?k (rl_window l) (rds w) = (int (count_list ks ?k) + 1, d)"
    by (cases "incr_expire S ?k (rl_window l) (rds w)") simp
  then show ?thesis
    using assms(4,5)
    by (auto simp: redis_limit_def on_redis_def sent_header_def http_error_def write_body_def
        write_header_def set_hdr_def status_of_def)
qed

definition demo_limiter :: RedisLimiter where
  "demo_limiter = \<lparr>rl_limit = 2, rl_window = 60 * second, rl_key = IPKey, rl_net = None\<rparr>"

lemma demo_in_window:
  "in_window demo_sys (100 * second) (60 * second) \<lparr>r_tick = 0, r_keys = Map.empty\<rparr>"
  by (simp add: in_window_def second_def)

lemma demo_IPKey [simp]: "IPKey bare_req = ''ip:10.0.0.1''"
  by (simp add: IPKey_def forwarded_ip_def split_host_samples Let_def)

theorem limiter_admits_limit_witness:
  "status_of (wr (snd (redis_limit demo_sys demo_limiter (\<lambda>r w. (Returned, w)) bare_req
     ((world_on empty_tables)\<lparr>rds := fold (\<lambda>k. snd \<circ> incr_expire demo_sys k (60 * second))
        [''rl:ip:10.0.0.1'', ''rl:ip:10.0.0.2'', ''rl:ip:10.0.0.1'']
        \<lparr>r_tick = 0, r_keys = Map.empty\<rparr>\<rparr>)))) = 429"
proof -
  let ?ks = "[''rl:ip:10.0.0.1'', ''rl:ip:10.0.0.2'', ''rl:ip:10.0.0.1'']"
  let ?d = "\<lparr>r_tick = 0, r_keys = Map.empty\<rparr>"
  let ?w = "(world_on empty_tables)\<lparr>rds := fold (\<lambda>k. snd \<circ> incr_expire demo_sys k (60 * second)) ?ks ?d\<rparr>"
  have l: "rl_window demo_limiter = 60 * second" "rl_key demo_limiter bare_req = ''ip:10.0.0.1''"
    "rl_limit demo_limiter = 2" "\<not> net_allows demo_limiter bare_req"
    by (simp_all add: demo_limiter_def net_allows_def)
  have "if int (count_list ?ks (''rl:'' @ rl_key demo_limiter bare_req)) + 1 \<le> rl_limit demo_limiter
    then \<exists>d. redis_limit demo_sys demo_limiter (\<lambda>r w. (Returned, w)) bare_req ?w =
      (Returned, ?w\<lparr>rds := d\<rparr>)
    else status_of (wr (snd (redis_limit demo_sys demo_limiter (\<lambda>r w. (Returned, w)) bare_req ?w))) = 429 \<and>
      sent_header (wr (snd (redis_limit demo_sys demo_limiter (\<lambda>r w. (Returned, w)) bare_req ?w)))
        ''Retry-After'' = Some ''1'' \<and>
      wdb (snd (redis_limit demo_sys demo_limiter (\<lambda>r w. (Returned, w)) bare_req ?w)) = wdb ?w"
    by (rule limiter_admits_limit [where ?d0.0 = ?d and lo = "100 * second"])
      (simp_all only: l demo_in_window, simp_all add: hits_def r_live_def)
  then show ?thesis by (simp add: l split: if_splits)
qed

text \<open>
  The limits fail open: while Redis does not answer, every request is passed on and every
  login attempt is allowed, because the error of the pipeline is dropped and the count reads 0.
\<close>

theorem limits_fail_open:
  assumes "redis_out S (r_tick (rds w)) \<noteq> Okay" and "0 \<le> rl_limit l" and "0 \<le> b_limit b"
  shows "(\<exists>d. redis_limit S l nxt r w = nxt r (w\<lparr>rds := d\<rparr>)) \<and>
    fst (Brute_Allow S b r email (rds w)) = (True, b_limit b, 0)"
proof -
  have "fst (incr_expire S k window (rds w)) = 0" for k window
    using assms(1) by (simp add: incr_expire_def Let_def split: outcome.splits)
  then have incr: "\<exists>d. incr_expire S k window (rds w) = (0, d)" for k window
    by (cases "incr_expire S k window (rds w)") (metis fst_conv)
  obtain d where d: "incr_expire S (''rl:'' @ rl_key l r) (rl_window l) (rds w) = (0, d)"
    using incr by blast
  obtain d' where d': "incr_expire S (brute_key S r email) (b_window b) (rds w) = (0, d')"
    using incr by blast
  have "\<exists>d. redis_limit S l nxt r w = nxt r (w\<lparr>rds := d\<rparr>)"
    using d assms(2) by (rule redis_limit_passes)
  moreover have "fst (Brute_Allow S b r email (rds w)) = (True, b_limit b, 0)"
    using d' assms(3) by (simp add: Brute_Allow_def Let_def)
  ultimately show ?thesis by simp
qed

theorem limits_fail_open_witness:
  "fst (Brute_Allow (demo_sys\<lparr>redis_out := (\<lambda>_. Refused)\<rparr>) \<lparr>b_limit = 10, b_window = 300 * second\<rparr>
     bare_req ''a'' (rds (world_on empty_tables))) = (True, 10, 0)"
  using limits_fail_open [of "demo_sys\<lparr>redis_out := (\<lambda>_. Refused)\<rparr>" "world_on empty_tables"
      demo_limiter "\<lparr>b_limit = 10, b_window = 300 * second\<rparr>" "\<lambda>r w. (Returned, w)" bare_req "''a''"]
  by (simp add: demo_limiter_def)

text \<open>
  The login guard allows exactly its limit: within a window, with attempts for any addresses
  interleaved, an attempt is allowed if and only if at most \<open>Limit\<close> attempts under its key,
  itself included, have been seen, and the remaining count is exact.
\<close>

theorem brute_allows_limit:
  assumes "in_window S lo (b_window b) d0" and "hits lo (brute_key S r email) d0 = 0"
    and "d = fold (\<lambda>k. snd \<circ> incr_expire S k (b_window b)) ks d0"
    and "n = int (count_list ks (brute_key S r email)) + 1"
  shows "if n \<le> b_limit b then fst (Brute_Allow S b r email d) = (True, b_limit b - n, 0)
    else fst (fst (Brute_Allow S b r email d)) = False"
proof -
  let ?k = "brute_key S r email"
  have "fst (incr_expire S ?k (b_window b) d) = n"
    using window.value_after [OF assms(1), of ?k ks] assms(2-4) by simp
  then obtain d' where "incr_expire S ?k (b_window b) d = (n, d')"
    by (cases "incr_expire S ?k (b_window b) d") simp
  then show ?thesis by (simp add: Brute_Allow_def Let_def split: prod.splits)
qed

theorem brute_allows_limit_witness:
  "fst (Brute_Allow demo_sys \<lparr>b_limit = 10, b_window = 60 * second\<rparr> bare_req ''a''
     \<lparr>r_tick = 0, r_keys = Map.empty\<rparr>) = (True, 9, 0)"
proof -
  have "if (1 :: int) \<le> b_limit \<lparr>b_limit = 10, b_window = 60 * second\<rparr>
    then fst (Brute_Allow demo_sys \<lparr>b_limit = 10, b_window = 60 * second\<rparr> bare_req ''a''
      \<lparr>r_tick = 0, r_keys = Map.empty\<rparr>) = (True, b_limit \<lparr>b_limit = 10, b_window = 60 * second\<rparr> - 1, 0)
    else fst (fst (Brute_Allow demo_sys \<lparr>b_limit = 10, b_window = 60 * second\<rparr> bare_req ''a''
      \<lparr>r_tick = 0, r_keys = Map.empty\<rparr>)) = False"
    by (rule brute_allows_limit [where lo = "100 * second" and ks = "[]" and
          ?d0.0 = "\<lparr>r_tick = 0, r_keys = Map.empty\<rparr>"])
      (simp_all add: demo_in_window hits_def r_live_def)
  then show ?thesis by simp
qed

text \<open>
  The limiter counts what the client writes: the key comes from the header X-Real-IP, so
  whatever has been counted before, there is a value for that header under which the next request
  is passed on.
\<close>

theorem forged_header_escapes_limit:
  assumes "in_window S lo (rl_window l) d0" and "\<And>k. hits lo k d0 = 0" and "rl_key l = IPKey"
    and "rds w = fold (\<lambda>k. snd \<circ> incr_expire S k (rl_window l)) ks d0" and "1 \<le> rl_limit l"
  shows "\<exists>h d. redis_limit S l nxt (r\<lparr>rq_headers := (rq_headers r)(''X-Real-IP'' \<mapsto> h)\<rparr>) w =
    nxt (r\<lparr>rq_headers := (rq_headers r)(''X-Real-IP'' \<mapsto> h)\<rparr>) (w\<lparr>rds := d\<rparr>)"
proof -
  obtain h where h: "h \<noteq> []" "''rl:ip:'' @ h \<notin> set ks"
  proof -
    let ?h = "replicate (Suc (sum_list (map length ks))) CHR ''x''"
    have "length k \<le> sum_list (map length ks)" if "k \<in> set ks" for k
      using that by (intro member_le_sum_list) simp_all
    moreover have "length (''rl:ip:'' @ ?h) > sum_list (map length ks)" by simp
    ultimately have "''rl:ip:'' @ ?h \<notin> set ks" by (metis not_le)
    then show thesis by (rule that [rotated]) simp
  qed
  let ?r = "r\<lparr>rq_headers := (rq_headers r)(''X-Real-IP'' \<mapsto> h)\<rparr>"
  have key: "rl_key l ?r = ''ip:'' @ h"
    using h(1) assms(3) by (simp add: IPKey_def forwarded_ip_def header_def get_or_empty_def)
  have "fst (incr_expire S (''rl:ip:'' @ h) (rl_window l) (rds w)) = 1"
    using window.value_after [OF assms(1), of "''rl:ip:'' @ h" ks] assms(2,4) h(2) by simp
  then obtain d where d: "incr_expire S (''rl:ip:'' @ h) (rl_window l) (rds w) = (1, d)"
    by (metis prod.collapse)
  have "\<exists>d. redis_limit S l nxt ?r w = nxt ?r (w\<lparr>rds := d\<rparr>)"
    by (rule redis_limit_passes [where v = 1]) (use d key assms(5) in simp_all)
  then show ?thesis by blast
qed

theorem forged_header_escapes_limit_witness:
  "\<exists>h d. redis_limit demo_sys demo_limiter (\<lambda>r w. (Returned, w))
      (bare_req\<lparr>rq_headers := (rq_headers bare_req)(''X-Real-IP'' \<mapsto> h)\<rparr>)
      ((world_on empty_tables)\<lparr>rds := fold (\<lambda>k. snd \<circ> incr_expire demo_sys k (60 * second))
        [''rl:ip:1'', ''rl:ip:1'', ''rl:ip:1''] \<lparr>r_tick = 0, r_keys = Map.empty\<rparr>\<rparr>) =
    (Returned, (world_on empty_tables)\<lparr>rds := d\<rparr>)"
proof -
  let ?d = "\<lparr>r_tick = 0, r_keys = Map.empty\<rparr>" and ?ks = "[''rl:ip:1'', ''rl:ip:1'', ''rl:ip:1'']"
  let ?w = "(world_on empty_tables)\<lparr>rds := fold (\<lambda>k. snd \<circ> incr_expire demo_sys k (60 * second)) ?ks ?d\<rparr>"
  have l: "rl_window demo_limiter = 60 * second" "rl_key demo_limiter = IPKey" "1 \<le> rl_limit demo_limiter"
    by (simp_all add: demo_limiter_def)
  have "\<exists>h d. redis_limit demo_sys demo_limiter (\<lambda>r w. (Returned, w))
      (bare_req\<lparr>rq_headers := (rq_headers bare_req)(''X-Real-IP'' \<mapsto> h)\<rparr>) ?w = (Returned, ?w\<lparr>rds := d\<rparr>)"
    by (rule forged_header_escapes_limit [where ?d0.0 = ?d and lo = "100 * second" and ks = ?ks])
      (simp_all only: l demo_in_window, simp_all add: hits_def r_live_def)
  then show ?thesis by simp
qed

text \<open>
  The limiter never forgets a client that does not pause: every request, also one that is
  refused, moves the expiry of the counter on, so a client whose requests are never a window
  apart is let through \<open>Limit\<close> times in all, and then refused for as long as it keeps asking.
\<close>

theorem restless_client_is_locked_out:
  assumes "restless S (rl_window l)" and "r_keys d0 (''rl:'' @ rl_key l r) = None"
    and "rds w = ((\<lambda>d. snd (incr_expire S (''rl:'' @ rl_key l r) (rl_window l) d)) ^^ m) d0"
    and "\<not> net_allows l r" and "w_sent (wr w) = None"
  shows "if int m + 1 \<le> rl_limit l then \<exists>d. redis_limit S l nxt r w = nxt r (w\<lparr>rds := d\<rparr>)
    else status_of (wr (snd (redis_limit S l nxt r w))) = 429"
proof -
  let ?k = "''rl:'' @ rl_key l r"
  have "fst (incr_expire S ?k (rl_window l) (rds w)) = int m + 1"
    unfolding assms(3) by (rule restless_counts [OF assms(1,2)])
  then obtain d where "incr_expire S ?k (rl_window l) (rds w) = (int m + 1, d)"
    by (cases "incr_expire S ?k (rl_window l) (rds w)") simp
  then show ?thesis using assms(4,5) by (auto simp: redis_limit_def on_redis_def)
qed

definition ticking_sys :: sys where
  "ticking_sys = demo_sys\<lparr>redis_now := (\<lambda>n. (100 + int n) * second)\<rparr>"

theorem restless_client_is_locked_out_witness:
  "status_of (wr (snd (redis_limit ticking_sys demo_limiter (\<lambda>r w. (Returned, w)) bare_req
     ((world_on empty_tables)\<lparr>rds := ((\<lambda>d. snd (incr_expire ticking_sys ''rl:ip:10.0.0.1'' (60 * second) d)) ^^ 1000)
        \<lparr>r_tick = 0, r_keys = Map.empty\<rparr>\<rparr>)))) = 429"
proof -
  let ?w = "(world_on empty_tables)\<lparr>rds := ((\<lambda>d. snd (incr_expire ticking_sys ''rl:ip:10.0.0.1'' (60 * second) d)) ^^ 1000)
        \<lparr>r_tick = 0, r_keys = Map.empty\<rparr>\<rparr>"
  have key: "''rl:'' @ rl_key demo_limiter bare_req = ''rl:ip:10.0.0.1''" "rl_window demo_limiter = 60 * second"
    "rl_limit demo_limiter = 2"
    by (simp_all add: demo_limiter_def)
  have "restless ticking_sys (60 * second)"
    by (simp add: restless_def ticking_sys_def second_def)
  moreover have "\<not> net_allows demo_limiter bare_req" by (simp add: net_allows_def demo_limiter_def)
  ultimately show ?thesis
    using restless_client_is_locked_out [of ticking_sys demo_limiter "\<lparr>r_tick = 0, r_keys = Map.empty\<rparr>"
        bare_req ?w 1000 "\<lambda>r w. (Returned, w)"]
    by (simp only: key) simp
qed

text \<open>
  C28. A client that stays away for a window is let in again: however often it was refused, its
  first request at least a window after its last one, with any other clients in between, is
  passed on, if the limit is not below 1 and the server answers.
\<close>

theorem limiter_recovers:
  assumes "k = ''rl:'' @ rl_key l r" and "redis_out S (r_tick d0) = Okay"
    and "rds w = fold (\<lambda>k. snd \<circ> incr_expire S k (rl_window l)) ks (snd (incr_expire S k (rl_window l) d0))"
    and "k \<notin> set ks" and "redis_out S (r_tick (rds w)) = Okay"
    and "redis_now S (r_tick d0) + rl_window l \<le> redis_now S (r_tick (rds w))" and "1 \<le> rl_limit l"
  shows "\<exists>d. redis_limit S l nxt r w = nxt r (w\<lparr>rds := d\<rparr>)"
proof -
  have "r_keys (rds w) k = r_keys (snd (incr_expire S k (rl_window l) d0)) k"
    unfolding assms(3) by (rule bump_others [OF assms(4)])
  also have "\<exists>v. \<dots> = Some (v, Some (redis_now S (r_tick d0) + rl_window l))"
    using assms(2) by (simp add: incr_expire_def Let_def)
  finally have "r_live (redis_now S (r_tick (rds w))) (rds w) k = None"
    using assms(6) by (auto simp: r_live_def)
  from bump_fresh [OF assms(5) this, of "rl_window l"] obtain d where
    "incr_expire S k (rl_window l) (rds w) = (1, d)"
    by (cases "incr_expire S k (rl_window l) (rds w)") simp
  from redis_limit_passes [OF this [unfolded assms(1)]] assms(7) show ?thesis by simp
qed

definition slow_sys :: sys where
  "slow_sys = demo_sys\<lparr>redis_now := (\<lambda>n. 60 * int n * second)\<rparr>"

lemma slow_sys_simps [simp]: "redis_out slow_sys n = Okay" "redis_now slow_sys n = 60 * int n * second"
  by (simp_all add: slow_sys_def)

theorem limiter_recovers_witness:
  "\<exists>d. redis_limit slow_sys demo_limiter (\<lambda>r w. (Returned, w)) bare_req
     ((world_on empty_tables)\<lparr>rds := snd (incr_expire slow_sys ''rl:ip:10.0.0.1'' (60 * second)
        \<lparr>r_tick = 0, r_keys = [''rl:ip:10.0.0.1'' \<mapsto> (99, Some second)]\<rparr>)\<rparr>) =
     (Returned, (world_on empty_tables)\<lparr>rds := d\<rparr>)"
proof -
  have t: "r_tick (snd (incr_expire slow_sys k w d)) = Suc (r_tick d)" for k w d
    by (simp add: incr_expire_def Let_def)
  show ?thesis
    using limiter_recovers [where k = "''rl:ip:10.0.0.1''" and l = demo_limiter and r = bare_req
        and S = slow_sys and ks = "[]" and ?d0.0 = "\<lparr>r_tick = 0, r_keys = [''rl:ip:10.0.0.1'' \<mapsto> (99, Some second)]\<rparr>"
        and w = "(world_on empty_tables)\<lparr>rds := snd (incr_expire slow_sys ''rl:ip:10.0.0.1'' (60 * second)
        \<lparr>r_tick = 0, r_keys = [''rl:ip:10.0.0.1'' \<mapsto> (99, Some second)]\<rparr>)\<rparr>"
        and nxt = "\<lambda>r w. (Returned, w)"]
    by (simp add: t demo_limiter_def second_def)
qed

lemma jitter_eq: "i64 (int (little_endian b mod 250) * millisecond) = int (little_endian b mod 250) * millisecond"
proof -
  have "int (little_endian b mod 250) < 250" by simp
  then show ?thesis
    by (intro i64_id) (simp add: in_i64_def max_i64_def min_i64_def millisecond_def)
qed

text \<open>
  The jittered back-off is at least its base and less than a quarter of a second above it, as long
  as the sum fits into 64 bits.
\<close>

theorem jitter_bounds:
  assumes "0 \<le> base" and "base \<le> max_i64 - 249 * millisecond"
  shows "base \<le> JitterBackoff b base \<and> JitterBackoff b base < base + 250 * millisecond"
proof -
  have lt: "int (little_endian b mod 250) < 250" "0 \<le> int (little_endian b mod 250)" by simp_all
  then have "in_i64 (base + int (little_endian b mod 250) * millisecond)"
    using assms by (simp add: in_i64_def max_i64_def min_i64_def millisecond_def)
  then have "JitterBackoff b base = base + int (little_endian b mod 250) * millisecond"
    unfolding JitterBackoff_def jitter_eq by (rule i64_id)
  with lt show ?thesis by (simp add: millisecond_def)
qed

text \<open>For the largest base it is negative.\<close>

theorem jitter_overflow: "JitterBackoff (1 # replicate 7 0) max_i64 < 0"
proof -
  have "little_endian (1 # replicate 7 0) = 1" by (simp add: numeral_eq_Suc)
  then have "JitterBackoff (1 # replicate 7 0) max_i64 = i64 (max_i64 + millisecond)"
    unfolding JitterBackoff_def jitter_eq by simp
  also have "\<dots> = i64 (min_i64 + millisecond - 1)"
    by (rule i64_cong) (simp add: max_i64_def min_i64_def)
  also have "\<dots> = min_i64 + millisecond - 1"
    by (rule i64_id) (simp add: in_i64_def max_i64_def min_i64_def millisecond_def)
  finally show ?thesis by (simp add: min_i64_def millisecond_def)
qed

theorem jitter_bounds_witness:
  "second \<le> JitterBackoff [255, 1, 0, 0, 0, 0, 0, 0] second \<and>
   JitterBackoff [255, 1, 0, 0, 0, 0, 0, 0] second < second + 250 * millisecond"
  by (rule jitter_bounds) (simp_all add: second_def millisecond_def max_i64_def)

end
