(* ===== verification/Auth_Middleware.thy ===== *)
theory Auth_Middleware
  imports Jwt_Keys Roles_Repo Redis_Store
begin

text \<open>
  Who may call what: \<open>AuthWith\<close> (\<open>internal/middleware/auth.go\<close>), which takes the user from a
  bearer token, and \<open>RequireRole\<close> (\<open>internal/middleware/roles.go\<close>). The JWT library is the
  three parameters \<open>jwt\_parts\<close>, \<open>jwt\_signed\<close> and \<open>jwt\_claims\_ok\<close> of \<open>sys\<close>.
\<close>

section \<open>AuthWith\<close>

text \<open>
  \<open>jwt.Parse(tok, keyFn, WithAudience(aud), WithIssuer(iss))\<close>: the claims of a token whose key
  function finds a key, whose signature that key verifies, and whose claims are valid at the
  time \<open>tm\<close> (nanoseconds). The result is valid exactly when there is no error.
\<close>

definition jwt_Parse ::
  "sys \<Rightarrow> (string \<Rightarrow> string option) \<Rightarrow> (string \<times> string) option \<Rightarrow> int \<Rightarrow> string \<Rightarrow> claims option" where
  "jwt_Parse S keyFn expected tm tok =
     (case jwt_parts S tok of
        None \<Rightarrow> None
      | Some (kid, cl) \<Rightarrow>
          (case keyFn kid of
             None \<Rightarrow> None
           | Some key \<Rightarrow> if jwt_signed S tok key \<and> jwt_claims_ok S tm expected cl then Some cl else None))"

text \<open>
  \<open>int64(x)\<close> of a \<open>float64\<close>: truncation; a value out of range, which the language leaves to
  the implementation, is the least integer, as on amd64.
\<close>

definition trunc64 :: "rat \<Rightarrow> int" where
  "trunc64 q =
     (let t = (if q < 0 then ceiling q else floor q) in if in_i64 t then t else min_i64)"

definition claim_num :: "claims \<Rightarrow> string \<Rightarrow> rat option" where
  "claim_num cl k = (case cl k of Some (CNum q) \<Rightarrow> Some q | _ \<Rightarrow> None)"

definition unix_secs :: "int \<Rightarrow> int" where
  "unix_secs tm = tm div second"

text \<open>\<open>expIss\<close> and \<open>expAud\<close> are the pair \<open>expected\<close>, \<open>pick\<close> the choice of an iteration over the keys.\<close>

definition AuthWith ::
  "sys \<Rightarrow> key_set \<Rightarrow> string \<times> string \<Rightarrow> (key_set \<Rightarrow> string) \<Rightarrow> handler \<Rightarrow> handler" where
  "AuthWith S keys expected pick nxt r w =
     (let h = header r ''Authorization''
      in if \<not> has_prefix h ''Bearer '' then (Returned, on_writer (http_error ''unauthorized'' 401) w)
         else
     (let tokStr = trim_prefix h ''Bearer ''
      in case time_now S w of (tm, w1) \<Rightarrow>
     (case jwt_Parse S (verify_key pick keys) (Some expected) tm tokStr of
        None \<Rightarrow> (Returned, on_writer (http_error ''unauthorized'' 401) w1)
      | Some cl \<Rightarrow>
     (case time_now S w1 of (tm2, w2) \<Rightarrow>
        if (case claim_num cl ''exp'' of None \<Rightarrow> False | Some e \<Rightarrow> unix_secs tm2 > trunc64 e)
        then (Returned, on_writer (http_error ''expired'' 401) w2)
        else
          (case claim_num cl ''sub'' of
             None \<Rightarrow> (Returned, on_writer (http_error ''unauthorized'' 401) w2)
           | Some idf \<Rightarrow> nxt (r\<lparr>rq_uid := Some (trunc64 idf)\<rparr>) w2)))))"

section \<open>RequireRole\<close>

fun has_any :: "sys \<Rightarrow> int \<Rightarrow> string list \<Rightarrow> world \<Rightarrow> bool \<times> world" where
  "has_any S uid [] w = (False, w)"
| "has_any S uid (role # roles) w =
     (case on_db (Roles_Has (senv S) uid role) w of
        ((b, err), w1) \<Rightarrow> if err = None \<and> b then (True, w1) else has_any S uid roles w1)"

definition RequireRole :: "sys \<Rightarrow> string list \<Rightarrow> handler \<Rightarrow> handler" where
  "RequireRole S roles nxt r w =
     (case rq_uid r of
        None \<Rightarrow> (Returned, on_writer (http_error ''unauthorized'' 401) w)
      | Some uid \<Rightarrow>
          (case has_any S uid roles w of
             (True, w1) \<Rightarrow> nxt r w1
           | (False, w1) \<Rightarrow> (Returned, on_writer (http_error ''forbidden'' 403) w1)))"

section \<open>What a request must show\<close>

text \<open>
  The specification of the token check: the bearer token parses, carries an unexpired expiry if
  any, and a numeric subject; read at the clock readings \<open>c\<close> and \<open>c + 1\<close>.
\<close>

definition token_user ::
  "sys \<Rightarrow> key_set \<Rightarrow> string \<times> string \<Rightarrow> (key_set \<Rightarrow> string) \<Rightarrow> string \<Rightarrow> nat \<Rightarrow> int option" where
  "token_user S keys expected pick tok c =
     (case jwt_parts S tok of None \<Rightarrow> None
      | Some (kid, cl) \<Rightarrow>
          (case (verify_key pick keys kid, claim_num cl ''sub'') of
             (Some key, Some q) \<Rightarrow>
               if jwt_signed S tok key \<and> jwt_claims_ok S (wall S c) (Some expected) cl \<and>
                  (\<forall>e. claim_num cl ''exp'' = Some e \<longrightarrow> unix_secs (wall S (Suc c)) \<le> trunc64 e)
               then Some (trunc64 q) else None
           | _ \<Rightarrow> None))"

definition bearer :: "string \<Rightarrow> string" where
  "bearer tok = ''Bearer '' @ tok"

lemma bearer_simps [simp]:
  "has_prefix (bearer tok) ''Bearer ''" "trim_prefix (bearer tok) ''Bearer '' = tok"
  unfolding bearer_def by (rule has_prefix_append, rule trim_prefix_append)

lemma bearer_cases: "has_prefix h ''Bearer '' \<Longrightarrow> \<exists>tok. h = bearer tok"
  by (simp only: has_prefix_iff bearer_def)

lemma AuthWith_accepts:
  assumes "header r ''Authorization'' = bearer tok"
    and "token_user S keys expected pick tok (clock w) = Some u"
  shows "AuthWith S keys expected pick nxt r w =
    nxt (r\<lparr>rq_uid := Some u\<rparr>) (w\<lparr>clock := clock w + 2\<rparr>)"
  using assms
  by (auto simp: AuthWith_def token_user_def jwt_Parse_def time_now_def Let_def
      split: option.splits prod.splits if_splits)

lemma AuthWith_rejects:
  assumes "\<nexists>tok u. header r ''Authorization'' = bearer tok \<and>
      token_user S keys expected pick tok (clock w) = Some u"
    and "w_sent (wr w) = None"
  shows "status_of (wr (snd (AuthWith S keys expected pick nxt r w))) = 401 \<and>
    wdb (snd (AuthWith S keys expected pick nxt r w)) = wdb w \<and>
    fst (AuthWith S keys expected pick nxt r w) = Returned"
proof (cases "has_prefix (header r ''Authorization'') ''Bearer ''")
  case False
  with assms(2) show ?thesis by (simp add: AuthWith_def)
next
  case True
  then obtain tok where tok: "header r ''Authorization'' = bearer tok"
    using bearer_cases by blast
  with assms(1) have "token_user S keys expected pick tok (clock w) = None" by auto
  with tok assms(2) show ?thesis
    by (auto simp: AuthWith_def token_user_def jwt_Parse_def time_now_def Let_def
        split: option.splits prod.splits if_splits)
qed

text \<open>The specification of the role check: some role of the list is answered with yes.\<close>

definition role_granted :: "sys \<Rightarrow> int \<Rightarrow> string list \<Rightarrow> db \<Rightarrow> bool" where
  "role_granted S uid roles d \<longleftrightarrow>
     (\<exists>i<length roles. out (senv S) (tick d + i) = Okay \<and> holds_role (senv S) uid (roles ! i) d)"

lemma holds_role_tick [simp]: "holds_role e uid role (d\<lparr>tick := n\<rparr>) = holds_role e uid role d"
  by (simp add: holds_role_def)

lemma role_granted_Cons:
  "role_granted S uid (role # roles) d \<longleftrightarrow>
     (out (senv S) (tick d) = Okay \<and> holds_role (senv S) uid role d) \<or>
     role_granted S uid roles (d\<lparr>tick := Suc (tick d)\<rparr>)"
proof -
  have "(\<exists>i<Suc n. P i) \<longleftrightarrow> P 0 \<or> (\<exists>i<n. P (Suc i))" for n and P :: "nat \<Rightarrow> bool"
    by (metis Suc_less_eq less_Suc_eq_0_disj)
  then show ?thesis by (simp add: role_granted_def)
qed

lemma has_any_granted: "fst (has_any S uid roles w) = role_granted S uid roles (wdb w)"
proof (induction roles arbitrary: w)
  case Nil
  then show ?case by (simp add: role_granted_def)
next
  case (Cons role roles)
  show ?case
    by (auto simp: on_db_def Roles_Has_iff role_granted_Cons Cons.IH)
qed

lemma has_any_tabs: "\<exists>k. snd (has_any S uid roles w) = w\<lparr>wdb := (wdb w)\<lparr>tick := k\<rparr>\<rparr>"
proof (induction roles arbitrary: w)
  case Nil
  have "w = w\<lparr>wdb := (wdb w)\<lparr>tick := tick (wdb w)\<rparr>\<rparr>" by simp
  then show ?case by (metis has_any.simps(1) snd_conv)
next
  case (Cons role roles)
  let ?w = "w\<lparr>wdb := (wdb w)\<lparr>tick := Suc (tick (wdb w))\<rparr>\<rparr>"
  from Cons [of ?w] obtain k where "snd (has_any S uid roles ?w) = w\<lparr>wdb := (wdb w)\<lparr>tick := k\<rparr>\<rparr>"
    by auto
  moreover have "\<exists>k. ?w = w\<lparr>wdb := (wdb w)\<lparr>tick := k\<rparr>\<rparr>" by blast
  ultimately show ?case by (auto simp: on_db_def Roles_Has_iff)
qed

lemma RequireRole_unfold:
  assumes "rq_uid r = Some uid"
  shows "\<exists>k. RequireRole S roles nxt r w =
    (if role_granted S uid roles (wdb w) then nxt r (w\<lparr>wdb := (wdb w)\<lparr>tick := k\<rparr>\<rparr>)
     else (Returned, on_writer (http_error ''forbidden'' 403) (w\<lparr>wdb := (wdb w)\<lparr>tick := k\<rparr>\<rparr>)))"
proof -
  obtain k where k: "snd (has_any S uid roles w) = w\<lparr>wdb := (wdb w)\<lparr>tick := k\<rparr>\<rparr>"
    using has_any_tabs by blast
  then have "has_any S uid roles w = (role_granted S uid roles (wdb w), w\<lparr>wdb := (wdb w)\<lparr>tick := k\<rparr>\<rparr>)"
    by (simp add: prod_eq_iff has_any_granted)
  then show ?thesis using assms by (auto simp: RequireRole_def)
qed

section \<open>Properties\<close>

text \<open>
  C11. The token check is a gate: the next handler runs, with the user id of the token's subject,
  exactly when the request carries a bearer token that parses, is signed with the verifier's key
  for its \<open>kid\<close>, has valid claims, a numeric subject and no past expiry; every other request is
  answered with 401, and the next handler, whatever it is, is not called.
\<close>

theorem token_gate:
  assumes "w_sent (wr w) = None"
  shows "if \<exists>tok u. header r ''Authorization'' = bearer tok \<and>
        token_user S keys expected pick tok (clock w) = Some u
    then \<exists>tok u. header r ''Authorization'' = bearer tok \<and>
        token_user S keys expected pick tok (clock w) = Some u \<and>
        AuthWith S keys expected pick nxt r w =
          nxt (r\<lparr>rq_uid := Some u\<rparr>) (w\<lparr>clock := clock w + 2\<rparr>)
    else status_of (wr (snd (AuthWith S keys expected pick nxt r w))) = 401 \<and>
      wdb (snd (AuthWith S keys expected pick nxt r w)) = wdb w"
proof (cases "\<exists>tok u. header r ''Authorization'' = bearer tok \<and>
    token_user S keys expected pick tok (clock w) = Some u")
  case True
  then obtain tok u where "header r ''Authorization'' = bearer tok"
    "token_user S keys expected pick tok (clock w) = Some u" by blast
  with AuthWith_accepts [OF this, of nxt] True show ?thesis by auto
next
  case False
  show ?thesis
    unfolding if_not_P [OF False] using AuthWith_rejects [OF False assms, of nxt] by blast
qed

definition demo_keys :: key_set where
  "demo_keys = [''k1'' \<mapsto> ''secret'']"

definition bearer_req :: "string \<Rightarrow> req" where
  "bearer_req tok = bare_req\<lparr>rq_headers := [''Authorization'' \<mapsto> bearer tok]\<rparr>"

lemma bearer_req_simps [simp]:
  "header (bearer_req tok) ''Authorization'' = bearer tok" "rq_uid (bearer_req tok) = None"
  by (simp_all add: bearer_req_def header_def get_or_empty_def)

lemma bearer_inj [simp]: "bearer a = bearer b \<longleftrightarrow> a = b"
  by (simp add: bearer_def)

lemma demo_token_user [simp]: "token_user demo_sys demo_keys expected pick ''tok'' c = Some 7"
  by (simp add: token_user_def demo_claims_def claim_num_def verify_key_def demo_keys_def
      unix_secs_def second_def trunc64_def in_i64_def min_i64_def max_i64_def)

theorem token_gate_witness:
  "AuthWith demo_sys demo_keys (''i'', ''a'') (\<lambda>_. []) (\<lambda>r w. (Returned, w\<lparr>failed_logins := nat (the (rq_uid r))\<rparr>))
     (bearer_req ''tok'') (world_on empty_tables) =
   (Returned, (world_on empty_tables)\<lparr>clock := 2, failed_logins := 7\<rparr>)"
proof -
  let ?n = "\<lambda>r w. (Returned, w\<lparr>failed_logins := nat (the (rq_uid r))\<rparr>)"
  have yes: "\<exists>tok u. header (bearer_req ''tok'') ''Authorization'' = bearer tok \<and>
      token_user demo_sys demo_keys (''i'', ''a'') (\<lambda>_. []) tok (clock (world_on empty_tables)) = Some u"
    by simp
  have "w_sent (wr (world_on empty_tables)) = None" by simp
  from token_gate [OF this, of "bearer_req ''tok''" demo_sys demo_keys "(''i'', ''a'')" "\<lambda>_. []" ?n]
  show ?thesis using yes by auto
qed

text \<open>
  C12. The role check is a gate: behind it the next handler runs exactly when the request has a
  user and the database answers yes for one of the listed roles; without a user the answer is
  401, otherwise 403, in particular whenever the database does not answer.
\<close>

theorem role_gate:
  assumes "w_sent (wr w) = None"
  shows "case rq_uid r of
      None \<Rightarrow> status_of (wr (snd (RequireRole S roles nxt r w))) = 401
    | Some uid \<Rightarrow>
        if role_granted S uid roles (wdb w)
        then \<exists>k. RequireRole S roles nxt r w = nxt r (w\<lparr>wdb := (wdb w)\<lparr>tick := k\<rparr>\<rparr>)
        else status_of (wr (snd (RequireRole S roles nxt r w))) = 403 \<and>
          tabs (wdb (snd (RequireRole S roles nxt r w))) = tabs (wdb w)"
proof (cases "rq_uid r")
  case None
  with assms show ?thesis by (simp add: RequireRole_def)
next
  case (Some uid)
  from RequireRole_unfold [OF this, of S roles nxt w] obtain k where
    "RequireRole S roles nxt r w =
      (if role_granted S uid roles (wdb w) then nxt r (w\<lparr>wdb := (wdb w)\<lparr>tick := k\<rparr>\<rparr>)
       else (Returned, on_writer (http_error ''forbidden'' 403) (w\<lparr>wdb := (wdb w)\<lparr>tick := k\<rparr>\<rparr>)))"
    by blast
  with Some assms show ?thesis by auto
qed

theorem role_gate_witness:
  "status_of (wr (snd (RequireRole demo_sys [''admin''] (\<lambda>r w. (Returned, w)) (note_req [])
     (world_on (empty_tables\<lparr>user_role_rows := [(7, 2), (8, 1)]\<rparr>))))) = 403"
proof -
  let ?w = "world_on (empty_tables\<lparr>user_role_rows := [(7, 2), (8, 1)]\<rparr>)"
  have "\<not> role_granted demo_sys 7 [''admin''] (wdb ?w)"
    by (simp add: role_granted_def holds_role_def)
  moreover have "w_sent (wr ?w) = None" by simp
  from role_gate [OF this, where r = "note_req []" and S = demo_sys and roles = "[''admin'']"
      and nxt = "\<lambda>r w. (Returned, w)"]
  have "if role_granted demo_sys 7 [''admin''] (wdb ?w)
    then \<exists>k. RequireRole demo_sys [''admin''] (\<lambda>r w. (Returned, w)) (note_req []) ?w =
      (Returned, ?w\<lparr>wdb := (wdb ?w)\<lparr>tick := k\<rparr>\<rparr>)
    else status_of (wr (snd (RequireRole demo_sys [''admin''] (\<lambda>r w. (Returned, w)) (note_req []) ?w))) = 403 \<and>
      tabs (wdb (snd (RequireRole demo_sys [''admin''] (\<lambda>r w. (Returned, w)) (note_req []) ?w))) = tabs (wdb ?w)"
    by (simp only: note_req_simps option.case)
  ultimately show ?thesis by (simp only: if_False)
qed

end
