(* ===== verification/Go_Duration.thy ===== *)
theory Go_Duration
  imports Go_Numbers Complex_Main
begin

text \<open>
  \<open>strconv.ParseFloat(s, 64)\<close> and \<open>time.ParseDuration\<close>, which the configuration reads its settings
  with. A \<open>float64\<close> is a rational that the format can hold, an infinity or not a number (zero has
  one sign here); \<open>f64\<close> rounds to nearest, ties to even. Durations are nanoseconds.
\<close>

section \<open>Rounding to float64\<close>

fun bit_length :: "nat \<Rightarrow> nat" where
  "bit_length n = (if n = 0 then 0 else Suc (bit_length (n div 2)))"

declare bit_length.simps [simp del]

definition two_to :: "int \<Rightarrow> rat" where
  "two_to e = (if 0 \<le> e then 2 ^ nat e else 1 / 2 ^ nat (- e))"

definition half_even :: "rat \<Rightarrow> int" where
  "half_even q =
     (let f = floor q; d = q - of_int f
      in if d < 1 / 2 then f else if 1 / 2 < d then f + 1 else if even f then f else f + 1)"

text \<open>
  The exponent is chosen so that the significand has 53 bits, or fewer below the normal range.
\<close>

definition f64_exponent :: "rat \<Rightarrow> int" where
  "f64_exponent q =
     (case quotient_of q of (n, d) \<Rightarrow>
        let e0 = int (bit_length (nat n)) - int (bit_length (nat d)) - 53;
            e = (if 2 ^ 53 \<le> q / two_to e0 then e0 + 1 else e0)
        in max e (- 1074))"

definition f64 :: "rat \<Rightarrow> rat" where
  "f64 q =
     (if q \<le> 0 then 0 else let e = f64_exponent q in of_int (half_even (q / two_to e)) * two_to e)"

section \<open>ParseFloat\<close>

datatype float64 = Fin rat | FInf bool | FNaN

text \<open>Finite values end below \<open>2 ^ 1024 = (2 ^ 32) ^ 32\<close>.\<close>

definition to_f64 :: "bool \<Rightarrow> rat \<Rightarrow> float64 option" where
  "to_f64 neg q =
     (let v = f64 q in if (2 ^ 32) ^ 32 \<le> v then None else Some (Fin (if neg then - v else v)))"

definition lower_ascii :: "char \<Rightarrow> char" where
  "lower_ascii c =
     (let b = of_char c in if 65 \<le> b \<and> b \<le> (90 :: nat) then char_of (b + 32) else c)"

definition float_digit :: "bool \<Rightarrow> char \<Rightarrow> nat option" where
  "float_digit hx c =
     (if is_digit c then Some (digit_val c)
      else let b = of_char (lower_ascii c)
           in if hx \<and> 97 \<le> b \<and> b \<le> (102 :: nat) then Some (b - 87) else None)"

text \<open>
  \<open>underscoreOK\<close> on the text without sign and base prefix; \<open>ok\<close> says that an underscore may come
  next, \<open>due\<close> that a digit must.
\<close>

fun underscores_ok :: "bool \<Rightarrow> bool \<Rightarrow> bool \<Rightarrow> string \<Rightarrow> bool" where
  "underscores_ok hx ok due [] = (\<not> due)"
| "underscores_ok hx ok due (c # s) =
     (if float_digit hx c \<noteq> None then underscores_ok hx True False s
      else if c = CHR ''_'' then ok \<and> \<not> due \<and> underscores_ok hx False True s
      else \<not> due \<and> underscores_ok hx False False s)"

definition number_of :: "nat \<Rightarrow> bool \<Rightarrow> string \<Rightarrow> nat" where
  "number_of base hx s =
     foldl (\<lambda>n c. case float_digit hx c of Some d \<Rightarrow> n * base + d | None \<Rightarrow> n) 0 s"

text \<open>The digits of an exponent; the value stops growing at 10000.\<close>

definition exponent_of :: "string \<Rightarrow> nat" where
  "exponent_of s =
     foldl (\<lambda>e c. if c = CHR ''_'' then e else if e < 10000 then e * 10 + digit_val c else e) 0 s"

text \<open>\<open>None\<close>: the text is no exponent. The empty text is one for a decimal number.\<close>

definition exponent_part :: "bool \<Rightarrow> string \<Rightarrow> int option" where
  "exponent_part hx s =
     (case s of
        [] \<Rightarrow> if hx then None else Some 0
      | c # r \<Rightarrow>
          if lower_ascii c \<noteq> (if hx then CHR ''p'' else CHR ''e'') then None
          else
            (let neg = has_prefix r ''-'';
                 ds = (if neg \<or> has_prefix r ''+'' then drop 1 r else r)
             in if ds = [] \<or> \<not> is_digit (hd ds) \<or> \<not> list_all (\<lambda>c. is_digit c \<or> c = CHR ''_'') ds
                then None
                else Some (if neg then - int (exponent_of ds) else int (exponent_of ds))))"

definition float_special :: "string \<Rightarrow> float64 option" where
  "float_special s =
     (let neg = has_prefix s ''-''; t = map lower_ascii (if neg \<or> has_prefix s ''+'' then drop 1 s else s)
      in if t = ''inf'' \<or> t = ''infinity'' then Some (FInf neg)
         else if map lower_ascii s = ''nan'' then Some FNaN else None)"

definition float_number :: "string \<Rightarrow> float64 option" where
  "float_number s0 =
     (let neg = has_prefix s0 ''-'';
          s = (if neg \<or> has_prefix s0 ''+'' then drop 1 s0 else s0);
          hx = (2 < length s \<and> s ! 0 = CHR ''0'' \<and> lower_ascii (s ! 1) = CHR ''x'');
          t = (if hx then drop 2 s else s);
          m = takeWhile (\<lambda>c. float_digit hx c \<noteq> None \<or> c = CHR ''.'' \<or> c = CHR ''_'') t;
          whole = takeWhile (\<lambda>c. c \<noteq> CHR ''.'') m;
          part = drop (Suc (length whole)) m;
          places = length (filter (\<lambda>c. float_digit hx c \<noteq> None) part)
      in if CHR ''.'' \<in> set part \<or> \<not> list_ex (\<lambda>c. float_digit hx c \<noteq> None) m then None
         else
           (case exponent_part hx (drop (length m) t) of
              None \<Rightarrow> None
            | Some e \<Rightarrow>
                if CHR ''_'' \<in> set s \<and> \<not> underscores_ok hx hx False t then None
                else
                  (let n = rat_of_nat (number_of (if hx then 16 else 10) hx (whole @ part))
                   in to_f64 neg
                     (if hx then n * two_to (e - 4 * int places)
                      else if int places \<le> e then n * 10 ^ nat (e - int places)
                      else n / 10 ^ nat (int places - e)))))"

definition parse_float :: "string \<Rightarrow> float64 option" where
  "parse_float s = (case float_special s of Some v \<Rightarrow> Some v | None \<Rightarrow> float_number s)"

section \<open>ParseDuration\<close>

text \<open>The units in bytes; the two micro signs are U+00B5 and U+03BC.\<close>

definition unit_of :: "string \<Rightarrow> nat option" where
  "unit_of u = map_of
     [(''ns'', 1), (''us'', 1000), ([CHR 0xC2, CHR 0xB5] @ ''s'', 1000), ([CHR 0xCE, CHR 0xBC] @ ''s'', 1000),
      (''ms'', 1000000), (''s'', 1000000000), (''m'', 60000000000), (''h'', 3600000000000)] u"

definition dur_limit :: nat where
  "dur_limit = 9223372036854775808"

fun leading_int :: "nat \<Rightarrow> string \<Rightarrow> (nat \<times> string) option" where
  "leading_int x [] = Some (x, [])"
| "leading_int x (c # s) =
     (if \<not> is_digit c then Some (x, c # s)
      else if x > dur_limit div 10 then None
      else let y = x * 10 + digit_val c in if y > dur_limit then None else leading_int y s)"

text \<open>The digits read, the power of ten they are over, and the rest; digits beyond 63 bits are skipped.\<close>

fun leading_fraction :: "nat \<Rightarrow> nat \<Rightarrow> bool \<Rightarrow> string \<Rightarrow> nat \<times> nat \<times> string" where
  "leading_fraction x k over [] = (x, k, [])"
| "leading_fraction x k over (c # s) =
     (if \<not> is_digit c then (x, k, c # s)
      else if over \<or> x > (dur_limit - 1) div 10 \<or> x * 10 + digit_val c > dur_limit
      then leading_fraction x k True s
      else leading_fraction (x * 10 + digit_val c) (Suc k) False s)"

text \<open>One element: its value, cut to nanoseconds after the products in \<open>float64\<close>, and the rest.\<close>

fun scale_of :: "nat \<Rightarrow> rat" where
  "scale_of 0 = 1"
| "scale_of (Suc k) = f64 (scale_of k * 10)"

definition dur_fraction :: "nat \<Rightarrow> nat \<Rightarrow> nat \<Rightarrow> nat" where
  "dur_fraction f k u =
     (if f = 0 then 0 else nat (floor (f64 (f64 (of_nat f) * f64 (of_nat u / scale_of k)))))"

definition dur_element :: "string \<Rightarrow> (nat \<times> string) option" where
  "dur_element s =
     (if s = [] \<or> \<not> (hd s = CHR ''.'' \<or> is_digit (hd s)) then None
      else
     (case leading_int 0 s of None \<Rightarrow> None
      | Some (v, s1) \<Rightarrow>
     (let (f, k, s2) = (if has_prefix s1 ''.'' then leading_fraction 0 0 False (drop 1 s1) else (0, 0, s1));
          digits = (s1 \<noteq> s \<or> (has_prefix s1 ''.'' \<and> s2 \<noteq> drop 1 s1));
          u = takeWhile (\<lambda>c. \<not> (c = CHR ''.'' \<or> is_digit c)) s2
      in if \<not> digits \<or> u = [] then None
         else
     (case unit_of u of None \<Rightarrow> None
      | Some unit \<Rightarrow>
          if v > dur_limit div unit then None
          else let t = v * unit + dur_fraction f k unit
               in if t > dur_limit then None else Some (t, drop (length u) s2)))))"

lemma leading_int_length: "leading_int x s = Some (v, r) \<Longrightarrow> length r \<le> length s"
  by (induction x s rule: leading_int.induct) (auto simp: Let_def split: if_splits)

lemma leading_fraction_length: "leading_fraction x k ov s = (f, j, r) \<Longrightarrow> length r \<le> length s"
proof (induction s arbitrary: x k ov)
  case (Cons c s)
  from Cons.prems Cons.IH show ?case by (force split: if_splits)
qed simp

lemma dur_element_shrinks: "dur_element s = Some (t, r) \<Longrightarrow> length r < length s"
proof -
  assume e: "dur_element s = Some (t, r)"
  then obtain v s1 where v: "leading_int 0 s = Some (v, s1)"
    by (auto simp: dur_element_def split: if_splits option.splits prod.splits)
  obtain f k s2 where f: "(if has_prefix s1 ''.'' then leading_fraction 0 0 False (drop 1 s1) else (0, 0, s1)) = (f, k, s2)"
    by (metis surj_pair)
  have "length s2 \<le> length s1" using f by (auto split: if_splits dest: leading_fraction_length)
  have "length s1 \<le> length s" using v by (rule leading_int_length)
  have "\<exists>u. u \<noteq> [] \<and> r = drop (length u) s2 \<and> length u \<le> length s2"
    using e v f by (auto simp: dur_element_def Let_def split: if_splits option.splits prod.splits
        intro!: exI [of _ "takeWhile (\<lambda>c. \<not> (c = CHR ''.'' \<or> is_digit c)) s2"] length_takeWhile_le)
  then obtain u where u: "u \<noteq> []" "r = drop (length u) s2" "length u \<le> length s2" by blast
  have "length r = length s2 - length u" and "0 < length u" using u by simp_all
  with u(3) have "length r < length s2" by linarith
  with \<open>length s2 \<le> length s1\<close> \<open>length s1 \<le> length s\<close> show ?thesis by linarith
qed

function dur_sum :: "nat \<Rightarrow> string \<Rightarrow> nat option" where
  "dur_sum d s =
     (if s = [] then Some d
      else case dur_element s of None \<Rightarrow> None
           | Some (t, r) \<Rightarrow>
               let d1 = (d + t) mod 18446744073709551616
               in if d1 > dur_limit then None else dur_sum d1 r)"
  by pat_completeness auto
termination by (relation "measure (\<lambda>(d, s). length s)") (auto dest: dur_element_shrinks)

declare dur_sum.simps [simp del]

definition parse_duration :: "string \<Rightarrow> int option" where
  "parse_duration s0 =
     (let neg = has_prefix s0 ''-'';
          s = (if neg \<or> has_prefix s0 ''+'' then drop 1 s0 else s0)
      in if s = ''0'' then Some 0
         else if s = [] then None
         else case dur_sum 0 s of
                None \<Rightarrow> None
              | Some d \<Rightarrow>
                  if neg then Some (- int d) else if d > dur_limit - 1 then None else Some (int d))"

end
