(* ===== verification/Config.thy ===== *)
theory Config
  imports Http Go_Duration
begin

text \<open>
  \<open>internal/config/config.go\<close>: the configuration, the readers of single settings and \<open>Load\<close>.
  Durations are nanoseconds. \<open>os.Getenv\<close> is the argument \<open>getenv\<close>; a setting that does not parse
  is a panic, here \<open>Inl\<close> with the message.
\<close>

section \<open>The configuration\<close>

record config =
  c_env :: string
  c_port :: string
  c_read_timeout :: int
  c_write_timeout :: int
  c_db_dsn :: string
  c_db_timeout :: int
  c_jwt_secret :: string
  c_jwt_ttl :: int
  c_refresh_ttl :: int
  c_max_body :: int
  c_cors :: "string list"
  c_metrics_allow :: string
  c_bcrypt_cost :: int
  c_rate_rps :: float64
  c_rate_burst :: int
  c_issuer :: string
  c_audience :: string
  c_rate_auth_rps :: float64
  c_rate_auth_burst :: int
  c_otel_endpoint :: string
  c_otel_sample :: float64
  c_redis_addr :: string
  c_redis_pass :: string
  c_redis_db :: int
  c_redis_tls :: bool
  c_jti_prefix :: string
  c_rate_allow :: string

section \<open>Single settings\<close>

definition getenv_or :: "(string \<Rightarrow> string) \<Rightarrow> string \<Rightarrow> string \<Rightarrow> string" where
  "getenv_or getenv k def = (if getenv k \<noteq> [] then getenv k else def)"

definition mustDur :: "(string \<Rightarrow> string) \<Rightarrow> string \<Rightarrow> string \<Rightarrow> (string, int) result" where
  "mustDur getenv k def =
     (let v = getenv_or getenv k def
      in case parse_duration v of Some d \<Rightarrow> Inr d | None \<Rightarrow> Inl (k @ '': invalid duration '' @ v))"

definition mustInt :: "(string \<Rightarrow> string) \<Rightarrow> string \<Rightarrow> string \<Rightarrow> (string, int) result" where
  "mustInt getenv k def =
     (let v = getenv_or getenv k def
      in case parse_int v of (n, None) \<Rightarrow> Inr n | (_, Some _) \<Rightarrow> Inl (k @ '': invalid int '' @ v))"

definition mustFloat :: "(string \<Rightarrow> string) \<Rightarrow> string \<Rightarrow> string \<Rightarrow> (string, float64) result" where
  "mustFloat getenv k def =
     (let v = getenv_or getenv k def
      in case parse_float v of Some f \<Rightarrow> Inr f | None \<Rightarrow> Inl (k @ '': invalid float '' @ v))"

definition splitCSV :: "string \<Rightarrow> string list" where
  "splitCSV s = (if s = [] then [] else map trim_space (go_split CHR '','' s))"

definition mysqlDSNFromEnv :: "(string \<Rightarrow> string) \<Rightarrow> string" where
  "mysqlDSNFromEnv getenv =
     (if getenv ''DB_DSN'' \<noteq> [] then getenv ''DB_DSN''
      else
        let host = getenv_or getenv ''DB_HOST'' ''127.0.0.1'';
            port = getenv_or getenv ''DB_PORT'' ''3306'';
            name = getenv_or getenv ''DB_DATABASE'' ''notes'';
            user = getenv_or getenv ''DB_USERNAME'' ''notes'';
            pass = getenv_or getenv ''DB_PASSWORD'' ''notes''
        in user @ '':'' @ pass @ ''@tcp('' @ host @ '':'' @ port @ '')/'' @ name @
           ''?parseTime=true&multiStatements=true&charset=utf8mb4'')"

section \<open>Load\<close>

fun and_then :: "('e, 'a) result \<Rightarrow> ('a \<Rightarrow> ('e, 'b) result) \<Rightarrow> ('e, 'b) result" where
  "and_then (Inl e) f = Inl e"
| "and_then (Inr a) f = f a"

text \<open>The settings that can panic, in the order of the composite literal.\<close>

definition Load_config :: "(string \<Rightarrow> string) \<Rightarrow> (string, config) result" where
  "Load_config ge =
     and_then (mustDur ge ''APP_READ_TIMEOUT'' ''5s'') (\<lambda>readTimeout.
     and_then (mustDur ge ''APP_WRITE_TIMEOUT'' ''10s'') (\<lambda>writeTimeout.
     and_then (mustDur ge ''DB_TIMEOUT'' ''3s'') (\<lambda>dbTimeout.
     and_then (mustFloat ge ''RATE_AUTH_RPS'' ''2'') (\<lambda>rateAuthRPS.
     and_then (mustInt ge ''RATE_AUTH_BURST'' ''5'') (\<lambda>rateAuthBurst.
     and_then (mustDur ge ''JWT_TTL'' ''15m'') (\<lambda>jwtTTL.
     and_then (mustDur ge ''REFRESH_TTL'' ''720h'') (\<lambda>refreshTTL.
     and_then (mustFloat ge ''OTEL_SAMPLER'' ''0.1'') (\<lambda>otelSample.
     and_then (mustInt ge ''REDIS_DB'' ''0'') (\<lambda>redisDB.
     and_then (mustInt ge ''MAX_BODY_BYTES'' ''1048576'') (\<lambda>maxBody.
     and_then (mustInt ge ''BCRYPT_COST'' ''12'') (\<lambda>bcryptCost.
     and_then (mustFloat ge ''RATE_RPS'' ''10'') (\<lambda>rateRPS.
     and_then (mustInt ge ''RATE_BURST'' ''10'') (\<lambda>rateBurst.
       Inr \<lparr>c_env = getenv_or ge ''APP_ENV'' ''dev'', c_port = getenv_or ge ''APP_PORT'' ''8080'',
         c_read_timeout = readTimeout, c_write_timeout = writeTimeout,
         c_db_dsn = mysqlDSNFromEnv ge, c_db_timeout = dbTimeout,
         c_jwt_secret = getenv_or ge ''JWT_SECRET'' ''dev-secret'',
         c_jwt_ttl = jwtTTL, c_refresh_ttl = refreshTTL, c_max_body = maxBody,
         c_cors = splitCSV (getenv_or ge ''CORS_ORIGINS'' ''*''),
         c_metrics_allow = getenv_or ge ''METRICS_ALLOW'' ''127.0.0.1/32'',
         c_bcrypt_cost = bcryptCost, c_rate_rps = rateRPS, c_rate_burst = rateBurst,
         c_issuer = getenv_or ge ''JWT_ISSUER'' ''go-notes-api'',
         c_audience = getenv_or ge ''JWT_AUDIENCE'' ''notes-api'',
         c_rate_auth_rps = rateAuthRPS, c_rate_auth_burst = rateAuthBurst,
         c_otel_endpoint = getenv_or ge ''OTEL_ENDPOINT'' [], c_otel_sample = otelSample,
         c_redis_addr = getenv_or ge ''REDIS_ADDR'' ''127.0.0.1:6379'',
         c_redis_pass = getenv_or ge ''REDIS_PASSWORD'' [], c_redis_db = redisDB,
         c_redis_tls = (getenv_or ge ''REDIS_TLS'' ''false'' = ''true''),
         c_jti_prefix = getenv_or ge ''JWT_JTI_PREFIX'' ''jti:'',
         c_rate_allow = getenv_or ge ''RATE_ALLOW_CIDR'' []\<rparr>)))))))))))))"

lemma splitCSV_no_comma:
  "x \<in> set (splitCSV s) \<Longrightarrow> \<exists>p. CHR '','' \<notin> set p \<and> x = trim_space p"
  by (auto simp: splitCSV_def dest: go_split_sep_free split: if_splits)

section \<open>What a loaded configuration satisfies\<close>

lemma and_then_Inr: "and_then x f = Inr b \<longleftrightarrow> (\<exists>a. x = Inr a \<and> f a = Inr b)"
  by (cases x) auto

lemma dur_sum_bound: "d \<le> dur_limit \<Longrightarrow> dur_sum d s = Some t \<Longrightarrow> t \<le> dur_limit"
proof (induction d s rule: dur_sum.induct)
  case (1 d s)
  then show ?case
    by (subst (asm) (2) dur_sum.simps) (auto simp: Let_def split: if_splits option.splits prod.splits)
qed

lemma parse_duration_range: "parse_duration s = Some d \<Longrightarrow> in_i64 d"
  using dur_sum_bound [of 0]
  by (fastforce simp: parse_duration_def Let_def in_i64_def min_i64_def max_i64_def dur_limit_def
      split: if_splits option.splits)

lemma mustDur_range: "mustDur ge k def = Inr d \<Longrightarrow> in_i64 d"
  by (auto simp: mustDur_def Let_def intro: parse_duration_range split: option.splits)

lemma mustInt_range: "mustInt ge k def = Inr n \<Longrightarrow> in_i64 n"
  using parse_int_range [of "getenv_or ge k def"]
  by (auto simp: mustInt_def Let_def split: prod.splits option.splits)

section \<open>Durations written with one unit\<close>

lemma leading_int_dec:
  "leading_int 0 (dec_nat n @ s) = (if n \<le> dur_limit then leading_int n s else None)"
proof (induction n arbitrary: s rule: dec_nat.induct)
  case (1 n)
  show ?case
  proof (cases "n < 10")
    case True
    then show ?thesis by (simp add: dec_nat_less_10 dur_limit_def Let_def)
  next
    case False
    then have ih: "leading_int 0 (dec_nat (n div 10) @ s') =
        (if n div 10 \<le> dur_limit then leading_int (n div 10) s' else None)" for s'
      by (rule 1)
    have n: "n div 10 * 10 + n mod 10 = n" by simp
    show ?thesis
      using False n by (auto simp: dec_nat_step ih Let_def dur_limit_def)
  qed
qed

definition unit_char :: "char \<Rightarrow> bool" where
  "unit_char c \<longleftrightarrow> \<not> (c = CHR ''.'' \<or> is_digit c)"

lemma units_plain: "unit_of u = Some unit \<Longrightarrow> u \<noteq> [] \<and> list_all unit_char u \<and> 0 < unit"
  by (auto simp: unit_of_def unit_char_def is_digit_def split: if_splits)

lemma dur_element_unit:
  assumes "unit_of u = Some unit"
  shows "dur_element (dec_nat n @ u) = (if n * unit \<le> dur_limit then Some (n * unit, []) else None)"
proof -
  obtain c u' where u: "u = c # u'" "unit_char c" "list_all unit_char u" "0 < unit"
    using units_plain [OF assms] by (cases u) auto
  have "hd (dec_nat n @ u) = hd (dec_nat n)" by simp
  then have hd: "is_digit (hd (dec_nat n @ u))" using dec_nat_head by simp
  have tw: "takeWhile (\<lambda>c. \<not> (c = CHR ''.'' \<or> is_digit c)) u = u"
    using u(3) by (simp add: takeWhile_eq_all_conv list_all_iff unit_char_def)
  have lim: "n * unit \<le> dur_limit \<longleftrightarrow> n \<le> dur_limit div unit"
    using u(4) by (simp add: less_eq_div_iff_mult_less_eq)
  have big: "dur_limit < n \<Longrightarrow> dur_limit < n * unit"
    using u(4) by (metis less_le_trans mult.right_neutral mult_le_mono2 Suc_leI One_nat_def)
  have pre: "leading_int n u = Some (n, u)" "\<not> has_prefix u ''.''" "u \<noteq> dec_nat n @ u"
    using u by (auto simp: unit_char_def has_prefix_def)
  show ?thesis
  proof (cases "n \<le> dur_limit")
    case True
    have "dur_element (dec_nat n @ u) =
        (if n > dur_limit div unit then None
         else if n * unit > dur_limit then None else Some (n * unit, []))"
      using hd True pre tw assms u(1)
      by (simp add: dur_element_def leading_int_dec dur_fraction_def Let_def)
    with lim show ?thesis by auto
  next
    case False
    then show ?thesis using hd big by (simp add: dur_element_def leading_int_dec)
  qed
qed

lemma parse_duration_unit:
  assumes "unit_of u = Some unit"
  shows "parse_duration (dec_nat n @ u) = (if int (n * unit) \<le> max_i64 then Some (int (n * unit)) else None)"
proof -
  have u: "u \<noteq> []" "list_all unit_char u" using units_plain [OF assms] by auto
  have sign: "\<not> has_prefix (dec_nat n @ u) ''-''" "\<not> has_prefix (dec_nat n @ u) ''+''"
    using dec_nat_no_sign [of n] by (simp_all add: has_prefix_one)
  have "dec_nat n @ u \<noteq> ''0''"
    using u(1) by (metis append_is_Nil_conv butlast.simps(2) butlast_append dec_nat_ne list.distinct(1))
  then show ?thesis
    using sign of_nat_le_iff [of "n * unit" 9223372036854775807, where ?'a = int]
    by (auto simp: parse_duration_def Let_def dur_sum.simps dur_element_unit [OF assms]
        dur_limit_def max_i64_def)
qed

text \<open>The configuration of an empty environment.\<close>

lemma load_defaults:
  "\<exists>c. Load_config (\<lambda>_. []) = Inr c \<and> c_jwt_ttl c = 900 * second \<and>
     c_refresh_ttl c = 720 * 3600 * second \<and> c_otel_sample c = Fin (3602879701896397 / 36028797018963968)"
proof -
  have n: "dec_nat 5 = ''5''" "dec_nat 10 = ''10''" "dec_nat 3 = ''3''" "dec_nat 15 = ''15''" "dec_nat 720 = ''720''"
    by code_simp+
  have u: "unit_of ''s'' = Some 1000000000" "unit_of ''m'' = Some 60000000000" "unit_of ''h'' = Some 3600000000000"
    by (simp_all add: unit_of_def)
  have d: "parse_duration ''5s'' = Some 5000000000" "parse_duration ''10s'' = Some 10000000000"
    "parse_duration ''3s'' = Some 3000000000" "parse_duration ''15m'' = Some 900000000000"
    "parse_duration ''720h'' = Some 2592000000000000"
    using parse_duration_unit [OF u(1), of 5] parse_duration_unit [OF u(1), of 10]
      parse_duration_unit [OF u(1), of 3] parse_duration_unit [OF u(2), of 15]
      parse_duration_unit [OF u(3), of 720]
    by (simp_all add: n max_i64_def)
  have n2: "format_int 5 = ''5''" "format_int 0 = ''0''" "format_int 1048576 = ''1048576''"
    "format_int 12 = ''12''" "format_int 10 = ''10''"
    by (simp_all add: format_int_def dec_nat_step dec_nat_less_10 digit_literals)
  have i: "parse_int ''5'' = (5, None)" "parse_int ''0'' = (0, None)" "parse_int ''1048576'' = (1048576, None)"
    "parse_int ''12'' = (12, None)" "parse_int ''10'' = (10, None)"
    using parse_format_int [of 5] parse_format_int [of 0] parse_format_int [of 1048576]
      parse_format_int [of 12] parse_format_int [of 10]
    by (simp_all only: n2) (simp_all add: in_i64_def max_i64_def min_i64_def)
  have f: "parse_float ''2'' = Some (Fin 2)" "parse_float ''10'' = Some (Fin 10)"
    "parse_float ''0.1'' = Some (Fin (3602879701896397 / 36028797018963968))"
    by code_simp+
  obtain c where c: "Load_config (\<lambda>_. []) = Inr c" "c_jwt_ttl c = 900000000000"
    "c_refresh_ttl c = 2592000000000000" "c_otel_sample c = Fin (3602879701896397 / 36028797018963968)"
    by (simp add: Load_config_def mustDur_def mustInt_def mustFloat_def getenv_or_def d i f)
  then show ?thesis by (simp add: second_def)
qed

section \<open>Properties\<close>

definition config_ok :: "config \<Rightarrow> bool" where
  "config_ok c \<longleftrightarrow>
     list_all in_i64 [c_read_timeout c, c_write_timeout c, c_db_timeout c, c_jwt_ttl c,
       c_refresh_ttl c, c_max_body c, c_bcrypt_cost c, c_rate_burst c, c_rate_auth_burst c, c_redis_db c] \<and>
     list_all (\<lambda>x. CHR '','' \<notin> set x \<and> trim_space x = x) (c_cors c) \<and>
     list_all (\<lambda>x. x \<noteq> []) [c_port c, c_issuer c, c_audience c, c_jti_prefix c, c_jwt_secret c]"

lemma splitCSV_trimmed: "x \<in> set (splitCSV s) \<Longrightarrow> CHR '','' \<notin> set x \<and> trim_space x = x"
  by (drule splitCSV_no_comma) (auto simp: trim_space_idem dest: trim_space_subset)

lemma getenv_or_ne: "def \<noteq> [] \<Longrightarrow> getenv_or ge k def \<noteq> []"
  by (simp add: getenv_or_def)

text \<open>
  C38. A loaded configuration is well-typed: whatever the environment holds, if \<open>Load\<close> returns, every
  duration and integer of the configuration is in the 64-bit range, the allowed origins hold no
  comma and no outer white space, and the port, the issuer, the audience, the token id prefix and
  the secret are not empty.
\<close>

theorem load_is_well_typed:
  assumes "Load_config ge = Inr c"
  shows "config_ok c"
  using assms
  by (auto simp: Load_config_def and_then_Inr config_ok_def list_all_iff
      dest: mustDur_range mustInt_range splitCSV_trimmed getenv_or_ne [THEN notE, rotated])

text \<open>
  A duration setting written as a number with one unit is read exactly, up to the largest
  duration; one that is too large is a panic that names the variable, never a wrapped value.
\<close>

theorem duration_setting:
  assumes "ge k = dec_nat n @ u" and "unit_of u = Some unit"
  shows "mustDur ge k def =
    (if int (n * unit) \<le> max_i64 then Inr (int (n * unit))
     else Inl (k @ '': invalid duration '' @ dec_nat n @ u))"
  using assms by (simp add: mustDur_def getenv_or_def parse_duration_unit Let_def)

theorem load_is_well_typed_witness:
  "\<exists>c. Load_config (\<lambda>_. []) = Inr c \<and> config_ok c \<and> c_jwt_ttl c = 900 * second \<and>
     c_refresh_ttl c = 720 * 3600 * second \<and> c_otel_sample c = Fin (3602879701896397 / 36028797018963968)"
proof -
  obtain c where c: "Load_config (\<lambda>_. []) = Inr c" "c_jwt_ttl c = 900 * second"
    "c_refresh_ttl c = 720 * 3600 * second" "c_otel_sample c = Fin (3602879701896397 / 36028797018963968)"
    using load_defaults by blast
  from load_is_well_typed [OF c(1)] c show ?thesis by blast
qed

theorem duration_setting_witness:
  "mustDur (\<lambda>_. dec_nat 2562048 @ ''h'') ''JWT_TTL'' ''15m'' =
     Inl (''JWT_TTL'' @ '': invalid duration '' @ dec_nat 2562048 @ ''h'')"
  by (subst duration_setting [where n = 2562048 and u = "''h''" and unit = 3600000000000])
    (simp_all add: unit_of_def max_i64_def)

end
