(* ===== verification/Auth_Handler.thy ===== *)
theory Auth_Handler
  imports Auth_Middleware Users_Repo Refresh_Tokens Notes_Handler Config
begin

text \<open>
  \<open>internal/handlers/auth.go\<close>: registration, login, refresh and logout, on the repositories of
  users, roles and refresh tokens, the login guard and the store of revoked token ids. The
  answer of the e-mail limiter is the argument \<open>emailAllows\<close>, the token keys are the
  provider \<open>p\<close>. A draw of random bytes that the code does not make leaves a gap in the
  numbering of the draws.
\<close>

section \<open>Registration\<close>

definition decode_creds :: "req \<Rightarrow> (string \<times> string) option" where
  "decode_creds r = decode_two ''email'' ''password'' (rq_broken r) (rq_body r)"

text \<open>The validator's rules \<open>required,email,max=200\<close> and \<open>required,min=8,max=128\<close>, in runes.\<close>

definition valid_creds :: "sys \<Rightarrow> string \<Rightarrow> string \<Rightarrow> bool" where
  "valid_creds S email pw \<longleftrightarrow>
     email \<noteq> [] \<and> valid_email S email \<and> rune_count email \<le> 200 \<and>
     pw \<noteq> [] \<and> 8 \<le> rune_count pw \<and> rune_count pw \<le> 128"

text \<open>\<open>string(hash)\<close>: an error of \<open>GenerateFromPassword\<close> is dropped and the hash is nil.\<close>

definition stored_hash :: "sys \<Rightarrow> config \<Rightarrow> string \<Rightarrow> string" where
  "stored_hash S cfg pw = (case bcrypt_hash S pw (c_bcrypt_cost cfg) of Some h \<Rightarrow> h | None \<Rightarrow> [])"

definition error_answer :: "string \<Rightarrow> int \<Rightarrow> world \<Rightarrow> flow \<times> world" where
  "error_answer msg c w = (Returned, on_writer (http_error msg c) w)"

definition auth_register :: "sys \<Rightarrow> config \<Rightarrow> handler" where
  "auth_register S cfg r w =
     (case decode_creds r of
        None \<Rightarrow> error_answer ''bad json'' 400 w
      | Some (email, pw) \<Rightarrow>
          if \<not> valid_creds S email pw then error_answer ''invalid'' 422 w
          else
     (case on_db (Users_Create (senv S) email (stored_hash S cfg pw)) w of
        (Inl _, w1) \<Rightarrow> error_answer ''conflict'' 409 w1
      | (Inr i, w1) \<Rightarrow>
          (let w2 = snd (on_db (Roles_Assign (senv S) i ''user'') w1)
           in answer (encode_line (JObj [(''id'', JInt i)])) w2)))"

section \<open>Access tokens\<close>

text \<open>\<open>DATETIME\<close> rounds the microseconds that the driver sends to whole seconds.\<close>

definition datetime_of :: "int \<Rightarrow> int" where
  "datetime_of tm = (tm div 1000 + 500000) div 1000000"

definition login_claims :: "config \<Rightarrow> int \<Rightarrow> int \<Rightarrow> int \<Rightarrow> string \<Rightarrow> claims" where
  "login_claims cfg uid tm1 tm2 jti =
     [''sub'' \<mapsto> CNum (of_int uid),
      ''exp'' \<mapsto> CNum (of_int (unix_secs (tm1 + c_jwt_ttl cfg))),
      ''iat'' \<mapsto> CNum (of_int (unix_secs tm2)),
      ''iss'' \<mapsto> CStr (c_issuer cfg), ''aud'' \<mapsto> CStr (c_audience cfg), ''jti'' \<mapsto> CStr jti]"

text \<open>The claims with two readings of the clock and a random id, signed under the current kid.\<close>

definition issue_access ::
  "sys \<Rightarrow> config \<Rightarrow> EnvProvider \<Rightarrow> int \<Rightarrow> world \<Rightarrow> string \<times> world" where
  "issue_access S cfg p uid w =
     (case time_now S w of (tm1, w1) \<Rightarrow>
      case time_now S w1 of (tm2, w2) \<Rightarrow>
      case rand_read S 16 w2 of (b, w3) \<Rightarrow>
        (jwt_sign S (CurrentKID p) (signing_key p)
           (login_claims cfg uid tm1 tm2 (hex_encode b)), w3))"

definition tokens_json :: "string \<Rightarrow> string \<Rightarrow> json" where
  "tokens_json access refresh = JObj [(''access'', JStr access), (''refresh'', JStr refresh)]"

section \<open>Login\<close>

text \<open>\<open>int(ttl.Seconds())\<close>.\<close>

definition whole_seconds :: "int \<Rightarrow> int" where
  "whole_seconds ttl = (if ttl < 0 then - ((- ttl) div second) else ttl div second)"

definition login_guard :: Brute where
  "login_guard = \<lparr>b_limit = 10, b_window = 5 * 60 * second\<rparr>"

definition auth_login ::
  "sys \<Rightarrow> config \<Rightarrow> EnvProvider \<Rightarrow> (string \<Rightarrow> bool) \<Rightarrow> handler" where
  "auth_login S cfg p emailAllows r w =
     (case decode_creds r of
        None \<Rightarrow> error_answer ''bad json'' 400 w
      | Some (email, pw) \<Rightarrow>
          if \<not> emailAllows email then error_answer ''rate limit'' 429 w
          else
     (case on_redis (Brute_Allow S login_guard r email) w of
        ((False, _, ttl), w1) \<Rightarrow>
          fail r (App TooMany)
            (on_writer (set_hdr ''Retry-After'' (format_int (whole_seconds ttl))) w1)
      | ((True, _, _), w1) \<Rightarrow>
     (let (res, w2) = on_db (Users_FindByEmail (senv S) email) w1;
          denied = error_answer ''unauthorized'' 401 (w2\<lparr>failed_logins := Suc (failed_logins w2)\<rparr>)
      in case res of
        Inl _ \<Rightarrow> denied
      | Inr u \<Rightarrow>
          if \<not> bcrypt_ok S (u_hash u) pw then denied
          else
     (case issue_access S cfg p (u_id u) w2 of (access, w3) \<Rightarrow>
      case time_now S w3 of (tm3, w4) \<Rightarrow>
      case rand_read S 32 w4 of (b, w5) \<Rightarrow>
      case on_db (Issue (senv S) (u_id u) (datetime_of (tm3 + c_refresh_ttl cfg)) b) w5 of
        ((rt, Some _), w6) \<Rightarrow> error_answer ''server'' 500 w6
      | ((rt, None), w6) \<Rightarrow> answer (encode_line (tokens_json access rt)) w6))))"

section \<open>Refresh and logout\<close>

definition decode_refresh :: "req \<Rightarrow> string option" where
  "decode_refresh r = decode_one ''refresh'' (rq_broken r) (rq_body r)"

definition auth_refresh :: "sys \<Rightarrow> config \<Rightarrow> EnvProvider \<Rightarrow> handler" where
  "auth_refresh S cfg p r w =
     (case decode_refresh r of
        None \<Rightarrow> error_answer ''bad json'' 400 w
      | Some token \<Rightarrow>
     (case time_now S w of (tm, w1) \<Rightarrow>
      case rand_read S 32 w1 of (b, w2) \<Rightarrow>
      case on_db (UseAndRotate (senv S) token (datetime_of (tm + c_refresh_ttl cfg)) b) w2 of
        ((_, _, _, Some NoRows), w3) \<Rightarrow> error_answer ''invalid'' 401 w3
      | ((_, _, _, Some _), w3) \<Rightarrow> error_answer ''server'' 500 w3
      | ((uid, newRT, reused, None), w3) \<Rightarrow>
          if reused then error_answer ''token_reused_detected'' 401 w3
          else (case issue_access S cfg p uid w3 of
                  (access, w4) \<Rightarrow> answer (encode_line (tokens_json access newRT)) w4)))"

text \<open>The key function of \<open>Logout\<close>.\<close>

definition logout_key :: "EnvProvider \<Rightarrow> string \<Rightarrow> string option" where
  "logout_key p kid =
     (case (if kid \<noteq> [] then SecretFor p kid else None) of
        Some s \<Rightarrow> Some s
      | None \<Rightarrow> SecretFor p (CurrentKID p))"

definition claim_text :: "claims \<Rightarrow> string \<Rightarrow> string" where
  "claim_text cl k = (case cl k of Some (CStr s) \<Rightarrow> s | _ \<Rightarrow> [])"

text \<open>\<open>time.Until(time.Unix(exp, 0))\<close>, a saturating duration, and not below 0.\<close>

definition time_until :: "int \<Rightarrow> int \<Rightarrow> int" where
  "time_until ex tm = (let d = ex * second - tm in if d < 0 then 0 else min d max_i64)"

definition auth_logout :: "sys \<Rightarrow> config \<Rightarrow> EnvProvider \<Rightarrow> handler" where
  "auth_logout S cfg p r w =
     (let hdr = header r ''Authorization''
      in if \<not> has_prefix hdr ''Bearer '' then fail r (App Unauthorized) w
         else
     (case time_now S w of (tm, w1) \<Rightarrow>
      case jwt_Parse S (logout_key p) None tm (trim_prefix hdr ''Bearer '') of
        None \<Rightarrow> fail r (App Unauthorized) w1
      | Some cl \<Rightarrow>
          (let jti = claim_text cl ''jti'';
               ex = (case claim_num cl ''exp'' of Some q \<Rightarrow> trunc64 q | None \<Rightarrow> 0)
           in case time_now S w1 of (tm2, w2) \<Rightarrow>
             (let w3 = (if jti \<noteq> []
                        then snd (on_redis (jti_Revoke S (c_jti_prefix cfg) jti (time_until ex tm2)) w2)
                        else w2);
                  refresh = decode_one_loose ''refresh'' (rq_broken r) (rq_body r);
                  w4 = (if refresh \<noteq> [] then snd (on_db (Revoke (senv S) refresh) w3) else w3)
              in (Returned, on_writer (write_header 204) w4)))))"

end
