(* ===== verification/Auth_Http.thy ===== *)
theory Auth_Http
  imports Auth_Handler Notes_Http
begin

text \<open>
  What registration, login, refresh and logout guarantee and what they do not, together with the
  token check that the issued tokens are for.
\<close>

section \<open>Issuing and accepting tokens\<close>

text \<open>
  The interface between the side that signs and the side that verifies. The provider promises
  that the verifier finds, under the current \<open>kid\<close>, the key that signs, and that the token
  library accepts what it has signed with the key that the verifier finds.
\<close>

locale token_keys =
  fixes ready :: "'c \<Rightarrow> bool"
    and kid :: "'c \<Rightarrow> string"
    and key :: "'c \<Rightarrow> string"
    and find_key :: "'c \<Rightarrow> string \<Rightarrow> string option"
    and issue :: "'c \<Rightarrow> string \<Rightarrow> string \<Rightarrow> claims \<Rightarrow> string"
    and issued :: "'c \<Rightarrow> claims set"
    and reads :: "'c \<Rightarrow> (string \<Rightarrow> string option) \<Rightarrow> string \<Rightarrow> claims option"
  assumes agree: "ready c \<Longrightarrow> find_key c (kid c) = Some (key c)"
    and library: "ready c \<Longrightarrow> cl \<in> issued c \<Longrightarrow> f (kid c) = Some (key c) \<Longrightarrow>
      reads c f (issue c (kid c) (key c) cl) = Some cl"
begin

lemma issued_is_read:
  "ready c \<Longrightarrow> cl \<in> issued c \<Longrightarrow> reads c (find_key c) (issue c (kid c) (key c) cl) = Some cl"
  using agree library by blast

end

text \<open>
  The claims that the library hands back unchanged and whose dates it judges by \<open>exp\<close> alone:
  numbers are integers that a 64-bit float holds exactly, and there is no \<open>nbf\<close>.
\<close>

definition plain_claims :: "claims \<Rightarrow> bool" where
  "plain_claims cl \<longleftrightarrow> cl ''nbf'' = None \<and>
     (\<forall>k q. claim_num cl k = Some q \<longrightarrow> (\<exists>i. q = of_int i \<and> \<bar>i\<bar> \<le> 2 ^ 53))"

text \<open>
  Documented behaviour of the JWT library on the claims \<open>C\<close>, all of them plain, that are signed
  under \<open>kid\<close> with \<open>key\<close>: parsing gives back the header's \<open>kid\<close> and the claims, the signature
  verifies under the key, and with the expected issuer and audience they are valid before the
  second of their expiry.
\<close>

definition jwt_library :: "sys \<Rightarrow> string \<Rightarrow> string \<Rightarrow> claims set \<Rightarrow> bool" where
  "jwt_library S kid key C \<longleftrightarrow>
     (\<forall>cl\<in>C. plain_claims cl \<and> jwt_parts S (jwt_sign S kid key cl) = Some (kid, cl) \<and>
        jwt_signed S (jwt_sign S kid key cl) key \<and>
        (\<forall>tm iss aud ex. cl ''iss'' = Some (CStr iss) \<longrightarrow> cl ''aud'' = Some (CStr aud) \<longrightarrow>
           claim_num cl ''exp'' = Some (of_int ex) \<longrightarrow> tm < ex * second \<longrightarrow>
           jwt_claims_ok S tm (Some (iss, aud)) cl))"

text \<open>What a token says before its claims are checked.\<close>

definition signed_claims :: "sys \<Rightarrow> (string \<Rightarrow> string option) \<Rightarrow> string \<Rightarrow> claims option" where
  "signed_claims S keyFn tok =
     (case jwt_parts S tok of None \<Rightarrow> None
      | Some (kid, cl) \<Rightarrow>
          (case keyFn kid of None \<Rightarrow> None
           | Some key \<Rightarrow> if jwt_signed S tok key then Some cl else None))"

text \<open>A system with the key environment, the choice of a map iteration and the claims it issues.\<close>

record deployment =
  d_sys :: sys
  d_env :: "string \<Rightarrow> string"
  d_pick :: "key_set \<Rightarrow> string"
  d_claims :: "claims set"

definition d_keys :: "deployment \<Rightarrow> key_set" where
  "d_keys c = k_set (Load (d_pick c) (d_env c))"

definition d_provider :: "deployment \<Rightarrow> EnvProvider" where
  "d_provider c = loadFromEnv (d_env c)"

definition deployed :: "deployment \<Rightarrow> bool" where
  "deployed c \<longleftrightarrow>
     jwt_library (d_sys c) (CurrentKID (d_provider c)) (signing_key (d_provider c)) (d_claims c) \<and>
     picks (d_pick c) (d_keys c) \<and>
     (env_set (trim_space (d_env c ''JWT_KEYS'')) \<noteq> Map.empty \<longrightarrow>
        CurrentKID (d_provider c) \<in> dom (env_set (trim_space (d_env c ''JWT_KEYS''))) - {[]})"

interpretation tokens: token_keys deployed "\<lambda>c. CurrentKID (d_provider c)"
    "\<lambda>c. signing_key (d_provider c)" "\<lambda>c. verify_key (d_pick c) (d_keys c)"
    "\<lambda>c. jwt_sign (d_sys c)" d_claims "\<lambda>c. signed_claims (d_sys c)"
proof
  fix c
  assume "deployed c"
  then show "verify_key (d_pick c) (d_keys c) (CurrentKID (d_provider c)) =
      Some (signing_key (d_provider c))"
    unfolding deployed_def d_keys_def d_provider_def by (intro keys_agree) auto
next
  fix c :: deployment and f :: "string \<Rightarrow> string option" and cl :: claims
  assume "deployed c" and "cl \<in> d_claims c"
    and "f (CurrentKID (d_provider c)) = Some (signing_key (d_provider c))"
  then show "signed_claims (d_sys c) f
      (jwt_sign (d_sys c) (CurrentKID (d_provider c)) (signing_key (d_provider c)) cl) = Some cl"
    by (simp add: deployed_def jwt_library_def signed_claims_def)
qed

lemma token_user_signed:
  "token_user S keys expected pick tok c =
     (case signed_claims S (verify_key pick keys) tok of None \<Rightarrow> None
      | Some cl \<Rightarrow>
          (case claim_num cl ''sub'' of None \<Rightarrow> None
           | Some q \<Rightarrow>
               if jwt_claims_ok S (wall S c) (Some expected) cl \<and>
                  (\<forall>e. claim_num cl ''exp'' = Some e \<longrightarrow> unix_secs (wall S (Suc c)) \<le> trunc64 e)
               then Some (trunc64 q) else None))"
  by (auto simp: token_user_def signed_claims_def split: option.splits)

lemma trunc64_int: "in_i64 i \<Longrightarrow> trunc64 (of_int i) = i"
  by (simp add: trunc64_def Let_def)

lemma login_claims_simps [simp]:
  "claim_num (login_claims cfg uid tm1 tm2 jti) ''sub'' = Some (of_int uid)"
  "claim_num (login_claims cfg uid tm1 tm2 jti) ''exp'' = Some (of_int (unix_secs (tm1 + c_jwt_ttl cfg)))"
  "login_claims cfg uid tm1 tm2 jti ''iss'' = Some (CStr (c_issuer cfg))"
  "login_claims cfg uid tm1 tm2 jti ''aud'' = Some (CStr (c_audience cfg))"
  "claim_text (login_claims cfg uid tm1 tm2 jti) ''jti'' = jti"
  by (simp_all add: login_claims_def claim_num_def claim_text_def)

lemma unix_secs_before:
  assumes "tm < ex * second" shows "unix_secs tm \<le> ex"
proof -
  have "tm div second \<le> ex * second div second"
    using assms by (intro zdiv_mono1) (simp_all add: second_def)
  then show ?thesis by (simp add: unix_secs_def second_def)
qed

section \<open>Login\<close>

lemma error_answer_simps [simp]:
  "wdb (snd (error_answer msg c w)) = wdb w" "rds (snd (error_answer msg c w)) = rds w"
  "fst (error_answer msg c w) = Returned"
  "w_sent (wr w) = None \<Longrightarrow> status_of (wr (snd (error_answer msg c w))) = c"
  by (simp_all add: error_answer_def)

text \<open>
  The specification of login: the account whose password the request shows, if the request is
  well-formed, both limiters let it pass and the database answers.
\<close>

definition account_of :: "env \<Rightarrow> string \<Rightarrow> tables \<Rightarrow> user_row option" where
  "account_of e email t = List.find (\<lambda>u. text_eq e (u_email u) email) (user_rows t)"

definition login_user :: "sys \<Rightarrow> (string \<Rightarrow> bool) \<Rightarrow> req \<Rightarrow> world \<Rightarrow> user_row option" where
  "login_user S emailAllows r w =
     (case decode_creds r of None \<Rightarrow> None
      | Some (email, pw) \<Rightarrow>
          if emailAllows email \<and> fst (fst (Brute_Allow S login_guard r email (rds w))) \<and>
             out (senv S) (tick (wdb w)) = Okay
          then (case account_of (senv S) email (tabs (wdb w)) of None \<Rightarrow> None
                | Some u \<Rightarrow> if bcrypt_ok S (u_hash u) pw then Some u else None)
          else None)"

text \<open>The claims and the tokens that are issued after \<open>c\<close> readings of the clock and \<open>k\<close> draws.\<close>

definition issued_claims :: "sys \<Rightarrow> config \<Rightarrow> int \<Rightarrow> nat \<Rightarrow> nat \<Rightarrow> claims" where
  "issued_claims S cfg uid c k =
     login_claims cfg uid (wall S c) (wall S (Suc c)) (hex_encode (rand S k 16))"

definition access_at :: "sys \<Rightarrow> config \<Rightarrow> EnvProvider \<Rightarrow> int \<Rightarrow> nat \<Rightarrow> nat \<Rightarrow> string" where
  "access_at S cfg p uid c k =
     jwt_sign S (CurrentKID p) (signing_key p) (issued_claims S cfg uid c k)"

definition refresh_at :: "sys \<Rightarrow> nat \<Rightarrow> string" where
  "refresh_at S k = hex_encode (rand S k 32)"

lemma issue_access_eq:
  "issue_access S cfg p uid w =
     (access_at S cfg p uid (clock w) (drawn w), w\<lparr>clock := clock w + 2, drawn := drawn w + 1\<rparr>)"
  by (simp add: issue_access_def access_at_def issued_claims_def time_now_def rand_read_def)

lemma FindByEmail_unfold:
  "Users_FindByEmail e email d =
     (if out e (tick d) = Okay
      then (case account_of e email (tabs d) of None \<Rightarrow> Inl NoRows | Some u \<Rightarrow> Inr u)
      else Inl Fault, d\<lparr>tick := Suc (tick d)\<rparr>)"
  by (simp add: Users_FindByEmail_def query_row_unfold sel_user_def account_of_def)

lemma Issue_unfold:
  "Issue e uid expiry b d =
     (let n = tick d; d1 = d\<lparr>tick := Suc n\<rparr>;
          d2 = d1\<lparr>tabs := (tabs d)\<lparr>token_rows := token_rows (tabs d) @ [fresh_row (hex_encode b) uid expiry]\<rparr>\<rparr>
      in if has_token e (hex_encode b) (token_rows (tabs d)) \<or> out e n = Refused
         then ((hex_encode b, Some (if out e n = Okay then Duplicate else Fault)), d1)
         else ((hex_encode b, if out e n = Okay then None else Some Fault), d2))"
  by (simp add: Issue_def exec_def ins_token_def Let_def split: outcome.splits)

lemma login_denied:
  assumes "w_sent (wr w) = None" and "login_user S emailAllows r w = None"
  shows "status_of (wr (snd (auth_login S cfg p emailAllows r w))) \<in> {400, 401, 429} \<and>
    tabs (wdb (snd (auth_login S cfg p emailAllows r w))) = tabs (wdb w)"
proof (cases "decode_creds r")
  case None
  with assms(1) show ?thesis by (simp add: auth_login_def)
next
  case (Some c)
  then obtain email pw where c: "decode_creds r = Some (email, pw)" by (cases c) auto
  show ?thesis
  proof (cases "emailAllows email")
    case False
    with c assms(1) show ?thesis by (simp add: auth_login_def)
  next
    case allows: True
    obtain ok m ttl d where b: "Brute_Allow S login_guard r email (rds w) = ((ok, m, ttl), d)"
      by (metis surj_pair)
    show ?thesis
    proof (cases ok)
      case False
      with c allows b assms(1) show ?thesis
        by (simp add: auth_login_def on_redis_def fail_def)
    next
      case True
      with c allows b assms show ?thesis
        by (auto simp: auth_login_def on_redis_def on_db_eq FindByEmail_unfold login_user_def Let_def
            split: option.splits if_splits)
    qed
  qed
qed

lemma login_granted:
  assumes "w_sent (wr w) = None" and "login_user S emailAllows r w = Some u"
    and "rt = refresh_at S (Suc (drawn w))" and "n = Suc (tick (wdb w))"
    and "expiry = datetime_of (wall S (clock w + 2) + c_refresh_ttl cfg)"
    and "res = snd (auth_login S cfg p emailAllows r w)"
  shows "if out (senv S) n = Okay \<and> \<not> has_token (senv S) rt (token_rows (tabs (wdb w)))
    then answered (encode_line (tokens_json (access_at S cfg p (u_id u) (clock w) (drawn w)) rt)) w res \<and>
      tabs (wdb res) = (tabs (wdb w))\<lparr>token_rows := token_rows (tabs (wdb w)) @ [fresh_row rt (u_id u) expiry]\<rparr>
    else status_of (wr res) = 500"
proof -
  obtain email pw where c: "decode_creds r = Some (email, pw)"
    using assms(2) by (auto simp: login_user_def split: option.splits)
  obtain ok m ttl d where b: "Brute_Allow S login_guard r email (rds w) = ((ok, m, ttl), d)"
    by (metis surj_pair)
  have ok: "emailAllows email" "ok" "out (senv S) (tick (wdb w)) = Okay"
    "account_of (senv S) email (tabs (wdb w)) = Some u" "bcrypt_ok S (u_hash u) pw"
    using assms(2) c b by (auto simp: login_user_def split: option.splits if_splits)
  show ?thesis
    unfolding assms(3-6) using c b ok assms(1)
    by (auto simp: auth_login_def on_redis_def on_db_eq FindByEmail_unfold Let_def issue_access_eq
        time_now_def rand_read_def Issue_unfold refresh_at_def answer_def answered_def status_unsent)
qed

section \<open>Refresh, registration and logout\<close>

lemma refresh_cases:
  assumes "w_sent (wr w) = None" and "decode_refresh r = Some tok" and "\<And>n. out (senv S) n = Okay"
    and "d = wdb w" and "rs = token_rows (tabs d)" and "tm = (\<lambda>k. now (senv S) (tick d + k))"
    and "nt = refresh_at S (drawn w)" and "\<not> has_token (senv S) nt rs"
    and "expiry = datetime_of (wall S (clock w) + c_refresh_ttl cfg)"
    and "res = snd (auth_refresh S cfg p r w)"
  shows "case live_token (senv S) tok (tm 1) rs of
      None \<Rightarrow> refused 401 w res
    | Some t \<Rightarrow>
        if tk_used t = None
        then answered (encode_line (tokens_json (access_at S cfg p (tk_user t) (Suc (clock w)) (Suc (drawn w))) nt)) w res \<and>
          token_rows (tabs (wdb res)) = mark_used (senv S) tok (tm 2) rs @ [fresh_row nt (tk_user t) expiry]
        else status_of (wr res) = 401 \<and>
          token_rows (tabs (wdb res)) = drop_active (tk_user t) (tm 3) (mark_used (senv S) tok (tm 2) rs)"
proof (cases "live_token (senv S) tok (now (senv S) (tick d + 1)) rs")
  case None
  with assms show ?thesis
    by (simp add: auth_refresh_def time_now_def rand_read_def on_db_eq UseAndRotate_unfold Let_def
        refused_def)
next
  case (Some t)
  show ?thesis
  proof (cases "tk_used t")
    case None
    with assms Some show ?thesis
      by (simp add: auth_refresh_def time_now_def rand_read_def on_db_eq UseAndRotate_unfold Let_def
          refresh_at_def issue_access_eq answer_def answered_def status_unsent)
  next
    case (Some u)
    with assms \<open>live_token (senv S) tok (now (senv S) (tick d + 1)) rs = Some t\<close> show ?thesis
      by (simp add: auth_refresh_def time_now_def rand_read_def on_db_eq UseAndRotate_unfold Let_def)
  qed
qed

text \<open>Documented behaviour of bcrypt: it refuses passwords above 72 bytes, and no password matches an empty hash.\<close>

definition bcrypt_library :: "sys \<Rightarrow> bool" where
  "bcrypt_library S \<longleftrightarrow>
     (\<forall>pw c. 72 < length pw \<longrightarrow> bcrypt_hash S pw c = None) \<and> (\<forall>pw. \<not> bcrypt_ok S [] pw)"

lemma account_of_new:
  assumes "\<not> email_taken e email us" and "text_eq e email' email"
  shows "List.find (\<lambda>u. text_eq e (u_email u) email')
    (us @ [\<lparr>u_id = i, u_email = email, u_hash = h\<rparr>]) = Some \<lparr>u_id = i, u_email = email, u_hash = h\<rparr>"
  using assms by (induction us) (auto simp: email_taken_def text_eq_def)

lemma role_assign_users [simp]:
  "user_rows (tabs (snd (Roles_Assign e i role d))) = user_rows (tabs d)"
  by (auto simp: Roles_Assign_def query_row_unfold exec_def ins_user_role_def Let_def
      split: outcome.splits option.splits prod.splits sum.splits if_splits)

lemma register_stores:
  assumes "w_sent (wr w) = None" and "decode_creds r = Some (email, pw)" and "valid_creds S email pw"
    and "\<And>n. out (senv S) n = Okay" and "i = auto_id (senv S) (tick (wdb w))"
    and "i \<notin> u_id ` set (user_rows (tabs (wdb w)))"
    and "\<not> email_taken (senv S) email (user_rows (tabs (wdb w)))"
    and "res = snd (auth_register S cfg r w)"
  shows "answered (encode_line (JObj [(''id'', JInt i)])) w res \<and>
    user_rows (tabs (wdb res)) =
      user_rows (tabs (wdb w)) @ [\<lparr>u_id = i, u_email = email, u_hash = stored_hash S cfg pw\<rparr>]"
  using assms
  by (simp add: auth_register_def on_db_eq Users_Create_unfold Let_def answer_def answered_def
      status_unsent)

lemma logout_revokes:
  assumes "header r ''Authorization'' = bearer tok" and "w_sent (wr w) = None"
    and "jwt_Parse S (logout_key p) None (wall S (clock w)) tok = Some cl"
    and "claim_text cl ''jti'' = jti" and "jti \<noteq> []"
    and "claim_num cl ''exp'' = Some (of_int ex)" and "in_i64 ex"
    and "ttl = time_until ex (wall S (Suc (clock w)))"
    and "res = snd (auth_logout S cfg p r w)"
  shows "status_of (wr res) = 204 \<and> clock res = clock w + 2 \<and>
    rds res = snd (jti_Revoke S (c_jti_prefix cfg) jti ttl (rds w))"
  using assms
  by (simp add: auth_logout_def time_now_def Let_def on_redis_def on_db_eq trunc64_int
      split: prod.splits)

lemma revoked_is_seen:
  assumes "\<And>n. redis_out S n = Okay" and "0 < setex_secs ttl" and "n = r_tick d"
    and "redis_now S (Suc n) + second \<le> redis_now S n + setex_secs ttl * second"
  shows "fst (fst (IsRevoked S pre jti (snd (jti_Revoke S pre jti ttl d))))"
  using assms
  by (simp add: IsRevoked_def jti_Revoke_def redis_setex_def redis_ttl_def Let_def second_def
      split: prod.splits)

lemma issued_accepted:
  assumes "deployed c" and "S = d_sys c"
    and "issued_claims S cfg uid (clock w0) (drawn w0) \<in> d_claims c"
    and "fst (issue_access S cfg (d_provider c) uid w0) = tok"
    and "expiry = unix_secs (wall S (clock w0) + c_jwt_ttl cfg)"
    and "wall S (clock w) < expiry * second" and "wall S (Suc (clock w)) < expiry * second"
    and "in_i64 uid" and "in_i64 expiry" and "header r ''Authorization'' = bearer tok"
  shows "AuthWith S (d_keys c) (c_issuer cfg, c_audience cfg) (d_pick c) nxt r w =
    nxt (r\<lparr>rq_uid := Some uid\<rparr>) (w\<lparr>clock := clock w + 2\<rparr>)"
proof (rule AuthWith_accepts [OF assms(10)])
  let ?cl = "issued_claims S cfg uid (clock w0) (drawn w0)"
  have tok: "tok = jwt_sign S (CurrentKID (d_provider c)) (signing_key (d_provider c)) ?cl"
    using assms(4) by (simp add: issue_access_eq access_at_def)
  have read: "signed_claims S (verify_key (d_pick c) (d_keys c)) tok = Some ?cl"
    unfolding tok assms(2) by (rule tokens.issued_is_read [OF assms(1)]) (use assms(2,3) in simp)
  have "claim_num ?cl ''exp'' = Some (of_int expiry)"
    using assms(5) by (simp add: issued_claims_def)
  then have "jwt_claims_ok S (wall S (clock w)) (Some (c_issuer cfg, c_audience cfg)) ?cl"
    using assms(1,2,3,6) unfolding deployed_def jwt_library_def by (simp add: issued_claims_def)
  moreover have "unix_secs (wall S (Suc (clock w))) \<le> expiry"
    using assms(7) by (rule unix_secs_before)
  ultimately show "token_user S (d_keys c) (c_issuer cfg, c_audience cfg) (d_pick c) tok (clock w) = Some uid"
    using assms(5,8,9) by (simp add: token_user_signed read trunc64_int issued_claims_def)
qed

section \<open>Properties\<close>

text \<open>
  C24. A token that login or refresh issues opens the door: in a deployment whose current \<open>kid\<close> names
  a configured key, or that has no keys but \<open>JWT\_SECRET\<close>, and with a JWT library that reads the
  claims of the issued token back and validates them by issuer, audience and expiry, the token
  check passes the request on with the user the token was issued for, for as long as the clock
  stays before the expiry, whatever key a map iteration picks.
\<close>

theorem issued_token_is_accepted:
  assumes "deployed c" and "S = d_sys c"
    and "issued_claims S cfg uid (clock w0) (drawn w0) \<in> d_claims c"
    and "fst (issue_access S cfg (d_provider c) uid w0) = tok"
    and "expiry = unix_secs (wall S (clock w0) + c_jwt_ttl cfg)"
    and "wall S (clock w) < expiry * second" and "wall S (Suc (clock w)) < expiry * second"
    and "in_i64 uid" and "in_i64 expiry" and "header r ''Authorization'' = bearer tok"
  shows "AuthWith S (d_keys c) (c_issuer cfg, c_audience cfg) (d_pick c) nxt r w =
    nxt (r\<lparr>rq_uid := Some uid\<rparr>) (w\<lparr>clock := clock w + 2\<rparr>)"
  using assms by (rule issued_accepted)

text \<open>The sample system with a single key, its environment, and a configuration.\<close>

definition demo_cfg :: config where
  "demo_cfg = \<lparr>c_env = ''prod'', c_port = ''8080'', c_read_timeout = 5 * second,
     c_write_timeout = 10 * second, c_db_dsn = [], c_db_timeout = 5 * second, c_jwt_secret = [],
     c_jwt_ttl = 100 * second, c_refresh_ttl = 1000 * second, c_max_body = 1000, c_cors = [],
     c_metrics_allow = [], c_bcrypt_cost = 10, c_rate_rps = Fin 10,
     c_rate_burst = 60, c_issuer = ''i'',
     c_audience = ''a'', c_rate_auth_rps = Fin 2, c_rate_auth_burst = 20,
     c_otel_endpoint = [], c_otel_sample = Fin 0, c_redis_addr = [], c_redis_pass = [], c_redis_db = 0,
     c_redis_tls = False, c_jti_prefix = ''jti:'', c_rate_allow = []\<rparr>"

lemma demo_cfg_simps [simp]:
  "c_jwt_ttl demo_cfg = 100 * second" "c_refresh_ttl demo_cfg = 1000 * second"
  "c_issuer demo_cfg = ''i''" "c_audience demo_cfg = ''a''" "c_jti_prefix demo_cfg = ''jti:''"
  "c_bcrypt_cost demo_cfg = 10"
  by (simp_all add: demo_cfg_def)

definition issuing_claims :: claims where
  "issuing_claims = issued_claims demo_sys demo_cfg 7 0 0"

definition issuing_sys :: sys where
  "issuing_sys = demo_sys\<lparr>jwt_parts := (\<lambda>t. if t = ''tok'' then Some (''k1'', issuing_claims) else None)\<rparr>"

definition demo_vars :: "string \<Rightarrow> string" where
  "demo_vars = env_of [(''JWT_SECRET'', ''secret''), (''JWT_CURRENT_KID'', ''k1'')]"

definition demo_deployment :: deployment where
  "demo_deployment = \<lparr>d_sys = issuing_sys, d_env = demo_vars, d_pick = (\<lambda>_. ''default''),
     d_claims = {issuing_claims}\<rparr>"

lemma trim_k1 [simp]: "trim_space ''k1'' = ''k1''"
  by code_simp

lemma demo_deployment_simps [simp]:
  "d_sys demo_deployment = issuing_sys" "d_keys demo_deployment = [''default'' \<mapsto> ''secret'']"
  "d_pick demo_deployment = (\<lambda>_. ''default'')" "d_claims demo_deployment = {issuing_claims}"
  "CurrentKID (d_provider demo_deployment) = ''k1''"
  "signing_key (d_provider demo_deployment) = ''secret''"
  by (simp_all add: demo_deployment_def d_keys_def d_provider_def demo_vars_def Load_def load_set_def
      loadFromEnv_def env_of_def env_set_def CurrentKID_def signing_key_def SecretFor_def Let_def)

lemma issuing_sys_simps [simp]:
  "issued_claims issuing_sys demo_cfg 7 0 0 = issuing_claims" "wall issuing_sys n = 100 * second"
  "jwt_sign issuing_sys kid key cl = ''tok''"
  by (simp_all add: issuing_sys_def issuing_claims_def issued_claims_def)

lemma demo_deployed: "deployed demo_deployment"
proof -
  have "plain_claims issuing_claims"
    by (auto simp: plain_claims_def issuing_claims_def issued_claims_def login_claims_def claim_num_def
        unix_secs_def second_def split: if_splits intro: exI [of _ 7] exI [of _ 100] exI [of _ 200])
  then have "jwt_library issuing_sys ''k1'' ''secret'' {issuing_claims}"
    by (simp add: jwt_library_def issuing_sys_def)
  moreover have "env_set (trim_space (d_env demo_deployment ''JWT_KEYS'')) = Map.empty"
    by (simp add: demo_deployment_def demo_vars_def env_of_def env_set_def)
  ultimately show ?thesis by (simp add: deployed_def picks_def)
qed

theorem issued_token_is_accepted_witness:
  "AuthWith issuing_sys [''default'' \<mapsto> ''secret''] (''i'', ''a'') (\<lambda>_. ''default'')
     (\<lambda>r w. (Returned, w\<lparr>failed_logins := nat (the (rq_uid r))\<rparr>)) (bearer_req ''tok'') (world_on empty_tables) =
   (Returned, (world_on empty_tables)\<lparr>clock := 2, failed_logins := 7\<rparr>)"
proof -
  have "AuthWith issuing_sys (d_keys demo_deployment) (c_issuer demo_cfg, c_audience demo_cfg)
      (d_pick demo_deployment) (\<lambda>r w. (Returned, w\<lparr>failed_logins := nat (the (rq_uid r))\<rparr>))
      (bearer_req ''tok'') (world_on empty_tables) =
    (Returned, (world_on empty_tables)\<lparr>clock := clock (world_on empty_tables) + 2,
      failed_logins := nat (the (rq_uid ((bearer_req ''tok'')\<lparr>rq_uid := Some 7\<rparr>)))\<rparr>)"
    by (rule trans [OF issued_token_is_accepted [OF demo_deployed, where cfg = demo_cfg and uid = 7
            and ?w0.0 = "world_on empty_tables" and tok = "''tok''" and expiry = 200]])
      (simp_all add: issue_access_eq access_at_def unix_secs_def second_def in_i64_def max_i64_def min_i64_def)
  then show ?thesis by simp
qed

text \<open>
  C22. Login checks the password: exactly the requests that are well-formed, pass both limiters and
  show the password of the account with that address (and are answered by the database) get a
  session, an access token for that account and a refresh token that is stored for it; a failure
  to store that one is 500; every other request is refused and changes no table.
\<close>

theorem login_checks_password:
  assumes "w_sent (wr w) = None" and "res = snd (auth_login S cfg p emailAllows r w)"
    and "rt = refresh_at S (Suc (drawn w))"
  shows "case login_user S emailAllows r w of
      None \<Rightarrow> status_of (wr res) \<in> {400, 401, 429} \<and> tabs (wdb res) = tabs (wdb w)
    | Some u \<Rightarrow>
        if out (senv S) (Suc (tick (wdb w))) = Okay \<and> \<not> has_token (senv S) rt (token_rows (tabs (wdb w)))
        then answered (encode_line (tokens_json (access_at S cfg p (u_id u) (clock w) (drawn w)) rt)) w res \<and>
          tabs (wdb res) = (tabs (wdb w))\<lparr>token_rows := token_rows (tabs (wdb w)) @
            [fresh_row rt (u_id u) (datetime_of (wall S (clock w + 2) + c_refresh_ttl cfg))]\<rparr>
        else status_of (wr res) = 500"
proof (cases "login_user S emailAllows r w")
  case None
  from login_denied [OF assms(1) None, of cfg p] None assms(2) show ?thesis by simp
next
  case (Some u)
  from login_granted [OF assms(1) Some assms(3) refl refl assms(2)] Some show ?thesis by simp
qed

definition creds_body :: "string \<Rightarrow> string \<Rightarrow> string" where
  "creds_body email pw = marshal (JObj [(''email'', JStr email), (''password'', JStr pw)])"

definition creds_req :: "string \<Rightarrow> string \<Rightarrow> req" where
  "creds_req email pw = bare_req\<lparr>rq_body := creds_body email pw\<rparr>"

lemma creds_example [simp]: "decode_creds (creds_req ''a@b'' ''password'') = Some (''a@b'', ''password'')"
proof -
  have "decode_two ''email'' ''password'' False (creds_body ''a@b'' ''password'') =
      Some (''a@b'', ''password'')" by code_simp
  then show ?thesis by (simp add: decode_creds_def creds_req_def)
qed

definition one_account :: tables where
  "one_account = empty_tables\<lparr>user_rows := [\<lparr>u_id = 7, u_email = ''a@b'', u_hash = ''$password''\<rparr>]\<rparr>"

lemma one_account_tokens [simp]: "token_rows one_account = []"
  by (simp add: one_account_def)

lemma first_attempt:
  "fst (fst (Brute_Allow demo_sys login_guard r email \<lparr>r_tick = 0, r_keys = Map.empty\<rparr>))"
  by (simp add: Brute_Allow_def incr_expire_def r_live_def login_guard_def Let_def)

theorem login_checks_password_witness:
  "status_of (wr (snd (auth_login demo_sys demo_cfg (d_provider demo_deployment) (\<lambda>_. True) (creds_req ''a@b'' ''password'')
     (world_on one_account)))) = 200"
proof -
  let ?w = "world_on one_account"
  have user: "login_user demo_sys (\<lambda>_. True) (creds_req ''a@b'' ''password'') ?w =
      Some \<lparr>u_id = 7, u_email = ''a@b'', u_hash = ''$password''\<rparr>"
    by (simp add: login_user_def first_attempt account_of_def one_account_def)
  have "w_sent (wr ?w) = None" by simp
  from login_checks_password [OF this refl refl, of demo_sys demo_cfg "d_provider demo_deployment" "\<lambda>_. True"
      "creds_req ''a@b'' ''password''"]
  show ?thesis by (simp add: user has_token_def answered_def)
qed

text \<open>
  C23. Refresh asks for a live, unused token: with a database that answers, an unknown or expired
  token is 401 and changes nothing; an unused one is marked used, replaced by a new one, and
  answered with an access token for the user it belongs to; one that was used before is 401 and
  ends every session of its user.
\<close>

theorem refresh_answers:
  assumes "w_sent (wr w) = None" and "decode_refresh r = Some tok" and "\<And>n. out (senv S) n = Okay"
    and "d = wdb w" and "rs = token_rows (tabs d)" and "tm = (\<lambda>k. now (senv S) (tick d + k))"
    and "nt = refresh_at S (drawn w)" and "\<not> has_token (senv S) nt rs"
    and "expiry = datetime_of (wall S (clock w) + c_refresh_ttl cfg)"
    and "res = snd (auth_refresh S cfg p r w)"
  shows "case live_token (senv S) tok (tm 1) rs of
      None \<Rightarrow> refused 401 w res
    | Some t \<Rightarrow>
        if tk_used t = None
        then answered (encode_line (tokens_json (access_at S cfg p (tk_user t) (Suc (clock w)) (Suc (drawn w))) nt)) w res \<and>
          token_rows (tabs (wdb res)) = mark_used (senv S) tok (tm 2) rs @ [fresh_row nt (tk_user t) expiry]
        else status_of (wr res) = 401 \<and>
          token_rows (tabs (wdb res)) = drop_active (tk_user t) (tm 3) (mark_used (senv S) tok (tm 2) rs)"
  using assms by (rule refresh_cases)

definition refresh_req :: req where
  "refresh_req = bare_req\<lparr>rq_body := marshal (JObj [(''refresh'', JStr ''r'')])\<rparr>"

lemma refresh_example [simp]: "decode_refresh refresh_req = Some ''r''"
proof -
  have "decode_one ''refresh'' False (marshal (JObj [(''refresh'', JStr ''r'')])) = Some ''r''"
    by code_simp
  then show ?thesis by (simp add: decode_refresh_def refresh_req_def)
qed

theorem refresh_answers_witness:
  "token_rows (tabs (wdb (snd (auth_refresh demo_sys demo_cfg (d_provider demo_deployment) refresh_req
     (world_on (empty_tables\<lparr>token_rows :=
        [\<lparr>tk_token = ''r'', tk_user = 7, tk_expires = 200, tk_used = Some 90\<rparr>,
         \<lparr>tk_token = ''s'', tk_user = 7, tk_expires = 200, tk_used = None\<rparr>]\<rparr>)))))) = []"
proof -
  let ?t = "empty_tables\<lparr>token_rows :=
        [\<lparr>tk_token = ''r'', tk_user = 7, tk_expires = 200, tk_used = Some 90\<rparr>,
         \<lparr>tk_token = ''s'', tk_user = 7, tk_expires = 200, tk_used = None\<rparr>]\<rparr>"
  have "length (refresh_at demo_sys 0) = 64" by (simp add: refresh_at_def)
  then have "refresh_at demo_sys 0 \<noteq> ''r''" and "refresh_at demo_sys 0 \<noteq> ''s''" by auto
  then have "\<not> has_token (senv demo_sys) (refresh_at demo_sys (drawn (world_on ?t)))
      (token_rows (tabs (wdb (world_on ?t))))"
    by (auto simp: has_token_def)
  from refresh_answers [OF _ refresh_example _ refl refl refl refl this refl refl, of demo_cfg "d_provider demo_deployment"]
  show ?thesis
    by (simp add: live_token_def drop_active_def mark_used_def)
qed

text \<open>
  C39. A password of more than 72 bytes locks its account out: the rules allow up to 128
  characters, registration stores an empty hash for such a password, answers 200 with the new
  id, and from then on every login at this address is refused, whatever the password.
\<close>

theorem long_password_locks_out:
  assumes "bcrypt_library S" and "decode_creds r = Some (email, pw)" and "valid_creds S email pw"
    and "72 < length pw" and "w_sent (wr w) = None" and "\<And>n. out (senv S) n = Okay"
    and "auth_id = auto_id (senv S) (tick (wdb w))"
    and "auth_id \<notin> u_id ` set (user_rows (tabs (wdb w)))"
    and "\<not> email_taken (senv S) email (user_rows (tabs (wdb w)))"
    and "w1 = snd (auth_register S cfg r w)"
    and "decode_creds r2 = Some (email2, pw2)" and "text_eq (senv S) email2 email"
    and "user_rows (tabs (wdb w2)) = user_rows (tabs (wdb w1))" and "w_sent (wr w2) = None"
  shows "answered (encode_line (JObj [(''id'', JInt auth_id)])) w w1 \<and>
    status_of (wr (snd (auth_login S cfg p emailAllows r2 w2))) \<in> {400, 401, 429}"
proof -
  from register_stores [OF assms(5) assms(2) assms(3) assms(6) assms(7,8,9,10)]
  have reg: "answered (encode_line (JObj [(''id'', JInt auth_id)])) w w1"
    and rows: "user_rows (tabs (wdb w1)) =
      user_rows (tabs (wdb w)) @ [\<lparr>u_id = auth_id, u_email = email, u_hash = stored_hash S cfg pw\<rparr>]"
    by auto
  have "stored_hash S cfg pw = []"
    using assms(1,4) by (simp add: stored_hash_def bcrypt_library_def)
  then have "account_of (senv S) email2 (tabs (wdb w2)) =
      Some \<lparr>u_id = auth_id, u_email = email, u_hash = []\<rparr>"
    unfolding account_of_def assms(13) rows using account_of_new [OF assms(9,12)] by simp
  then have "login_user S emailAllows r2 w2 = None"
    using assms(1,11) by (auto simp: login_user_def bcrypt_library_def)
  from reg login_denied [OF assms(14) this] show ?thesis by blast
qed

definition long_password :: string where
  "long_password = replicate 73 CHR ''x''"

lemma long_example [simp]: "decode_creds (creds_req ''a@b'' long_password) = Some (''a@b'', long_password)"
proof -
  have "decode_two ''email'' ''password'' False (creds_body ''a@b'' long_password) =
      Some (''a@b'', long_password)" by code_simp
  then show ?thesis by (simp add: decode_creds_def creds_req_def)
qed

theorem long_password_locks_out_witness:
  "status_of (wr (snd (auth_login demo_sys demo_cfg (d_provider demo_deployment) (\<lambda>_. True) (creds_req ''a@b'' long_password)
     ((world_on empty_tables)\<lparr>wdb := wdb (snd (auth_register demo_sys demo_cfg
        (creds_req ''a@b'' long_password) (world_on empty_tables)))\<rparr>)))) \<in> {400, 401, 429}"
proof -
  have "rune_count long_password = 73" by code_simp
  moreover have "rune_count ''a@b'' = 3" by code_simp
  ultimately have "valid_creds demo_sys ''a@b'' long_password"
    by (simp add: valid_creds_def long_password_def)
  moreover have "bcrypt_library demo_sys" by (simp add: bcrypt_library_def)
  moreover have "72 < length long_password" by (simp add: long_password_def)
  moreover have "w_sent (wr (world_on empty_tables)) = None" by simp
  moreover have "\<not> email_taken (senv demo_sys) ''a@b'' (user_rows (tabs (wdb (world_on empty_tables))))"
    by (simp add: email_taken_def)
  ultimately show ?thesis
    using long_password_locks_out [where S = demo_sys and r = "creds_req ''a@b'' long_password"
        and w = "world_on empty_tables" and email = "''a@b''" and pw = long_password
        and ?r2.0 = "creds_req ''a@b'' long_password" and cfg = demo_cfg and p = "d_provider demo_deployment"
        and ?email2.0 = "''a@b''" and ?pw2.0 = long_password and emailAllows = "\<lambda>_. True"
        and ?w2.0 = "(world_on empty_tables)\<lparr>wdb := wdb (snd (auth_register demo_sys demo_cfg
           (creds_req ''a@b'' long_password) (world_on empty_tables)))\<rparr>",
        OF _ _ _ _ _ _ refl _ _ refl]
    by simp
qed

text \<open>
  Logout does not end the access token: with a store that answers, logout answers 204 and the
  token's id is from then on revoked in the store, but the token check, which does not ask the
  store, still passes requests with this token on.
\<close>

theorem logout_keeps_access:
  assumes "header r ''Authorization'' = bearer tok" and "w_sent (wr w) = None"
    and "jwt_Parse S (logout_key p) None (wall S (clock w)) tok = Some cl"
    and "claim_text cl ''jti'' = jti" and "jti \<noteq> []"
    and "claim_num cl ''exp'' = Some (of_int ex)" and "in_i64 ex"
    and "ttl = time_until ex (wall S (Suc (clock w)))" and "0 < setex_secs ttl"
    and "\<And>n. redis_out S n = Okay" and "n = r_tick (rds w)"
    and "redis_now S (Suc n) + second \<le> redis_now S n + setex_secs ttl * second"
    and "w1 = snd (auth_logout S cfg p r w)"
    and "token_user S keys expected pick tok (clock w + 2) = Some u"
  shows "status_of (wr w1) = 204 \<and>
    fst (fst (IsRevoked S (c_jti_prefix cfg) jti (rds w1))) \<and>
    AuthWith S keys expected pick nxt r w1 = nxt (r\<lparr>rq_uid := Some u\<rparr>) (w1\<lparr>clock := clock w1 + 2\<rparr>)"
proof -
  from logout_revokes [OF assms(1-8,13)]
  have out: "status_of (wr w1) = 204" "clock w1 = clock w + 2"
    "rds w1 = snd (jti_Revoke S (c_jti_prefix cfg) jti ttl (rds w))" by auto
  moreover from out(3) revoked_is_seen [OF assms(10,9,11,12)]
  have "fst (fst (IsRevoked S (c_jti_prefix cfg) jti (rds w1)))" by simp
  moreover have "AuthWith S keys expected pick nxt r w1 =
      nxt (r\<lparr>rq_uid := Some u\<rparr>) (w1\<lparr>clock := clock w1 + 2\<rparr>)"
    by (rule AuthWith_accepts [OF assms(1)]) (use assms(14) out(2) in simp)
  ultimately show ?thesis by blast
qed

theorem logout_keeps_access_witness:
  "\<exists>w1. w1 = snd (auth_logout demo_sys demo_cfg \<lparr>p_current = ''k1'', p_set = demo_keys\<rparr>
      (bearer_req ''tok'') (world_on empty_tables)) \<and>
    status_of (wr w1) = 204 \<and> fst (fst (IsRevoked demo_sys ''jti:'' ''j'' (rds w1))) \<and>
    AuthWith demo_sys demo_keys (''i'', ''a'') (\<lambda>_. []) (\<lambda>r w. (Returned, w)) (bearer_req ''tok'') w1 =
      (Returned, w1\<lparr>clock := clock w1 + 2\<rparr>)"
proof -
  let ?p = "\<lparr>p_current = ''k1'', p_set = demo_keys\<rparr>" and ?w = "world_on empty_tables"
  have "jwt_Parse demo_sys (logout_key ?p) None (wall demo_sys (clock ?w)) ''tok'' = Some demo_claims"
    by (simp add: jwt_Parse_def logout_key_def SecretFor_def demo_keys_def)
  then have "let w1 = snd (auth_logout demo_sys demo_cfg ?p (bearer_req ''tok'') ?w) in
      status_of (wr w1) = 204 \<and>
      fst (fst (IsRevoked demo_sys (c_jti_prefix demo_cfg) ''j'' (rds w1))) \<and>
      AuthWith demo_sys demo_keys (''i'', ''a'') (\<lambda>_. []) (\<lambda>r w. (Returned, w)) (bearer_req ''tok'') w1 =
        (Returned, w1\<lparr>clock := clock w1 + 2\<rparr>)"
    unfolding Let_def
    by (intro logout_keeps_access [where tok = "''tok''" and cl = demo_claims and ex = 200
          and ttl = "100 * second" and n = 0 and u = 7])
      (simp_all add: claim_text_def claim_num_def demo_claims_def in_i64_def max_i64_def min_i64_def
        time_until_def setex_secs_def second_def)
  then show ?thesis by (auto simp: Let_def)
qed

text \<open>
  C40. Registration is not atomic: the account is stored by one statement and its role assigned by
  others, whose error is dropped. When the role cannot be read, the client is told the id
  of an account without any role, and registering the address again is refused with 409.
\<close>

theorem register_without_role:
  assumes "decode_creds r = Some (email, pw)" and "valid_creds S email pw" and "w_sent (wr w) = None"
    and "out (senv S) (tick (wdb w)) = Okay" and "out (senv S) (Suc (tick (wdb w))) \<noteq> Okay"
    and "i = auto_id (senv S) (tick (wdb w))"
    and "i \<notin> u_id ` set (user_rows (tabs (wdb w)))"
    and "\<not> email_taken (senv S) email (user_rows (tabs (wdb w)))"
    and "w1 = snd (auth_register S cfg r w)"
    and "decode_creds r2 = Some (email2, pw2)" and "valid_creds S email2 pw2"
    and "text_eq (senv S) email2 email" and "w_sent (wr w2) = None"
    and "user_rows (tabs (wdb w2)) = user_rows (tabs (wdb w1))"
  shows "answered (encode_line (JObj [(''id'', JInt i)])) w w1 \<and>
    user_role_rows (tabs (wdb w1)) = user_role_rows (tabs (wdb w)) \<and>
    i \<in> u_id ` set (user_rows (tabs (wdb w1))) \<and>
    status_of (wr (snd (auth_register S cfg r2 w2))) = 409 \<and>
    tabs (wdb (snd (auth_register S cfg r2 w2))) = tabs (wdb w2)"
proof -
  have w1: "answered (encode_line (JObj [(''id'', JInt i)])) w w1"
    "user_role_rows (tabs (wdb w1)) = user_role_rows (tabs (wdb w))"
    "user_rows (tabs (wdb w1)) =
      user_rows (tabs (wdb w)) @ [\<lparr>u_id = i, u_email = email, u_hash = stored_hash S cfg pw\<rparr>]"
    using assms(1-9)
    by (simp_all add: auth_register_def on_db_eq Users_Create_unfold Roles_Assign_def query_row_unfold
        Let_def answer_def answered_def status_unsent)
  have "email_taken (senv S) email2 (user_rows (tabs (wdb w2)))"
    using assms(12,14) w1(3) by (simp add: email_taken_def text_eq_sym)
  then have "status_of (wr (snd (auth_register S cfg r2 w2))) = 409 \<and>
      tabs (wdb (snd (auth_register S cfg r2 w2))) = tabs (wdb w2)"
    using assms(10,11,13) by (simp add: auth_register_def on_db_eq Users_Create_unfold Let_def)
  with w1 show ?thesis by simp
qed

definition second_call_fails :: sys where
  "second_call_fails = demo_sys\<lparr>senv := demo_env\<lparr>out := (\<lambda>n. if n = 1 then Refused else Okay)\<rparr>\<rparr>"

theorem register_without_role_witness:
  "user_role_rows (tabs (wdb (snd (auth_register second_call_fails demo_cfg (creds_req ''a@b'' ''password'')
     (world_on empty_tables))))) = [] \<and>
   status_of (wr (snd (auth_register second_call_fails demo_cfg (creds_req ''a@b'' ''password'')
     ((world_on empty_tables)\<lparr>wdb := wdb (snd (auth_register second_call_fails demo_cfg
        (creds_req ''a@b'' ''password'') (world_on empty_tables)))\<rparr>)))) = 409"
proof -
  have "rune_count ''password'' = 8" "rune_count ''a@b'' = 3" by code_simp+
  then have v: "valid_creds second_call_fails ''a@b'' ''password''"
    by (simp add: valid_creds_def second_call_fails_def)
  have "\<not> email_taken (senv second_call_fails) ''a@b'' (user_rows (tabs (wdb (world_on empty_tables))))"
    by (simp add: email_taken_def)
  with v show ?thesis
    using register_without_role [where S = second_call_fails and w = "world_on empty_tables"
        and r = "creds_req ''a@b'' ''password''" and email = "''a@b''" and pw = "''password''"
        and ?r2.0 = "creds_req ''a@b'' ''password''" and ?email2.0 = "''a@b''" and ?pw2.0 = "''password''"
        and cfg = demo_cfg and ?w2.0 = "(world_on empty_tables)\<lparr>wdb := wdb (snd (auth_register second_call_fails demo_cfg
          (creds_req ''a@b'' ''password'') (world_on empty_tables)))\<rparr>", OF _ _ _ _ _ refl _ _ refl]
    by (simp add: second_call_fails_def)
qed

end
