(* ===== verification/Go_Csv.thy ===== *)
theory Go_Csv
  imports Go_Strings Go_Numbers
begin

text \<open>
  The writer of Go's \<open>encoding/csv\<close> with its default settings, and a reader after RFC 4180,
  which is the specification that the writer is checked against.
\<close>

section \<open>The writer\<close>

definition csv_special :: "char \<Rightarrow> bool" where
  "csv_special c \<longleftrightarrow> c = CHR '','' \<or> c = CHR 0x22 \<or> c = CHR 0x0A \<or> c = CHR 0x0D"

text \<open>\<open>fieldNeedsQuotes\<close>; its last case is a field that begins with white space.\<close>

definition needs_quotes :: "string \<Rightarrow> bool" where
  "needs_quotes f \<longleftrightarrow>
     f \<noteq> [] \<and> (f = [CHR 0x5C, CHR ''.''] \<or> list_ex csv_special f \<or>
       list_ex (has_prefix f) space_seqs)"

definition double_quotes :: "string \<Rightarrow> string" where
  "double_quotes f = concat (map (\<lambda>c. if c = CHR 0x22 then [c, c] else [c]) f)"

definition csv_field :: "string \<Rightarrow> string" where
  "csv_field f = (if needs_quotes f then CHR 0x22 # double_quotes f @ [CHR 0x22] else f)"

fun csv_line :: "string list \<Rightarrow> string" where
  "csv_line [] = [CHR 0x0A]"
| "csv_line [f] = csv_field f @ [CHR 0x0A]"
| "csv_line (f # g # fs) = csv_field f @ CHR '','' # csv_line (g # fs)"

section \<open>The reader\<close>

text \<open>The rest of a quoted field after its opening quote, and what follows its closing quote.\<close>

fun csv_quoted :: "string \<Rightarrow> (string \<times> string) option" where
  "csv_quoted [] = None"
| "csv_quoted (c # s) =
     (if c \<noteq> CHR 0x22 then map_option (apfst ((#) c)) (csv_quoted s)
      else case s of
             d # s' \<Rightarrow> if d = CHR 0x22 then map_option (apfst ((#) c)) (csv_quoted s') else Some ([], s)
           | [] \<Rightarrow> Some ([], s))"

definition csv_read_field :: "string \<Rightarrow> (string \<times> string) option" where
  "csv_read_field s =
     (if take 1 s = [CHR 0x22] then csv_quoted (drop 1 s)
      else Some (takeWhile (\<lambda>c. \<not> csv_special c) s, dropWhile (\<lambda>c. \<not> csv_special c) s))"

text \<open>The records of a text; the first argument is what the current record has so far.\<close>

lemma csv_quoted_shrinks: "csv_quoted s = Some (f, r) \<Longrightarrow> length r < length s"
  by (induction s arbitrary: f r rule: csv_quoted.induct)
    (auto split: if_splits list.splits simp: less_Suc_eq)

lemma csv_read_field_length: "csv_read_field s = Some (f, r) \<Longrightarrow> length r \<le> length s"
  by (auto simp: csv_read_field_def length_dropWhile_le dest!: csv_quoted_shrinks split: if_splits)

function csv_read :: "string list \<Rightarrow> string \<Rightarrow> string list list option" where
  "csv_read fs s =
     (if s = [] \<and> fs = [] then Some []
      else case csv_read_field s of
        Some (f, c # r) \<Rightarrow>
          if c = CHR '','' then csv_read (fs @ [f]) r
          else if c = CHR 0x0A then map_option ((#) (fs @ [f])) (csv_read [] r)
          else None
      | _ \<Rightarrow> None)"
  by pat_completeness auto
termination by (relation "measure (\<lambda>(fs, s). length s)") (auto dest: csv_read_field_length)

declare csv_read.simps [simp del]

section \<open>The reader inverts the writer\<close>

lemma csv_quoted_double:
  "take 1 r \<noteq> [CHR 0x22] \<Longrightarrow> csv_quoted (double_quotes f @ CHR 0x22 # r) = Some (f, r)"
proof (induction f)
  case Nil
  then show ?case by (cases r) (auto simp: double_quotes_def)
next
  case (Cons c f)
  then show ?case by (simp add: double_quotes_def)
qed

lemma csv_read_field_csv_field:
  assumes "csv_special c" and "c \<noteq> CHR 0x22"
  shows "csv_read_field (csv_field f @ c # r) = Some (f, c # r)"
proof (cases "needs_quotes f")
  case True
  then show ?thesis using assms by (simp add: csv_field_def csv_read_field_def csv_quoted_double)
next
  case False
  then have "\<forall>x\<in>set f. \<not> csv_special x" by (cases f) (auto simp: needs_quotes_def list_ex_iff)
  then have tw: "takeWhile (\<lambda>x. \<not> csv_special x) (f @ c # r) = f"
    "dropWhile (\<lambda>x. \<not> csv_special x) (f @ c # r) = c # r"
    using assms(1) by (simp_all add: takeWhile_append2 dropWhile_append2)
  have "csv_special CHR 0x22" by (simp add: csv_special_def)
  then have "take 1 (f @ c # r) \<noteq> [CHR 0x22]"
    using \<open>\<forall>x\<in>set f. \<not> csv_special x\<close> assms(2) by (cases f) auto
  with tw show ?thesis using False by (simp add: csv_field_def csv_read_field_def)
qed

lemma csv_read_line:
  "f # fs = rec \<Longrightarrow> csv_read acc (csv_line rec @ s) = map_option ((#) (acc @ rec)) (csv_read [] s)"
proof (induction rec arbitrary: acc f fs rule: csv_line.induct)
  case (2 g)
  have "csv_special CHR 0x0A" by (simp add: csv_special_def)
  from csv_read_field_csv_field [OF this, of g s] show ?case
    by (subst csv_read.simps) simp
next
  case (3 g h hs)
  have "csv_special CHR '',''" by (simp add: csv_special_def)
  from csv_read_field_csv_field [OF this, of g "csv_line (h # hs) @ s"] 3(1) [OF refl, of "acc @ [g]"]
  show ?case by (subst csv_read.simps) simp
qed simp

lemma csv_roundtrip:
  "list_all (\<lambda>rec. rec \<noteq> []) recs \<Longrightarrow> csv_read [] (concat (map csv_line recs)) = Some recs"
proof (induction recs)
  case Nil
  then show ?case by (simp add: csv_read.simps)
next
  case (Cons rec recs)
  then obtain f fs where "f # fs = rec" by (cases rec) auto
  from csv_read_line [OF this, of "[]"] Cons show ?case by simp
qed

end
