(* ===== verification/Admin_Handler.thy ===== *)
theory Admin_Handler
  imports Auth_Http Go_Csv
begin

text \<open>
  The handlers outside \<open>/auth\<close> and \<open>/notes\<close>: \<open>internal/handlers/admin\_users.go\<close>,
  \<open>admin\_roles.go\<close>, \<open>admin\_audit.go\<close>, \<open>admin\_jti.go\<close> and \<open>health.go\<close>, and the two pages of
  \<open>internal/openapi/server.go\<close>.
\<close>

definition no_content :: "world \<Rightarrow> flow \<times> world" where
  "no_content w = (Returned, on_writer (write_header 204) w)"

section \<open>internal/handlers/admin\_users.go\<close>

definition int_param :: "req \<Rightarrow> string \<Rightarrow> int" where
  "int_param r k = fst (parse_int (query_param r k))"

definition user_json :: "int \<times> string \<Rightarrow> json" where
  "user_json u = JObj [(''id'', JInt (fst u)), (''email'', JStr (snd u))]"

definition users_json :: "(int \<times> string) list \<Rightarrow> int \<Rightarrow> int \<Rightarrow> int \<Rightarrow> json" where
  "users_json items page sz cnt =
     JObj [(''data'', JArr (map user_json items)), (''page'', JInt page), (''size'', JInt sz),
       (''total'', JInt cnt)]"

definition admin_users_list :: "sys \<Rightarrow> handler" where
  "admin_users_list S r w =
     (let q = query_param r ''q''; page = int_param r ''page''; sz = int_param r ''size''
      in case on_db (Users_List (senv S) page sz q) w of
           (Inl _, w1) \<Rightarrow> error_answer ''server'' 500 w1
         | (Inr (items, cnt), w1) \<Rightarrow> answer (encode_line (users_json items page sz cnt)) w1)"

section \<open>internal/handlers/admin\_roles.go\<close>

definition decode_role_change :: "req \<Rightarrow> (string \<times> string) option" where
  "decode_role_change r = decode_two ''action'' ''role'' (rq_broken r) (rq_body r)"

definition admin_roles_post :: "sys \<Rightarrow> handler" where
  "admin_roles_post S r w =
     (case parse_int (url_param r ''id'') of
        (_, Some _) \<Rightarrow> error_answer ''bad id'' 400 w
      | (i, None) \<Rightarrow>
     (case decode_role_change r of
        None \<Rightarrow> error_answer ''bad json'' 400 w
      | Some (action, role) \<Rightarrow>
          if action = ''add'' then
            (case on_db (Roles_Assign (senv S) i role) w of
               (Some _, w1) \<Rightarrow> error_answer ''server'' 500 w1
             | (None, w1) \<Rightarrow> no_content w1)
          else if action = ''remove'' then
            (case on_db (Roles_Unassign (senv S) i role) w of
               (Some _, w1) \<Rightarrow> error_answer ''server'' 500 w1
             | (None, w1) \<Rightarrow> no_content w1)
          else error_answer ''invalid action'' 422 w))"

section \<open>internal/handlers/admin\_audit.go\<close>

text \<open>
  A \<open>time.Time\<close>: nanoseconds and a location, the process's own or a fixed offset. A parsed
  offset that the process's zone has at that time is the process's zone.
\<close>

datatype location = LocalZone | FixedZone int

type_synonym moment = "int \<times> location"

definition offset_at :: "sys \<Rightarrow> location \<Rightarrow> int \<Rightarrow> int" where
  "offset_at S loc u = (case loc of LocalZone \<Rightarrow> zone_offset S u | FixedZone k \<Rightarrow> k)"

definition moment_text :: "sys \<Rightarrow> moment \<Rightarrow> string" where
  "moment_text S m = (let u = fst m div second in rfc3339_in (offset_at S (snd m) u) u)"

definition parse_moment :: "sys \<Rightarrow> string \<Rightarrow> moment option" where
  "parse_moment S s =
     (case parse_rfc3339 s of
        None \<Rightarrow> None
      | Some (tm, None) \<Rightarrow> Some (tm, FixedZone 0)
      | Some (tm, Some k) \<Rightarrow>
          Some (tm, if zone_offset S (tm div second) = k then LocalZone else FixedZone k))"

text \<open>A time parameter that is missing or does not parse leaves the default.\<close>

definition moment_param :: "sys \<Rightarrow> req \<Rightarrow> string \<Rightarrow> moment \<Rightarrow> moment" where
  "moment_param S r k def =
     (let s = query_param r k
      in if s \<noteq> [] then (case parse_moment S s of Some m \<Rightarrow> m | None \<Rightarrow> def) else def)"

definition limit_param :: "req \<Rightarrow> int" where
  "limit_param r = (let n = int_param r ''limit'' in if n = 0 then 100 else n)"

definition audit_header :: "string list" where
  "audit_header =
     [''id'', ''user_id'', ''method'', ''path'', ''status'', ''ip'', ''rid'', ''created_at'']"

definition audit_record :: "audit_row \<Rightarrow> string list" where
  "audit_record a =
     [format_int (au_id a), (case au_user a of Some u \<Rightarrow> format_int u | None \<Rightarrow> []), au_method a,
      au_path a, format_int (au_status a), au_ip a, au_rid a, rfc3339 (au_created a)]"

text \<open>\<open>AuditRow\<close> has no JSON tags, and its user is a \<open>sql.NullInt64\<close>.\<close>

definition audit_json :: "audit_row \<Rightarrow> json" where
  "audit_json a =
     JObj [(''ID'', JInt (au_id a)),
       (''UserID'', JObj [(''Int64'', JInt (case au_user a of Some u \<Rightarrow> u | None \<Rightarrow> 0)),
                          (''Valid'', JBool (au_user a \<noteq> None))]),
       (''Method'', JStr (au_method a)), (''Path'', JStr (au_path a)),
       (''Status'', JInt (au_status a)), (''IP'', JStr (au_ip a)), (''RID'', JStr (au_rid a)),
       (''CreatedAt'', JStr (rfc3339 (au_created a)))]"

text \<open>The rows are a nil slice when there are none.\<close>

definition audit_list_json :: "sys \<Rightarrow> moment \<Rightarrow> moment \<Rightarrow> int \<Rightarrow> audit_row list \<Rightarrow> json" where
  "audit_list_json S lo hi cap rows =
     JObj [(''data'', if rows = [] then JNull else JArr (map audit_json rows)),
       (''from'', JStr (moment_text S lo)), (''limit'', JInt cap), (''to'', JStr (moment_text S hi))]"

definition audit_csv :: "audit_row list \<Rightarrow> string" where
  "audit_csv rows = concat (map csv_line (audit_header # map audit_record rows))"

definition csv_headers :: "writer \<Rightarrow> writer" where
  "csv_headers w =
     set_hdr ''Content-Disposition'' (''attachment; filename='' @ quoted ''audit.csv'')
       (set_hdr ''Content-Type'' ''text/csv; charset=utf-8'' w)"

definition admin_audit_list :: "sys \<Rightarrow> handler" where
  "admin_audit_list S r w =
     (let limit = limit_param r
      in case time_now S w of (tm, w1) \<Rightarrow>
     (let hi = moment_param S r ''to'' (tm, LocalZone);
          lo = moment_param S r ''from'' (fst hi - 24 * 3600 * second, snd hi)
      in case on_db (Audit_List (senv S) (fst lo) (fst hi) limit) w1 of
           (Inl _, w2) \<Rightarrow> error_answer ''server'' 500 w2
         | (Inr rows, w2) \<Rightarrow>
             if query_param r ''format'' = ''csv'' then answer (audit_csv rows) (on_writer csv_headers w2)
             else answer (encode_line (audit_list_json S lo hi limit rows))
               (on_writer (set_hdr ''Content-Type'' ''application/json'') w2)))"

section \<open>internal/handlers/admin\_jti.go\<close>

text \<open>\<open>Decode(&in)\<close> for the string \<open>jti\<close> and the integer \<open>ttl\_sec\<close>.\<close>

definition decode_revocation :: "bool \<Rightarrow> string \<Rightarrow> (string \<times> int) option" where
  "decode_revocation broken s =
     (case decode_value broken s of None \<Rightarrow> None
      | Some j \<Rightarrow>
          if \<not> struct_value j then None
          else (case (string_field (field_values [''jti'', ''ttl_sec''] ''jti'' j),
                      int_field (field_values [''jti'', ''ttl_sec''] ''ttl_sec'' j)) of
                  (Some a, Some n) \<Rightarrow> Some (a, n)
                | _ \<Rightarrow> None))"

text \<open>\<open>time.Duration(n) * time.Second\<close> wraps around.\<close>

definition revoke_ttl :: "int \<Rightarrow> int" where
  "revoke_ttl n = (let ttl = i64 (n * second) in if ttl \<le> 0 then 3600 * second else ttl)"

definition admin_jti_revoke :: "sys \<Rightarrow> config \<Rightarrow> handler" where
  "admin_jti_revoke S cfg r w =
     (case decode_revocation (rq_broken r) (rq_body r) of
        None \<Rightarrow> fail r (App BadRequest) w
      | Some (jti, n) \<Rightarrow>
          if jti = [] then fail r (App BadRequest) w
          else
     (case on_redis (jti_Revoke S (c_jti_prefix cfg) jti (revoke_ttl n)) w of
        (True, w1) \<Rightarrow>
          fail r (App (E 500 ''revoke_failed'' ''revoke failed'' (Some (redis_text S (r_tick (rds w)))) None)) w1
      | (False, w1) \<Rightarrow> no_content w1))"

section \<open>internal/handlers/health.go and internal/openapi/server.go\<close>

definition health_live :: handler where
  "health_live r w = no_content w"

text \<open>A ping is a call of the server that can fail.\<close>

definition health_ready :: "sys \<Rightarrow> handler" where
  "health_ready S r w =
     (case on_db (query (senv S) (\<lambda>n t. ())) w of
        (Inl _, w1) \<Rightarrow> error_answer ''db down'' 503 w1
      | (Inr _, w1) \<Rightarrow> no_content w1)"

definition health_info :: handler where
  "health_info r w = answer (encode_line (JObj [(''ok'', JBool True)])) w"

text \<open>
  An embedded file system holds the file under the name it was embedded by; the error of
  \<open>ReadFile\<close> is dropped and its bytes are then nil. \<open>yaml\<close> is the text of the file.
\<close>

definition spec_files :: "string \<Rightarrow> string \<rightharpoonup> string" where
  "spec_files yaml = [''openapi.yaml'' \<mapsto> yaml]"

definition openapi_spec :: "string \<Rightarrow> handler" where
  "openapi_spec yaml r w =
     answer (get_or_empty (spec_files yaml) ''../../openapi/openapi.yaml'')
       (on_writer (set_hdr ''Content-Type'' ''application/yaml; charset=utf-8'') w)"

definition docs_page :: string where
  "docs_page = concat (map (\<lambda>l. l @ [CHR 0x0A])
     [''<!doctype html><html><head>'',
      ''<meta charset='' @ quoted ''utf-8'' @ ''/>'',
      ''<title>OpenAPI</title>'',
      ''<link rel='' @ quoted ''stylesheet'' @ '' href='' @
        quoted ''https://unpkg.com/swagger-ui-dist/swagger-ui.css'' @ ''>'',
      ''</head><body>'',
      ''<div id='' @ quoted ''swagger'' @ ''></div>'',
      ''<script src='' @ quoted ''https://unpkg.com/swagger-ui-dist/swagger-ui-bundle.js'' @ ''></script>'',
      ''<script>'',
      ''window.ui = SwaggerUIBundle({ url: '' @ quoted ''/openapi.yaml'' @ '', dom_id: '' @
        quoted ''#swagger'' @ '' });'']) @ ''</script></body></html>''"

definition openapi_ui :: handler where
  "openapi_ui r w = answer docs_page (on_writer (set_hdr ''Content-Type'' ''text/html; charset=utf-8'') w)"

lemmas small_handlers [handler_defs] =
  no_content_def error_answer_def health_live_def health_ready_def health_info_def openapi_spec_def
  openapi_ui_def

section \<open>Properties\<close>

text \<open>
  C33. The audit log as CSV can be read back: the answer is a header and one record per row, and a
  reader after RFC 4180 gets exactly the columns of the newest rows within the bounds, whatever
  the clients have put into methods, paths and request ids.
\<close>

theorem audit_csv_roundtrip:
  assumes "query_param r ''format'' = ''csv''" and "out (senv S) (tick (wdb w)) = Okay"
    and "w_sent (wr w) = None" and "w_body (wr w) = []"
    and "hi = moment_param S r ''to'' (wall S (clock w), LocalZone)"
    and "lo = moment_param S r ''from'' (fst hi - 24 * 3600 * second, snd hi)"
    and "cap = (if limit_param r \<le> 0 \<or> limit_param r > 1000 then 100 else limit_param r)"
    and "w' = snd (admin_audit_list S r w)"
  shows "status_of (wr w') = 200 \<and>
    csv_read [] (w_body (wr w')) = Some (audit_header # map audit_record (take (nat cap)
      (rev (sort_key au_id (filter (audit_between (fst lo) (fst hi)) (audit_rows (tabs (wdb w))))))))"
proof -
  let ?rows = "take (nat cap) (rev (sort_key au_id
    (filter (audit_between (fst lo) (fst hi)) (audit_rows (tabs (wdb w))))))"
  have "list_all (\<lambda>rec. rec \<noteq> []) (audit_header # map audit_record ?rows)"
    by (simp add: audit_header_def audit_record_def list_all_iff)
  then have "csv_read [] (audit_csv ?rows) = Some (audit_header # map audit_record ?rows)"
    unfolding audit_csv_def by (rule csv_roundtrip)
  moreover have "w_body (wr w') = audit_csv ?rows" and "status_of (wr w') = 200"
    using assms
    by (simp_all add: admin_audit_list_def time_now_def Audit_List_def query_def sel_audit_def
        answer_def on_db_def csv_headers_def status_unsent Let_def)
  ultimately show ?thesis by simp
qed

definition csv_req :: req where
  "csv_req = bare_req\<lparr>rq_query := [''format'' \<mapsto> ''csv'']\<rparr>"

definition odd_row :: audit_row where
  "odd_row = \<lparr>au_id = 1, au_user = None, au_method = ''GET'', au_path = ''/a,b'', au_status = 404,
     au_ip = [], au_rid = [CHR 0x22], au_created = 50\<rparr>"

lemma parse_empty: "parse_int [] = (0, Some ErrSyntax)"
  by (simp add: parse_int_def parse_uint_def has_prefix_def)

theorem audit_csv_roundtrip_witness:
  "csv_read [] (w_body (wr (snd (admin_audit_list demo_sys csv_req
     (world_on (empty_tables\<lparr>audit_rows := [odd_row]\<rparr>)))))) = Some [audit_header, audit_record odd_row]"
proof -
  let ?w = "world_on (empty_tables\<lparr>audit_rows := [odd_row]\<rparr>)"
  have q: "query_param csv_req ''format'' = ''csv''" "query_param csv_req ''to'' = []"
    "query_param csv_req ''from'' = []" "query_param csv_req ''limit'' = []"
    by (simp_all add: csv_req_def query_param_def get_or_empty_def)
  have cap: "limit_param csv_req = 100" by (simp add: limit_param_def int_param_def q parse_empty Let_def)
  have bounds: "moment_param demo_sys csv_req ''to'' (wall demo_sys (clock ?w), LocalZone) = (100 * second, LocalZone)"
    "moment_param demo_sys csv_req ''from'' (100 * second - 24 * 3600 * second, LocalZone) =
      (100 * second - 24 * 3600 * second, LocalZone)"
    by (simp_all add: moment_param_def q)
  have "odd_row \<in> {a. audit_between (100 * second - 24 * 3600 * second) (100 * second) a}"
    by (simp add: audit_between_def odd_row_def micros_def second_def)
  with audit_csv_roundtrip [OF q(1), of demo_sys ?w "(100 * second, LocalZone)"
      "(100 * second - 24 * 3600 * second, LocalZone)" 100, OF _ _ _ _ _ _ refl]
  show ?thesis using bounds by (simp add: cap)
qed

text \<open>
  A time that the JSON answer prints can be sent back as a bound: it is read as the same instant,
  cut to whole seconds, in every zone of whole minutes and for the years 0 to 9999.
\<close>

theorem audit_bounds_roundtrip:
  assumes "query_param r k = moment_text S (tm, loc)" and "off = offset_at S loc (tm div second)"
    and "60 dvd off" and "\<bar>off\<bar> \<le> 24 * 3600"
    and "civil_of_days ((tm div second + off) div 86400) = (y, m, d)" and "0 \<le> y" and "y \<le> 9999"
  shows "fst (moment_param S r k def) = tm div second * second \<and>
    moment_text S (moment_param S r k def) = moment_text S (tm, loc)"
proof -
  let ?u = "tm div second"
  have mtext: "moment_text S (tm, loc) = rfc3339_in off ?u" using assms(2) by (simp add: moment_text_def Let_def)
  have p: "parse_rfc3339 (rfc3339_in off ?u) = Some (?u * second, if off = 0 then None else Some off)"
    by (rule parse_format_rfc3339 [OF assms(5-7,3)]) (use assms(4) in simp)
  have "parse_rfc3339 [] = None" by (simp add: parse_rfc3339_def long_year_def)
  with p have ne: "rfc3339_in off ?u \<noteq> []" by auto
  have u: "?u * second div second = ?u" by (simp add: second_def)
  define loc' where
    "loc' = (if off = 0 then FixedZone 0 else if zone_offset S ?u = off then LocalZone else FixedZone off)"
  have pm: "parse_moment S (rfc3339_in off ?u) = Some (?u * second, loc')"
    using u by (auto simp: parse_moment_def p loc'_def)
  have "offset_at S loc' ?u = off" by (auto simp: loc'_def offset_at_def)
  with assms(1) mtext ne pm u show ?thesis
    by (simp add: moment_param_def Let_def) (simp add: moment_text_def Let_def)
qed

theorem audit_bounds_roundtrip_witness:
  "fst (moment_param demo_sys
     (bare_req\<lparr>rq_query := [''to'' \<mapsto> moment_text demo_sys (second div 2, FixedZone 3600)]\<rparr>) ''to'' (5, LocalZone)) = 0"
proof -
  let ?r = "bare_req\<lparr>rq_query := [''to'' \<mapsto> moment_text demo_sys (second div 2, FixedZone 3600)]\<rparr>"
  have "query_param ?r ''to'' = moment_text demo_sys (second div 2, FixedZone 3600)"
    by (simp add: query_param_def get_or_empty_def)
  moreover have "second div 2 div second = 0" by (simp add: second_def)
  ultimately show ?thesis
    using audit_bounds_roundtrip [of ?r "''to''" demo_sys "second div 2" "FixedZone 3600" 3600 1970 1 1 "(5, LocalZone)"]
      civil_samples(1) by (simp add: offset_at_def)
qed

text \<open>
  C32. A change of roles takes effect: an administrator's POST is answered with 204, and from then on
  the role check passes a request of a user exactly as the change says; users and roles that it
  does not name are judged as before.
\<close>

theorem role_change_takes_effect:
  assumes "\<And>n. out (senv S) n = Okay" and "roles_ok (senv S) (wdb w)" and "w_sent (wr w) = None"
    and "parse_int (url_param r ''id'') = (i, None)" and "decode_role_change r = Some (action, role)"
    and "action \<in> {''add'', ''remove''}" and "role_known (senv S) role (wdb w)"
    and "w' = snd (admin_roles_post S r w)"
    and "rq_uid r2 = Some u" and "tabs (wdb w2) = tabs (wdb w')" and "w_sent (wr w2) = None"
  shows "status_of (wr w') = 204 \<and>
    (if (if u = i \<and> text_eq (senv S) q role then action = ''add'' else holds_role (senv S) u q (wdb w))
     then \<exists>k. RequireRole S [q] nxt r2 w2 = nxt r2 (w2\<lparr>wdb := (wdb w2)\<lparr>tick := k\<rparr>\<rparr>)
     else status_of (wr (snd (RequireRole S [q] nxt r2 w2))) = 403)"
proof -
  let ?e = "senv S"
  define p where "p = (if action = ''add'' then RAssign i role else RUnassign i role)"
  obtain rid where rid: "sel_role ?e role n (tabs (wdb w)) = Some rid" for n
    using assms(7) sel_role_None [of ?e role 0 "wdb w"] by (cases "sel_role ?e role 0 (tabs (wdb w))")
      (auto simp: sel_role_def)
  have w': "wdb w' = role_step ?e p (wdb w)" "status_of (wr w') = 204"
    using assms(1,3-6,8) rid
    by (auto simp: admin_roles_post_def p_def role_step_def on_db_eq role_ops query_row_unfold exec_def
        ins_user_role_def del_user_role_def no_content_def Let_def)
  have "holds_role ?e u q (wdb w2) = holds_role ?e u q (wdb w')"
    using assms(10) by (simp add: holds_role_def)
  also have "\<dots> = (if u = i \<and> text_eq ?e q role then action = ''add'' else holds_role ?e u q (wdb w))"
    using assms(6) roles.assigned [OF assms(2,7), of u q i] roles.unassigned [OF assms(2,7), of u q i]
    by (auto simp: w' p_def)
  finally have "role_granted S u [q] (wdb w2) =
      (if u = i \<and> text_eq ?e q role then action = ''add'' else holds_role ?e u q (wdb w))"
    using assms(1) by (simp add: role_granted_def)
  moreover obtain k where "RequireRole S [q] nxt r2 w2 =
    (if role_granted S u [q] (wdb w2) then nxt r2 (w2\<lparr>wdb := (wdb w2)\<lparr>tick := k\<rparr>\<rparr>)
     else (Returned, on_writer (http_error ''forbidden'' 403) (w2\<lparr>wdb := (wdb w2)\<lparr>tick := k\<rparr>\<rparr>)))"
    using RequireRole_unfold [OF assms(9)] by blast
  ultimately show ?thesis using w'(2) assms(11) by auto
qed

definition role_req :: "string \<Rightarrow> string \<Rightarrow> req" where
  "role_req action role = bare_req\<lparr>rq_method := ''POST'', rq_param := [''id'' \<mapsto> ''1''],
     rq_body := marshal (JObj [(''action'', JStr action), (''role'', JStr role)])\<rparr>"

lemma decode_role_demo: "decode_role_change (role_req ''add'' ''admin'') = Some (''add'', ''admin'')"
proof -
  have "decode_two ''action'' ''role'' False
      (marshal (JObj [(''action'', JStr ''add''), (''role'', JStr ''admin'')])) = Some (''add'', ''admin'')"
    by code_simp
  then show ?thesis by (simp add: decode_role_change_def role_req_def)
qed

theorem role_change_takes_effect_witness:
  "\<exists>k. RequireRole demo_sys [''admin''] (\<lambda>r w. (Panicked, w)) (bare_req\<lparr>rq_uid := Some 1\<rparr>)
     ((world_on empty_tables)\<lparr>wdb := wdb (snd (admin_roles_post demo_sys (role_req ''add'' ''admin'') (world_on empty_tables)))\<rparr>) =
   (Panicked, (world_on empty_tables)\<lparr>wdb := (wdb (snd (admin_roles_post demo_sys (role_req ''add'' ''admin'')
      (world_on empty_tables))))\<lparr>tick := k\<rparr>\<rparr>)"
proof -
  let ?w = "world_on empty_tables" and ?r = "role_req ''add'' ''admin''"
  have "roles_ok demo_env (wdb ?w)" by (simp add: roles_ok_def keyed_def)
  moreover have "role_known demo_env ''admin'' (wdb ?w)" by (simp add: role_known_def)
  moreover have "parse_int (url_param ?r ''id'') = (1, None)"
    by (simp add: role_req_def url_param_def get_or_empty_def)
  ultimately show ?thesis
    using role_change_takes_effect [where S = demo_sys and w = ?w and r = ?r and i = 1 and q = "''admin''"
        and u = 1 and nxt = "\<lambda>r w. (Panicked, w)" and ?r2.0 = "bare_req\<lparr>rq_uid := Some 1\<rparr>"
        and ?w2.0 = "?w\<lparr>wdb := wdb (snd (admin_roles_post demo_sys ?r ?w))\<rparr>",
        OF _ _ _ _ decode_role_demo _ _ refl]
    by simp
qed

text \<open>
  How long a revocation lasts: the seconds that the administrator asks for, up to 9223372036; an
  hour for 0 and below; beyond, the product wraps around, and a request for 585 years ends after a
  second.
\<close>

theorem revocation_lifetime:
  assumes "decode_revocation (rq_broken r) (rq_body r) = Some (jti, n)" and "jti \<noteq> []"
    and "redis_out S (r_tick (rds w)) = Okay" and "w_sent (wr w) = None"
    and "w' = snd (admin_jti_revoke S cfg r w)" and "tm = redis_now S (r_tick (rds w))"
    and "life = (if 1 \<le> n \<and> n \<le> 9223372036 then n
      else if - 9223372036 \<le> n \<and> n \<le> 0 then 3600 else setex_secs (revoke_ttl n))"
  shows "status_of (wr w') = 204 \<and> wdb w' = wdb w \<and>
    r_keys (rds w') (c_jti_prefix cfg @ jti) = Some (1, Some (tm + life * second)) \<and>
    (n = 18446744074 \<longrightarrow> life = 1)"
proof -
  have "setex_secs (revoke_ttl n) = n" if "1 \<le> n" "n \<le> 9223372036"
    using that by (simp add: revoke_ttl_def i64_id in_i64_def max_i64_def min_i64_def second_def setex_secs_def)
  moreover have "setex_secs (revoke_ttl n) = 3600" if "- 9223372036 \<le> n" "n \<le> 0"
    using that by (simp add: revoke_ttl_def i64_id in_i64_def max_i64_def min_i64_def second_def setex_secs_def
        mult_le_0_iff)
  ultimately have life: "setex_secs (revoke_ttl n) = life" using assms(7) by auto
  have "0 < revoke_ttl n" by (simp add: revoke_ttl_def second_def Let_def)
  then have pos: "0 < setex_secs (revoke_ttl n)"
    by (auto simp: setex_secs_def second_def pos_imp_zdiv_pos_iff not_less)
  have "jti_Revoke S (c_jti_prefix cfg) jti (revoke_ttl n) (rds w) =
      (False, \<lparr>r_tick = Suc (r_tick (rds w)),
        r_keys = (r_keys (rds w))(c_jti_prefix cfg @ jti \<mapsto> (1, Some (tm + life * second)))\<rparr>)"
    using assms(3,6) pos life by (cases "rds w") (simp add: jti_Revoke_def redis_setex_def Let_def)
  with assms(1,2,4,5) have "status_of (wr w') = 204 \<and> wdb w' = wdb w \<and>
    r_keys (rds w') (c_jti_prefix cfg @ jti) = Some (1, Some (tm + life * second))"
    by (simp add: admin_jti_revoke_def on_redis_def no_content_def)
  moreover have "n = 18446744074 \<Longrightarrow> life = 1"
    using life by (simp add: revoke_ttl_def setex_secs_def second_def i64_def)
  ultimately show ?thesis by blast
qed

definition revoke_body :: string where
  "revoke_body = marshal (JObj [(''jti'', JStr ''j''), (''ttl_sec'', JNum ''18446744074'')])"

lemma decode_revoke_demo: "decode_revocation False revoke_body = Some (''j'', 18446744074)"
proof -
  let ?j = "JObj [(''jti'', JStr ''j''), (''ttl_sec'', JNum ''18446744074'')]"
  have "decode_value False revoke_body = Some ?j"
    "field_values [''jti'', ''ttl_sec''] ''jti'' ?j = [JStr ''j'']"
    "field_values [''jti'', ''ttl_sec''] ''ttl_sec'' ?j = [JNum ''18446744074'']"
    by code_simp+
  moreover have "format_int 18446744074 = ''18446744074''"
    by (simp add: format_int_def dec_nat_step dec_nat_less_10 digit_literals)
  then have "parse_int ''18446744074'' = (18446744074, None)"
    using parse_format_int [of 18446744074] by (simp add: in_i64_def max_i64_def min_i64_def)
  ultimately show ?thesis
    by (simp add: decode_revocation_def struct_value_def string_field_def assigned_string_def int_field_def)
qed

theorem revocation_lifetime_witness:
  "r_keys (rds (snd (admin_jti_revoke demo_sys demo_cfg
     (bare_req\<lparr>rq_body := revoke_body\<rparr>) (world_on empty_tables)))) ''jti:j'' = Some (1, Some (101 * second))"
proof -
  have "decode_revocation (rq_broken (bare_req\<lparr>rq_body := revoke_body\<rparr>))
      (rq_body (bare_req\<lparr>rq_body := revoke_body\<rparr>)) = Some (''j'', 18446744074)"
    by (simp add: decode_revoke_demo)
  from revocation_lifetime [OF this _ _ _ refl refl refl, of demo_sys "world_on empty_tables" demo_cfg]
  show ?thesis by (simp add: demo_cfg_def)
qed

end
