(* ===== verification/Middleware.thy ===== *)
theory Middleware
  imports Client_Addr Demo_Http
begin

text \<open>
  The middleware that wraps every request: \<open>internal/middleware/security.go\<close> (headers, CORS, body
  limit), \<open>requestid.go\<close>, \<open>recoverjson.go\<close>, \<open>audit.go\<close>, \<open>logger.go\<close>, \<open>allowlist.go\<close>, and the
  request metrics of \<open>internal/metrics/metrics.go\<close>. Each is a function from the next handler to
  a handler. A panic that no middleware catches leaves through \<open>Panicked\<close>.
\<close>

section \<open>internal/middleware/security.go\<close>

definition SecurityHeaders :: "handler \<Rightarrow> handler" where
  "SecurityHeaders nxt r w =
     nxt r (on_writer
       (set_hdr ''Permissions-Policy'' ''geolocation=(), microphone=()'' \<circ>
        set_hdr ''Referrer-Policy'' ''no-referrer'' \<circ>
        set_hdr ''X-Frame-Options'' ''DENY'' \<circ>
        set_hdr ''X-Content-Type-Options'' ''nosniff'') w)"

text \<open>
  \<open>strings.EqualFold\<close>: equal runes up to case. ASCII letters go to upper case; \<open>uni_fold\<close> is
  the Unicode table that maps another rune to the least one of its case orbit.
\<close>

definition fold_rune :: "sys \<Rightarrow> nat \<Rightarrow> nat" where
  "fold_rune S c =
     (if c < 128 then (if 97 \<le> c \<and> c \<le> 122 then c - 32 else c) else uni_fold S c)"

function runes :: "string \<Rightarrow> nat list" where
  "runes [] = []"
| "runes (c # s) = (case decode_rune (c # s) of (u, k) \<Rightarrow> u # runes (drop k (c # s)))"
  by pat_completeness auto
termination by (relation "measure length") (auto dest: decode_rune_posD dest!: sym [of "(_, _)"])

definition equal_fold :: "sys \<Rightarrow> string \<Rightarrow> string \<Rightarrow> bool" where
  "equal_fold S a b \<longleftrightarrow> map (fold_rune S) (runes a) = map (fold_rune S) (runes b)"

definition contains_origin :: "sys \<Rightarrow> string list \<Rightarrow> string \<Rightarrow> bool" where
  "contains_origin S a s \<longleftrightarrow> list_ex (\<lambda>x. equal_fold S x s) a"

definition CORS :: "sys \<Rightarrow> string list \<Rightarrow> handler \<Rightarrow> handler" where
  "CORS S allow nxt r w =
     (let star = (allow = [''*'']);
          orig = header r ''Origin'';
          w1 = (if star then on_writer (set_hdr ''Access-Control-Allow-Origin'' ''*'') w else w);
          w2 = (if \<not> star \<and> orig \<noteq> [] \<and> contains_origin S allow orig
                then on_writer (set_hdr ''Vary'' ''Origin'' \<circ> set_hdr ''Access-Control-Allow-Origin'' orig) w1
                else w1);
          w3 = on_writer
            (set_hdr ''Access-Control-Allow-Methods'' ''GET,POST,PUT,DELETE,OPTIONS'' \<circ>
             set_hdr ''Access-Control-Allow-Headers'' ''Authorization, Content-Type, X-Request-ID'') w2
      in if rq_method r = ''OPTIONS'' then (Returned, on_writer (write_header 204) w3) else nxt r w3)"

text \<open>
  \<open>http.MaxBytesReader\<close>: at most \<open>n\<close> bytes (none for a negative \<open>n\<close>) and then an error, if the
  body has more. That it also asks the server to close the connection is not modelled.
\<close>

definition limit_body :: "int \<Rightarrow> req \<Rightarrow> req" where
  "limit_body n r =
     (if length (rq_body r) \<le> nat n then r
      else r\<lparr>rq_body := take (nat n) (rq_body r), rq_broken := True\<rparr>)"

definition BodyLimit :: "int \<Rightarrow> handler \<Rightarrow> handler" where
  "BodyLimit n nxt r w = nxt (limit_body n r) w"

section \<open>internal/middleware/requestid.go and recoverjson.go\<close>

definition RequestID :: "sys \<Rightarrow> handler \<Rightarrow> handler" where
  "RequestID S nxt r w =
     (case (if header r ''X-Request-ID'' = [] then apfst hex_encode (rand_read S 16 w)
            else (header r ''X-Request-ID'', w)) of
        (rid, w1) \<Rightarrow>
          nxt (r\<lparr>rq_headers := (rq_headers r)(''X-Request-ID'' \<mapsto> rid)\<rparr>)
            (on_writer (set_hdr ''X-Request-ID'' rid) w1))"

text \<open>
  The deferred function runs with the writer that \<open>RecoverJSON\<close> was given, outside the wrappers
  of the handlers below.
\<close>

definition panic_error :: go_error where
  "panic_error = App (E 500 ''panic'' ''internal error'' None None)"

definition RecoverJSON :: "handler \<Rightarrow> handler" where
  "RecoverJSON nxt r w =
     (case nxt r w of
        (Returned, w1) \<Rightarrow> (Returned, w1)
      | (Panicked, w1) \<Rightarrow> (Returned, write_error r panic_error (w1\<lparr>logs := logs w1 @ [LogPanic]\<rparr>)))"

section \<open>Wrappers that see the status\<close>

text \<open>
  Run the next handler with a wrapper of status 200 in front of the writer; the result is what
  happened, the status that the wrapper saw, and the world without the wrapper.
\<close>

definition with_tap :: "handler \<Rightarrow> req \<Rightarrow> world \<Rightarrow> flow \<times> int \<times> world" where
  "with_tap nxt r w =
     (case nxt r (on_writer tap w) of (fl, w1) \<Rightarrow> (fl, tapped (wr w1), on_writer untap w1))"

text \<open>
  The INSERT into \<open>audit\_logs\<close> (migration 0006). In the server's strict mode, its default, a
  text that does not fit its column is an error: \<open>method\<close> 10, \<open>ip\<close> and \<open>rid\<close> 64 characters, \<open>path\<close> 65535
  bytes.
\<close>

definition ins_audit :: "env \<Rightarrow> int \<Rightarrow> string \<Rightarrow> string \<Rightarrow> int \<Rightarrow> string \<Rightarrow> string \<Rightarrow> stmt" where
  "ins_audit e uid meth url status ip rid n t =
     (let i = auto_id e n
      in if 10 < rune_count meth \<or> 65535 < length url \<or> 64 < rune_count ip \<or> 64 < rune_count rid \<or>
            i \<in> au_id ` set (audit_rows t) then None
         else Some (i, t\<lparr>audit_rows := audit_rows t @
           [\<lparr>au_id = i, au_user = Some uid, au_method = meth, au_path = url, au_status = status,
             au_ip = ip, au_rid = rid, au_created = now e n\<rparr>]\<rparr>))"

text \<open>The user is read from the context of the request that the middleware itself was given.\<close>

definition user_or_zero :: "req \<Rightarrow> int" where
  "user_or_zero r = (case rq_uid r of None \<Rightarrow> 0 | Some u \<Rightarrow> u)"

definition Audit :: "sys \<Rightarrow> handler \<Rightarrow> handler" where
  "Audit S nxt r w =
     (case with_tap nxt r w of
        (Panicked, _, w1) \<Rightarrow> (Panicked, w1)
      | (Returned, status, w1) \<Rightarrow>
          (Returned, snd (on_db (exec (senv S)
             (ins_audit (senv S) (user_or_zero r) (rq_method r) (rq_path r) status
                (split_host (rq_remote r)) (header r ''X-Request-ID''))) w1)))"

text \<open>The log entry holds the duration in nanoseconds; the code prints it.\<close>

definition Logger :: "sys \<Rightarrow> handler \<Rightarrow> handler" where
  "Logger S nxt r w =
     (case time_now S w of (start, w0) \<Rightarrow>
      case with_tap nxt r w0 of
        (Panicked, _, w1) \<Rightarrow> (Panicked, w1)
      | (Returned, status, w1) \<Rightarrow>
          (case time_now S w1 of (tm, w2) \<Rightarrow>
             (Returned, w2\<lparr>logs := logs w2 @
               [LogHttp (header r ''X-Request-ID'') (rq_method r) (rq_path r) (rq_remote r) status
                  (tm - start) (rq_length r)]\<rparr>)))"

text \<open>An observation: its labels route, method and status.\<close>

definition Metrics :: "sys \<Rightarrow> handler \<Rightarrow> handler" where
  "Metrics S nxt r w =
     (case time_now S w of (start, w0) \<Rightarrow>
      case with_tap nxt r w0 of
        (Panicked, _, w1) \<Rightarrow> (Panicked, w1)
      | (Returned, status, w1) \<Rightarrow>
          (case time_now S w1 of (tm, w2) \<Rightarrow>
             (Returned, w2\<lparr>observed := observed w2 @ [(rq_path r, rq_method r, format_int status)]\<rparr>)))"

section \<open>internal/middleware/allowlist.go\<close>

definition AllowCIDR :: "string \<Rightarrow> handler \<Rightarrow> handler" where
  "AllowCIDR cidr nxt r w =
     (case parse_cidr cidr of
        None \<Rightarrow> nxt r w
      | Some netw \<Rightarrow>
          (case parse_ip (split_host (rq_remote r)) of
             None \<Rightarrow> (Returned, on_writer (http_error ''forbidden'' 403) w)
           | Some ip \<Rightarrow>
               if net_contains netw ip then nxt r w
               else (Returned, on_writer (http_error ''forbidden'' 403) w)))"

section \<open>What the wrappers do\<close>

lemma tap_simps [simp]:
  "w_sent (tap x) = w_sent x" "w_hdr (tap x) = w_hdr x" "w_body (tap x) = w_body x"
  "w_sent (untap x) = w_sent x" "w_hdr (untap x) = w_hdr x" "w_body (untap x) = w_body x"
  "w_taps (tap x) = 200 # w_taps x" "w_taps (untap x) = tl (w_taps x)"
  by (simp_all add: tap_def untap_def)

lemma audit_exec:
  "audit_rows (tabs (snd (exec e (ins_audit e uid meth url status ip rid) d))) =
     (if out e (tick d) = Refused \<or> ins_audit e uid meth url status ip rid (tick d) (tabs d) = None
      then audit_rows (tabs d)
      else audit_rows (tabs d) @
        [\<lparr>au_id = auto_id e (tick d), au_user = Some uid, au_method = meth, au_path = url,
          au_status = status, au_ip = ip, au_rid = rid, au_created = now e (tick d)\<rparr>])"
  by (auto simp: exec_def ins_audit_def Let_def split: outcome.splits)

text \<open>The part of the chain between the limiter and the routes.\<close>

definition recorded :: "sys \<Rightarrow> handler \<Rightarrow> handler" where
  "recorded S h = RecoverJSON (Metrics S (Logger S (Audit S h)))"

text \<open>A handler that panics and has sent, logged, observed and audited nothing.\<close>

definition quiet :: "(req \<Rightarrow> world \<Rightarrow> world) \<Rightarrow> bool" where
  "quiet f \<longleftrightarrow> (\<forall>r w. w_sent (wr (f r w)) = w_sent (wr w) \<and> observed (f r w) = observed w \<and>
     logs (f r w) = logs w \<and> audit_rows (tabs (wdb (f r w))) = audit_rows (tabs (wdb w)))"

section \<open>Properties\<close>

text \<open>
  A panic is answered but not recorded: the client gets 500, but the request leaves no audit row, no
  access-log line and no observation; the log holds the panic and the error alone.
\<close>

theorem panic_is_not_recorded:
  assumes "quiet f" and "w_sent (wr w) = None"
    and "res = recorded S (\<lambda>r w. (Panicked, f r w)) r w"
  shows "fst res = Returned \<and> status_of (wr (snd res)) = 500 \<and>
    audit_rows (tabs (wdb (snd res))) = audit_rows (tabs (wdb w)) \<and>
    observed (snd res) = observed w \<and>
    logs (snd res) = logs w @ [LogPanic,
      LogApi True 500 ''panic'' (header r ''X-Request-ID'') (rq_path r) []]"
  using assms
  by (simp add: recorded_def RecoverJSON_def Metrics_def Logger_def Audit_def with_tap_def quiet_def
      time_now_def panic_error_def write_error_def Let_def E_def on_writer_def)

theorem panic_is_not_recorded_witness:
  "status_of (wr (snd (recorded demo_sys (\<lambda>r w. (Panicked, w\<lparr>drawn := 5\<rparr>)) bare_req (world_on empty_tables)))) = 500"
proof -
  have "quiet (\<lambda>r w. w\<lparr>drawn := 5\<rparr>)" by (simp add: quiet_def)
  from panic_is_not_recorded [OF this _ refl, of "world_on empty_tables" demo_sys bare_req]
  show ?thesis by simp
qed

definition audit_fits :: "req \<Rightarrow> bool" where
  "audit_fits r \<longleftrightarrow> rune_count (rq_method r) \<le> 10 \<and> length (rq_path r) \<le> 65535 \<and>
     rune_count (split_host (rq_remote r)) \<le> 64 \<and> rune_count (header r ''X-Request-ID'') \<le> 64"

text \<open>
  A request that returns is recorded once, with the status that was sent and under the user of
  the request that the middleware was given (0 if it has none), provided its method, path,
  address and request id fit their columns; otherwise it is not recorded at all. The request id
  is the client's, so a request with an id of more than 64 characters leaves no audit row.
\<close>

theorem audit_records:
  assumes "h r (on_writer tap w) = (Returned, w1)" and "n = tick (wdb w1)"
    and "out (senv S) n = Okay" and "auto_id (senv S) n \<notin> au_id ` set (audit_rows (tabs (wdb w1)))"
  shows "audit_rows (tabs (wdb (snd (Audit S h r w)))) = audit_rows (tabs (wdb w1)) @
    (if audit_fits r
     then [\<lparr>au_id = auto_id (senv S) n, au_user = Some (user_or_zero r), au_method = rq_method r,
        au_path = rq_path r, au_status = tapped (wr w1), au_ip = split_host (rq_remote r),
        au_rid = header r ''X-Request-ID'', au_created = now (senv S) n\<rparr>]
     else [])"
proof -
  let ?f = "ins_audit (senv S) (user_or_zero r) (rq_method r) (rq_path r) (tapped (wr w1))
    (split_host (rq_remote r)) (header r ''X-Request-ID'')"
  have "wdb (snd (Audit S h r w)) = snd (exec (senv S) ?f (wdb w1))"
    using assms(1) by (simp add: Audit_def with_tap_def on_db_def split: prod.splits)
  moreover have "(?f n (tabs (wdb w1)) = None) = (\<not> audit_fits r)"
    using assms(4) by (auto simp: ins_audit_def audit_fits_def Let_def)
  ultimately show ?thesis using assms(2,3) by (simp add: audit_exec)
qed

theorem audit_records_witness:
  "audit_rows (tabs (wdb (snd (Audit demo_sys (\<lambda>r w. (Returned, on_writer (write_header 201) w))
     (bare_req\<lparr>rq_headers := [''X-Request-ID'' \<mapsto> replicate 65 CHR ''x'']\<rparr>) (world_on empty_tables))))) = []"
proof -
  let ?r = "bare_req\<lparr>rq_headers := [''X-Request-ID'' \<mapsto> replicate 65 CHR ''x'']\<rparr>"
  have "rune_count (replicate 65 CHR ''x'') = 65" by (subst rune_count_ascii) (simp_all add: list_all_iff)
  then have "\<not> audit_fits ?r" by (simp add: audit_fits_def header_def get_or_empty_def)
  with audit_records [of "\<lambda>r w. (Returned, on_writer (write_header 201) w)" ?r "world_on empty_tables"
      _ 0 demo_sys, OF refl]
  show ?thesis by simp
qed

definition allowed_origin :: "sys \<Rightarrow> string list \<Rightarrow> req \<Rightarrow> string option" where
  "allowed_origin S allow r =
     (if allow = [''*''] then Some ''*''
      else if header r ''Origin'' \<noteq> [] \<and> (\<exists>x\<in>set allow. equal_fold S x (header r ''Origin''))
      then Some (header r ''Origin'') else None)"

text \<open>
  The cross-origin policy: before anything else runs, the response allows exactly the origin *
  (if that is the configured list), or the request's own origin, if it is in the list up to
  case, or keeps what was there; a preflight request ends here with 204.
\<close>

theorem cross_origin_policy:
  assumes "w_sent (wr w) = None"
  shows "\<exists>w'. wdb w' = wdb w \<and> rds w' = rds w \<and> w_sent (wr w') = None \<and>
    w_hdr (wr w') ''Access-Control-Allow-Origin'' =
      (case allowed_origin S allow r of None \<Rightarrow> w_hdr (wr w) ''Access-Control-Allow-Origin'' | Some x \<Rightarrow> Some x) \<and>
    (if rq_method r = ''OPTIONS''
     then CORS S allow nxt r w = (Returned, on_writer (write_header 204) w')
     else CORS S allow nxt r w = nxt r w')"
proof -
  let ?both = "set_hdr ''Access-Control-Allow-Methods'' ''GET,POST,PUT,DELETE,OPTIONS'' \<circ>
             set_hdr ''Access-Control-Allow-Headers'' ''Authorization, Content-Type, X-Request-ID''"
  let ?w1 = "if allow = [''*''] then on_writer (set_hdr ''Access-Control-Allow-Origin'' ''*'') w
    else if header r ''Origin'' \<noteq> [] \<and> contains_origin S allow (header r ''Origin'')
    then on_writer (set_hdr ''Vary'' ''Origin'' \<circ> set_hdr ''Access-Control-Allow-Origin'' (header r ''Origin'')) w
    else w"
  have "contains_origin S allow (header r ''Origin'') =
      (\<exists>x\<in>set allow. equal_fold S x (header r ''Origin''))"
    by (simp add: contains_origin_def list_ex_iff)
  then show ?thesis
    using assms
    by (intro exI [of _ "on_writer ?both ?w1"]) (auto simp: CORS_def allowed_origin_def Let_def)
qed

theorem cross_origin_policy_witness:
  "allowed_origin demo_sys [''https://a''] (bare_req\<lparr>rq_headers := [''Origin'' \<mapsto> ''https://b'']\<rparr>) = None \<and>
   (\<exists>w'. CORS demo_sys [''https://a''] (\<lambda>r w. (Returned, w))
      (bare_req\<lparr>rq_headers := [''Origin'' \<mapsto> ''https://b'']\<rparr>) (world_on empty_tables) = (Returned, w') \<and>
      w_hdr (wr w') ''Access-Control-Allow-Origin'' = None)"
proof -
  let ?r = "bare_req\<lparr>rq_headers := [''Origin'' \<mapsto> ''https://b'']\<rparr>"
  have "runes ''https://a'' = map of_char ''https://a''" "runes ''https://b'' = map of_char ''https://b''"
    by code_simp+
  then have no: "allowed_origin demo_sys [''https://a''] ?r = None"
    by (simp add: allowed_origin_def header_def get_or_empty_def equal_fold_def fold_rune_def)
  then show ?thesis
    using cross_origin_policy [of "world_on empty_tables" demo_sys "[''https://a'']" ?r "\<lambda>r w. (Returned, w)"]
    by auto
qed

text \<open>
  The address list admits exactly a prefix: for a network \<open>a.b.c.d/n\<close> and a peer with a dotted
  address, the request is passed on if and only if the leading \<open>n\<close> bits of the two agree, and
  refused with 403 otherwise.
\<close>

theorem allow_list_is_a_prefix:
  assumes "length q = 4" and "length p = 4" and "n \<le> 32"
    and "rq_remote r = ip4_text p @ '':'' @ dec_nat port"
  shows "AllowCIDR (cidr_text q n) nxt r w =
    (if take n (addr_bits q) = take n (addr_bits p) then nxt r w
     else (Returned, on_writer (http_error ''forbidden'' 403) w))"
  unfolding AllowCIDR_def assms(4) split_host_text parse_cidr_text [OF assms(1,3)] parse_ip_text [OF assms(2)]
  using contains_text [OF assms(1-3)] by simp

theorem allow_list_is_a_prefix_witness:
  "AllowCIDR (cidr_text [10, 0, 0, 0] 8) (\<lambda>r w. (Panicked, w))
     (bare_req\<lparr>rq_remote := ip4_text [11, 0, 0, 1] @ '':'' @ dec_nat 80\<rparr>) (world_on empty_tables) =
   (Returned, on_writer (http_error ''forbidden'' 403) (world_on empty_tables))"
proof -
  have "take 8 (addr_bits [10, 0, 0, 0]) \<noteq> take 8 (addr_bits [11, 0, 0, 1])"
    by (simp add: addr_bits_def byte_bits_inj)
  then show ?thesis
    by (subst allow_list_is_a_prefix [where p = "[11, 0, 0, 1]" and port = 80]) simp_all
qed

end
