(* ===== verification/Local_Limiter.thy ===== *)
theory Local_Limiter
  imports Client_Addr Demo_Http
begin

text \<open>
  The limiters that live in memory: \<open>internal/middleware/ratelimit.go\<close>, one token bucket per
  client address with a clean-up of idle ones, and \<open>internal/repos/limiters.go\<close>, one per e-mail
  address. A bucket of \<open>golang.org/x/time/rate\<close> is a value of type \<open>'b\<close>: \<open>fresh\<close> is what
  \<open>NewLimiter\<close> returns and \<open>allow\<close> is \<open>Allow\<close> at a time. Bursts of concurrent requests for one
  key are taken one after the other.
\<close>

section \<open>Cells under keys\<close>

text \<open>
  The contract of a store that keeps one cell per key: an event at a key is answered by the
  key's own cell and moves no other. The client concludes that the answers a key gets, within
  any history, are those of a single cell that sees this key's events only.
\<close>

locale cell_store =
  fixes step :: "'k \<Rightarrow> 'e \<Rightarrow> 's \<Rightarrow> 'o \<times> 's"
    and view :: "'s \<Rightarrow> 'k \<Rightarrow> 'c"
    and cell :: "'e \<Rightarrow> 'c \<Rightarrow> 'o \<times> 'c"
  assumes step_out: "fst (step k e s) = fst (cell e (view s k))"
    and step_view: "view (snd (step k e s)) k' = (if k' = k then snd (cell e (view s k)) else view s k')"
begin

lemma history_view:
  "view (fold (\<lambda>(k, e) s. snd (step k e s)) evs s) k =
     fold (\<lambda>e c. snd (cell e c)) (map snd (filter (\<lambda>(k', e). k' = k) evs)) (view s k)"
  by (induction evs arbitrary: s) (auto simp: step_view)

lemma history_out:
  "fst (step k e (fold (\<lambda>(k, e) s. snd (step k e s)) evs s)) =
     fst (cell e (fold (\<lambda>e c. snd (cell e c)) (map snd (filter (\<lambda>(k', e). k' = k) evs)) (view s k)))"
  by (simp add: step_out history_view)

end

section \<open>internal/repos/limiters.go\<close>

text \<open>The map of the closure that \<open>NewEmailLimiter\<close> returns, and one call of it at the time \<open>tm\<close>.\<close>

type_synonym 'b email_map = "string \<rightharpoonup> 'b"

definition email_allow ::
  "'b \<Rightarrow> (int \<Rightarrow> 'b \<Rightarrow> bool \<times> 'b) \<Rightarrow> string \<Rightarrow> int \<Rightarrow> 'b email_map \<Rightarrow> bool \<times> 'b email_map" where
  "email_allow fresh allow key tm m =
     (let v = (case m key of None \<Rightarrow> fresh | Some b \<Rightarrow> b)
      in case allow tm v of (ok, b) \<Rightarrow> (ok, m(key \<mapsto> b)))"

definition bucket_at :: "'b \<Rightarrow> 'b email_map \<Rightarrow> string \<Rightarrow> 'b" where
  "bucket_at fresh m key = (case m key of None \<Rightarrow> fresh | Some b \<Rightarrow> b)"

interpretation emails: cell_store "email_allow fresh allow" "bucket_at fresh" allow for fresh allow
  by unfold_locales (auto simp: email_allow_def bucket_at_def Let_def split: prod.splits option.splits)

section \<open>internal/middleware/ratelimit.go\<close>

record 'b entry =
  e_lim :: 'b
  e_ts :: int

record 'b Limiter =
  l_fresh :: 'b
  l_ttl :: int
  l_m :: "string \<rightharpoonup> 'b entry"

definition NewLimiter :: "'b \<Rightarrow> int \<Rightarrow> 'b Limiter" where
  "NewLimiter fresh ttl = \<lparr>l_fresh = fresh, l_ttl = ttl, l_m = Map.empty\<rparr>"

text \<open>\<open>get\<close> returns a pointer to the bucket under the key; the caller's \<open>Allow\<close> changes it in place.\<close>

definition limiter_get :: "string \<Rightarrow> int \<Rightarrow> 'b Limiter \<Rightarrow> 'b \<times> 'b Limiter" where
  "limiter_get k tm l =
     (let b = (case l_m l k of Some p \<Rightarrow> e_lim p | None \<Rightarrow> l_fresh l)
      in (b, l\<lparr>l_m := (l_m l)(k \<mapsto> \<lparr>e_lim = b, e_ts = tm\<rparr>)\<rparr>))"

definition put_bucket :: "string \<Rightarrow> 'b \<Rightarrow> 'b Limiter \<Rightarrow> 'b Limiter" where
  "put_bucket k b l = l\<lparr>l_m := (l_m l)(k := map_option (\<lambda>p. p\<lparr>e_lim := b\<rparr>) (l_m l k))\<rparr>"

text \<open>One request under the key \<open>k\<close>, with the readings of the clock of \<open>get\<close> and of \<open>Allow\<close>.\<close>

definition limiter_allow ::
  "(int \<Rightarrow> 'b \<Rightarrow> bool \<times> 'b) \<Rightarrow> string \<Rightarrow> int \<times> int \<Rightarrow> 'b Limiter \<Rightarrow> bool \<times> 'b Limiter" where
  "limiter_allow allow k tms l =
     (case limiter_get k (fst tms) l of (b, l1) \<Rightarrow>
      case allow (snd tms) b of (ok, b1) \<Rightarrow> (ok, put_bucket k b1 l1))"

definition Cleanup :: "int \<Rightarrow> 'b Limiter \<Rightarrow> 'b Limiter" where
  "Cleanup tm l =
     (let cut = tm - l_ttl l
      in l\<lparr>l_m := (\<lambda>k. case l_m l k of None \<Rightarrow> None | Some p \<Rightarrow> if e_ts p < cut then None else Some p)\<rparr>)"

definition limiter_host :: "req \<Rightarrow> string" where
  "limiter_host r = (let host = split_host (rq_remote r) in if host = [] then rq_remote r else host)"

definition Limiter_Middleware ::
  "sys \<Rightarrow> (int \<Rightarrow> 'b \<Rightarrow> bool \<times> 'b) \<Rightarrow> handler \<Rightarrow> req \<Rightarrow> world \<times> 'b Limiter \<Rightarrow>
   (flow \<times> world) \<times> 'b Limiter" where
  "Limiter_Middleware S allow nxt r wl =
     (case wl of (w, l) \<Rightarrow>
      case time_now S w of (t1, w1) \<Rightarrow>
      case time_now S w1 of (t2, w2) \<Rightarrow>
      case limiter_allow allow (limiter_host r) (t1, t2) l of (ok, l1) \<Rightarrow>
        if ok then (nxt r w2, l1)
        else ((Returned, on_writer (http_error ''rate limit'' 429 \<circ> set_hdr ''Retry-After'' ''1'') w2), l1))"

text \<open>A key's cell: the bucket, fresh if there is none.\<close>

definition limiter_view :: "'b Limiter \<Rightarrow> string \<Rightarrow> 'b" where
  "limiter_view l k = (case l_m l k of Some p \<Rightarrow> e_lim p | None \<Rightarrow> l_fresh l)"

interpretation addresses: cell_store "limiter_allow allow" limiter_view "\<lambda>tms. allow (snd tms)" for allow
  by unfold_locales
    (auto simp: limiter_allow_def limiter_get_def limiter_view_def put_bucket_def Let_def
      split: prod.splits option.splits)

section \<open>Properties\<close>

text \<open>
  The e-mail limiter is one bucket per address: in any history of attempts with any addresses,
  the answer to an attempt is that of a single new bucket that has seen the attempts with this
  very address only; attempts with other addresses neither spend nor refill it.
\<close>

theorem email_limiter_per_address:
  "fst (email_allow fresh allow key tm
      (fold (\<lambda>(k, t) m. snd (email_allow fresh allow k t m)) evs Map.empty)) =
   fst (allow tm (fold (\<lambda>t b. snd (allow t b)) (map snd (filter (\<lambda>(k, t). k = key) evs)) fresh))"
  using emails.history_out [of fresh allow key tm evs Map.empty] by (simp add: bucket_at_def)

text \<open>
  Cleaning up is invisible when idle buckets fill up: if a bucket that was not asked for longer
  than the time to live answers as a new one does, then, with a clock that does not run
  backwards, a request after a clean-up gets the answer it would have got without it.
\<close>

definition refills :: "(int \<Rightarrow> 'b \<Rightarrow> bool \<times> 'b) \<Rightarrow> 'b \<Rightarrow> 'b Limiter \<Rightarrow> bool" where
  "refills allow fresh l \<longleftrightarrow>
     (\<forall>k p tm. l_m l k = Some p \<longrightarrow> e_ts p + l_ttl l < tm \<longrightarrow> allow tm (e_lim p) = allow tm fresh)"

theorem cleanup_is_invisible:
  assumes "refills allow (l_fresh l) l" and "c \<le> snd tms"
  shows "fst (limiter_allow allow k tms (Cleanup c l)) = fst (limiter_allow allow k tms l)"
proof (cases "l_m l k")
  case None
  then show ?thesis by (simp add: addresses.step_out limiter_view_def Cleanup_def Let_def)
next
  case (Some p)
  show ?thesis
  proof (cases "e_ts p < c - l_ttl l")
    case True
    with assms(2) have "e_ts p + l_ttl l < snd tms" by linarith
    with assms(1) Some have "allow (snd tms) (e_lim p) = allow (snd tms) (l_fresh l)"
      unfolding refills_def by blast
    with Some True show ?thesis
      by (simp add: addresses.step_out limiter_view_def Cleanup_def Let_def)
  next
    case False
    with Some show ?thesis by (simp add: addresses.step_out limiter_view_def Cleanup_def Let_def)
  qed
qed

text \<open>A bucket of one token that comes back after ten seconds: the time of the last grant.\<close>

definition one_token :: "int \<Rightarrow> int option \<Rightarrow> bool \<times> int option" where
  "one_token tm b =
     (case b of None \<Rightarrow> (True, Some tm)
      | Some t \<Rightarrow> if t + 10 * second < tm then (True, Some tm) else (False, Some t))"

theorem cleanup_is_invisible_witness:
  "fst (limiter_allow one_token ''a'' (100 * second, 100 * second)
     (Cleanup (90 * second) \<lparr>l_fresh = None, l_ttl = 60 * second,
        l_m = [''a'' \<mapsto> \<lparr>e_lim = Some second, e_ts = second\<rparr>]\<rparr>)) = True"
proof -
  let ?l = "\<lparr>l_fresh = None, l_ttl = 60 * second, l_m = [''a'' \<mapsto> \<lparr>e_lim = Some second, e_ts = second\<rparr>]\<rparr>"
  have "refills one_token (l_fresh ?l) ?l"
    by (auto simp: refills_def one_token_def second_def split: if_splits)
  then have "fst (limiter_allow one_token ''a'' (100 * second, 100 * second) (Cleanup (90 * second) ?l)) =
      fst (limiter_allow one_token ''a'' (100 * second, 100 * second) ?l)"
    by (rule cleanup_is_invisible) (simp add: second_def)
  then show ?thesis by (simp add: addresses.step_out limiter_view_def one_token_def second_def)
qed

end
