(* ===== verification/Effects.thy ===== *)
theory Effects
  imports Admin_Handler Middleware
begin

text \<open>
  What a request can do: every handler acts on the world by a sequence of operations of the
  repositories, writes to the response, Redis calls, log entries and readings of the clock. The
  relation \<open>eff\<close> records which operations of the repositories occur and that the headers which the
  middleware sets survive; the theories above draw their conclusions from it.
\<close>

section \<open>Operations of the repositories\<close>

datatype db_op =
    NoteOp note_op
  | TokOp tok_op
  | IdemOp idem_op
  | RoleOp role_op
  | UserOp string string
  | AuditOp int string string int string string
  | Reads nat

fun db_step :: "sys \<Rightarrow> db_op \<Rightarrow> db \<Rightarrow> db" where
  "db_step S (NoteOp p) d = note_step (senv S) p d"
| "db_step S (TokOp p) d = tok_step (senv S) p d"
| "db_step S (IdemOp p) d = idem_step (keying S) (senv S) p d"
| "db_step S (RoleOp p) d = role_step (senv S) p d"
| "db_step S (UserOp email pass) d = snd (Users_Create (senv S) email pass d)"
| "db_step S (AuditOp uid meth url status ip rid) d =
     snd (exec (senv S) (ins_audit (senv S) uid meth url status ip rid) d)"
| "db_step S (Reads n) d = d\<lparr>tick := n\<rparr>"

section \<open>Headers that stay\<close>

definition security_headers :: "(string \<times> string) list" where
  "security_headers =
     [(''X-Content-Type-Options'', ''nosniff''), (''X-Frame-Options'', ''DENY''),
      (''Referrer-Policy'', ''no-referrer''), (''Permissions-Policy'', ''geolocation=(), microphone=()'')]"

definition guarded :: "string \<Rightarrow> string \<Rightarrow> bool" where
  "guarded k v \<longleftrightarrow> k = ''X-Request-ID'' \<or> (k, v) \<in> set security_headers"

text \<open>The header is set, and it is among the headers that were sent, if they were.\<close>

definition carries :: "string \<Rightarrow> string \<Rightarrow> writer \<Rightarrow> bool" where
  "carries k v x \<longleftrightarrow> w_hdr x k = Some v \<and> (\<forall>c h. w_sent x = Some (c, h) \<longrightarrow> h k = Some v)"

lemma carries_sent: "carries k v x \<Longrightarrow> sent_header x k = Some v"
  by (auto simp: carries_def sent_header_def split: option.splits)

definition keeps_headers :: "writer \<Rightarrow> writer \<Rightarrow> bool" where
  "keeps_headers x y \<longleftrightarrow> (\<forall>k v. guarded k v \<longrightarrow> carries k v x \<longrightarrow> carries k v y)"

lemma keeps_headers_refl [simp, intro]: "keeps_headers x x"
  by (simp add: keeps_headers_def)

lemma keeps_headers_trans: "keeps_headers x y \<Longrightarrow> keeps_headers y z \<Longrightarrow> keeps_headers x z"
  by (simp add: keeps_headers_def)

definition plain_header :: "string \<Rightarrow> string \<Rightarrow> bool" where
  "plain_header k v \<longleftrightarrow> k \<noteq> ''X-Request-ID'' \<and> (k \<in> fst ` set security_headers \<longrightarrow> (k, v) \<in> set security_headers)"

lemma plain_headers [simp]:
  "plain_header ''Content-Type'' v" "plain_header ''Retry-After'' v" "plain_header ''ETag'' v"
  "plain_header ''Cache-Control'' v" "plain_header ''Content-Disposition'' v" "plain_header ''Vary'' v"
  "plain_header ''Access-Control-Allow-Origin'' v" "plain_header ''Access-Control-Allow-Methods'' v"
  "plain_header ''Access-Control-Allow-Headers'' v" "plain_header ''X-Content-Type-Options'' ''nosniff''"
  by (simp_all add: plain_header_def security_headers_def)

lemma keeps_set_hdr: "plain_header k v \<Longrightarrow> keeps_headers x (set_hdr k v x)"
  by (auto simp: keeps_headers_def carries_def guarded_def plain_header_def security_headers_def set_hdr_def)

lemma keeps_write:
  "keeps_headers x (write_header c x)" "keeps_headers x (write_body s x)"
  "keeps_headers x (tap x)" "keeps_headers x (untap x)"
  by (auto simp: keeps_headers_def carries_def write_header_def write_body_def split: option.splits)

lemma keeps_error: "keeps_headers x (http_error msg c x)"
  unfolding http_error_def by (intro keeps_headers_trans [OF _ keeps_write(1)]
      keeps_headers_trans [OF _ keeps_write(2)] keeps_headers_trans [OF keeps_set_hdr keeps_set_hdr]) simp_all

section \<open>The relation\<close>

inductive eff :: "sys \<Rightarrow> db_op set \<Rightarrow> world \<Rightarrow> world \<Rightarrow> bool" for S may where
  eff_refl: "eff S may w w"
| eff_db: "eff S may w w1 \<Longrightarrow> p \<in> may \<Longrightarrow> eff S may w (w1\<lparr>wdb := db_step S p (wdb w1)\<rparr>)"
| eff_wr: "eff S may w w1 \<Longrightarrow> keeps_headers (wr w1) x \<Longrightarrow> eff S may w (w1\<lparr>wr := x\<rparr>)"
| eff_other: "eff S may w w1 \<Longrightarrow> wdb w2 = wdb w1 \<Longrightarrow> wr w2 = wr w1 \<Longrightarrow> eff S may w w2"

lemma eff_trans: "eff S may w1 w2 \<Longrightarrow> eff S may w w1 \<Longrightarrow> eff S may w w2"
  by (induction rule: eff.induct) (auto intro: eff.intros)

lemma eff_mono: "eff S may w w' \<Longrightarrow> may \<subseteq> may' \<Longrightarrow> eff S may' w w'"
  by (induction rule: eff.induct) (auto intro: eff.intros)

text \<open>A property that every operation keeps holds after the request.\<close>

lemma eff_preserves:
  assumes "eff S may w w'" and "\<And>p d. p \<in> may \<Longrightarrow> P (tabs d) \<Longrightarrow> P (tabs (db_step S p d))"
    and "P (tabs (wdb w))"
  shows "P (tabs (wdb w'))"
  using assms(1,3) by (induction rule: eff.induct) (auto intro: assms(2))

lemma eff_keeps: "eff S may w w' \<Longrightarrow> keeps_headers (wr w) (wr w')"
  by (induction rule: eff.induct) (auto intro: keeps_headers_trans)

lemma eff_on_writer:
  "eff S may w w1 \<Longrightarrow> keeps_headers (wr w1) (f (wr w1)) \<Longrightarrow> eff S may w (on_writer f w1)"
  unfolding on_writer_def by (rule eff_wr)

lemma eff_error: "eff S may w w1 \<Longrightarrow> eff S may w (on_writer (http_error msg c) w1)"
  by (erule eff_on_writer) (rule keeps_error)

lemma eff_write_error: "eff S may w w1 \<Longrightarrow> eff S may w (write_error r err w1)"
proof -
  assume e: "eff S may w w1"
  let ?w = "on_writer (write_body (encode_line (error_json (as_app err) (header r ''X-Request-ID''))))
    (on_writer (write_header (ae_status (as_app err)))
      (on_writer (set_hdr ''Content-Type'' ''application/json; charset=utf-8'') w1))"
  have "eff S may w ?w"
    by (intro eff_on_writer e) (simp_all add: keeps_set_hdr keeps_write)
  then show ?thesis by (rule eff_other) (simp_all add: write_error_def Let_def)
qed

lemma eff_time: "time_now S w1 = (tm, w2) \<Longrightarrow> eff S may w w1 \<Longrightarrow> eff S may w w2"
  by (drule eff_other [of S may w w1 w2]) (auto simp: time_now_def)

lemma eff_rand: "rand_read S k w1 = (b, w2) \<Longrightarrow> eff S may w w1 \<Longrightarrow> eff S may w w2"
  by (drule eff_other [of S may w w1 w2]) (auto simp: rand_read_def)

lemma eff_redis: "on_redis f w1 = (x, w2) \<Longrightarrow> eff S may w w1 \<Longrightarrow> eff S may w w2"
  by (drule eff_other [of S may w w1 w2]) (auto simp: on_redis_def split: prod.splits)

section \<open>How a handler is followed\<close>

text \<open>
  Every call of \<open>f\<close> on the database acts like one of the operations that may occur. The rules
  below follow the code of a handler: each call leaves a world that the request may have reached.
\<close>

definition may_db :: "sys \<Rightarrow> db_op set \<Rightarrow> (db \<Rightarrow> 'a \<times> db) \<Rightarrow> bool" where
  "may_db S may f \<longleftrightarrow> (\<forall>d. \<exists>p\<in>may. snd (f d) = db_step S p d)"

lemma eff_on_db: "eff S may w w1 \<Longrightarrow> may_db S may f \<Longrightarrow> eff S may w (snd (on_db f w1))"
  unfolding may_db_def on_db_simps by (metis eff_db)

lemma eff_calls:
  "eff S may w w1 \<Longrightarrow> may_db S may f \<Longrightarrow> (\<And>x w2. eff S may w w2 \<Longrightarrow> eff S may w (snd (F x w2))) \<Longrightarrow>
     eff S may w (snd (case on_db f w1 of (x, w2) \<Rightarrow> F x w2))"
  "eff S may w w1 \<Longrightarrow> (\<And>x w2. eff S may w w2 \<Longrightarrow> eff S may w (snd (G x w2))) \<Longrightarrow>
     eff S may w (snd (case time_now S w1 of (x, w2) \<Rightarrow> G x w2))"
  "eff S may w w1 \<Longrightarrow> (\<And>x w2. eff S may w w2 \<Longrightarrow> eff S may w (snd (H x w2))) \<Longrightarrow>
     eff S may w (snd (case rand_read S k w1 of (x, w2) \<Rightarrow> H x w2))"
  "eff S may w w1 \<Longrightarrow> (\<And>x w2. eff S may w w2 \<Longrightarrow> eff S may w (snd (K x w2))) \<Longrightarrow>
     eff S may w (snd (case on_redis g w1 of (x, w2) \<Rightarrow> K x w2))"
  by (auto simp: split_beta eff_on_db simp del: on_db_simps intro: eff_time [OF surjective_pairing]
      eff_rand [OF surjective_pairing] eff_redis [OF surjective_pairing])

lemma eff_cases:
  "(b \<Longrightarrow> eff S may w (snd A)) \<Longrightarrow> (\<not> b \<Longrightarrow> eff S may w (snd B)) \<Longrightarrow> eff S may w (snd (if b then A else B))"
  "eff S may w (snd C) \<Longrightarrow> (\<And>y. eff S may w (snd (D y))) \<Longrightarrow>
     eff S may w (snd (case x of None \<Rightarrow> C | Some y \<Rightarrow> D y))"
  "(\<And>a. eff S may w (snd (F a))) \<Longrightarrow> (\<And>b. eff S may w (snd (G b))) \<Longrightarrow>
     eff S may w (snd (case z of Inl a \<Rightarrow> F a | Inr b \<Rightarrow> G b))"
  "eff S may w (snd A) \<Longrightarrow> eff S may w (snd B) \<Longrightarrow> eff S may w (snd (case b of True \<Rightarrow> A | False \<Rightarrow> B))"
  "eff S may w (snd A1) \<Longrightarrow> eff S may w (snd A2) \<Longrightarrow> (\<And>er. eff S may w (snd (A3 er))) \<Longrightarrow>
     eff S may w (snd (case e of ErrInProgress \<Rightarrow> A1 | ErrMismatch \<Rightarrow> A2 | DbErr er \<Rightarrow> A3 er))"
  "eff S may w (snd A) \<Longrightarrow> eff S may w (snd B) \<Longrightarrow> eff S may w (snd A2) \<Longrightarrow>
     eff S may w (snd (case er of NoRows \<Rightarrow> A | Duplicate \<Rightarrow> B | Fault \<Rightarrow> A2))"
  "(\<And>a b. eff S may w (snd (P a b))) \<Longrightarrow> eff S may w (snd (case y of (a, b) \<Rightarrow> P a b))"
  by (auto split: option.split sum.split bool.split idem_err.split dberr.split prod.split)

lemma eff_answers:
  "eff S may w w1 \<Longrightarrow> eff S may w (snd (fail r err w1))"
  "eff S may w w1 \<Longrightarrow> eff S may w (snd (answer s w1))"
  "eff S may w w1 \<Longrightarrow> eff S may w (snd (error_answer msg c w1))"
  "eff S may w w1 \<Longrightarrow> eff S may w (snd (no_content w1))"
  by (auto simp: fail_def answer_def error_answer_def no_content_def
      intro!: eff_on_writer eff_write_error keeps_error keeps_write)

lemma keeps_some [simp]:
  "keeps_headers x (cache_headers t x)" "keeps_headers x (csv_headers x)"
  "keeps_headers x (http_error msg c x)" "keeps_headers x (write_header c x)" "keeps_headers x (write_body s x)"
  "plain_header k v \<Longrightarrow> keeps_headers x (set_hdr k v x)"
  by (auto simp: cache_headers_def csv_headers_def keeps_set_hdr keeps_write keeps_error
      intro: keeps_headers_trans [OF keeps_set_hdr keeps_set_hdr])

section \<open>What each handler may do\<close>

fun idem_user :: "idem_op \<Rightarrow> int" where
  "idem_user (IClaim key uid _ _ _) = uid"
| "idem_user (IComplete key uid _) = uid"
| "idem_user (NClaim key uid _ _ _) = uid"
| "idem_user (NComplete key uid _) = uid"

definition notes_may :: "int \<Rightarrow> db_op set" where
  "notes_may u = {NoteOp p |p. op_user p = u} \<union> {IdemOp p |p. idem_user p = u}"

definition auth_may :: "db_op set" where
  "auth_may = range TokOp \<union> range (case_prod UserOp) \<union> {RoleOp (RAssign u ''user'') |u. True} \<union> range Reads"

definition admin_may :: "db_op set" where
  "admin_may = range RoleOp \<union> range Reads"

lemma may_simps [simp]:
  "NoteOp p \<in> notes_may u \<longleftrightarrow> op_user p = u" "IdemOp i \<in> notes_may u \<longleftrightarrow> idem_user i = u"
  "TokOp t \<in> auth_may" "UserOp email pass \<in> auth_may" "RoleOp (RAssign v ''user'') \<in> auth_may"
  "Reads n \<in> auth_may" "Reads n \<in> admin_may" "RoleOp q \<in> admin_may"
  by (auto simp: notes_may_def auth_may_def admin_may_def)

lemma may_dbI: "p \<in> may \<Longrightarrow> (\<And>d. snd (f d) = db_step S p d) \<Longrightarrow> may_db S may f"
  by (auto simp: may_db_def)

lemma may_notes [simp]:
  "may_db S (notes_may u) (Notes_ListFiltered (senv S) u page sz q s)"
  "may_db S (notes_may u) (Notes_Get (senv S) u i)"
  "may_db S (notes_may u) (Notes_Create (senv S) u t b)"
  "may_db S (notes_may u) (Notes_Update (senv S) u i t b)"
  "may_db S (notes_may u) (Notes_Delete (senv S) u i)"
  "may_db S (notes_may u) (Idem_Claim (keying S) (senv S) k u m url h)"
  "may_db S (notes_may u) (Idem_Complete (senv S) k u res)"
        apply (rule may_dbI [where p = "NoteOp (NoteList u page sz q s)"]; simp)
       apply (rule may_dbI [where p = "NoteOp (NoteGet u i)"]; simp)
      apply (rule may_dbI [where p = "NoteOp (NoteCreate u t b)"]; simp)
     apply (rule may_dbI [where p = "NoteOp (NoteUpdate u i t b)"]; simp)
    apply (rule may_dbI [where p = "NoteOp (NoteDelete u i)"]; simp)
   apply (rule may_dbI [where p = "IdemOp (IClaim k u m url h)"]; simp)
  apply (rule may_dbI [where p = "IdemOp (IComplete k u res)"]; simp)
  done

text \<open>Reading advances the call number and nothing else.\<close>

definition reading :: "(db \<Rightarrow> 'a \<times> db) \<Rightarrow> bool" where
  "reading f \<longleftrightarrow> (\<forall>d. \<exists>n. snd (f d) = d\<lparr>tick := n\<rparr>)"

lemma readings:
  "reading (Users_FindByEmail e em)" "reading (Users_List e p s q)" "reading (Audit_List e lo hi n)"
  "reading (Roles_Has e u rl)" "reading (query e g)"
proof -
  show "reading (Users_FindByEmail e em)" "reading (Audit_List e lo hi n)" "reading (query e g)"
    by (auto simp: reading_def Users_FindByEmail_def Audit_List_def query_def query_row_unfold Let_def)
  show "reading (Roles_Has e u rl)" by (auto simp: reading_def Roles_Has_iff)
  show "reading (Users_List e p s q)"
    by (auto simp: reading_def Users_List_def query_row_unfold query_def Let_def split: option.splits)
qed

lemma may_reading: "reading f \<Longrightarrow> range Reads \<subseteq> may \<Longrightarrow> may_db S may f"
  unfolding may_db_def reading_def by (metis db_step.simps(7) rangeI subsetD)

lemma may_reads [simp]:
  "may_db S auth_may (Users_FindByEmail e em)" "may_db S admin_may (Users_List e p s q)"
  "may_db S admin_may (Audit_List e lo hi n)" "may_db S admin_may (query e g)"
  by (auto intro!: may_reading simp: readings)

lemma may_auth [simp]:
  "may_db S auth_may (Users_Create (senv S) em h)" "may_db S auth_may (Roles_Assign (senv S) i ''user'')"
  "may_db S auth_may (Issue (senv S) i ex b)" "may_db S auth_may (UseAndRotate (senv S) tk ex b)"
  "may_db S auth_may (Revoke (senv S) tk)"
  "may_db S admin_may (Roles_Assign (senv S) i rl)" "may_db S admin_may (Roles_Unassign (senv S) i rl)"
        apply (rule may_dbI [where p = "UserOp em h"]; simp)
       apply (rule may_dbI [where p = "RoleOp (RAssign i ''user'')"]; simp add: role_step_def)
      apply (rule may_dbI [where p = "TokOp (TIssue i ex b)"]; simp)
     apply (rule may_dbI [where p = "TokOp (TRotate tk ex b)"]; simp)
    apply (rule may_dbI [where p = "TokOp (TRevoke tk)"]; simp)
   apply (rule may_dbI [where p = "RoleOp (RAssign i rl)"]; simp add: role_step_def)
  apply (rule may_dbI [where p = "RoleOp (RUnassign i rl)"]; simp add: role_step_def)
  done

section \<open>The handlers of /notes\<close>

lemma eff_notes_read:
  "eff S (notes_may (user_of r)) w0 w \<Longrightarrow> eff S (notes_may (user_of r)) w0 (snd (notes_list S r w))"
  "eff S (notes_may (user_of r)) w0 w \<Longrightarrow> eff S (notes_may (user_of r)) w0 (snd (notes_get S r w))"
  unfolding notes_list_def notes_get_def Let_def
  by - (rule eff_calls eff_cases eff_answers | assumption | (simp add: eff_on_writer; fail))+

lemma eff_notes_create:
  "eff S (notes_may (user_of r)) w0 w \<Longrightarrow> eff S (notes_may (user_of r)) w0 (snd (notes_create S r w))"
  unfolding notes_create_def Let_def
  by (rule eff_calls eff_cases eff_answers | assumption | (simp add: eff_on_writer; fail))+


lemma eff_claimed:
  assumes "eff S (notes_may (user_of r)) w0 w"
    and "\<And>w2. eff S (notes_may (user_of r)) w0 w2 \<Longrightarrow> eff S (notes_may (user_of r)) w0 (snd (F w2))"
  shows "eff S (notes_may (user_of r)) w0 (snd (case (if c then claim_first S key verb i hash r w else (None, w)) of
    (x, w2) \<Rightarrow> (case x of None \<Rightarrow> F w2 | Some res \<Rightarrow> res)))"
proof (cases c)
  case True
  obtain a b w1 where cl: "on_db (Idem_Claim (keying S) (senv S) key (user_of r) verb (note_path i) hash) w = ((a, b), w1)"
    by (metis surj_pair)
  have "eff S (notes_may (user_of r)) w0 w1"
    using eff_on_db [OF assms(1), of "Idem_Claim (keying S) (senv S) key (user_of r) verb (note_path i) hash"] cl
    by (simp del: on_db_simps)
  with True cl show ?thesis
    by (auto simp: claim_first_def assms(2) intro!: eff_answers eff_on_writer split: option.split idem_err.split)
qed (use assms in simp)

lemma eff_finish_note:
  "eff S (notes_may (user_of r)) w0 w \<Longrightarrow> eff S (notes_may (user_of r)) w0 (snd (finish_note S key n r w))"
  by (simp add: finish_note_def Let_def eff_answers eff_on_db eff_on_writer del: on_db_simps)

lemma eff_notes_write:
  "eff S (notes_may (user_of r)) w0 w \<Longrightarrow> eff S (notes_may (user_of r)) w0 (snd (notes_update S r w))"
  "eff S (notes_may (user_of r)) w0 w \<Longrightarrow> eff S (notes_may (user_of r)) w0 (snd (notes_delete S r w))"
  unfolding notes_update_def notes_delete_def Let_def
  by - (rule eff_calls eff_claimed eff_cases eff_answers eff_finish_note | assumption | (simp; fail))+

section \<open>The handlers of /auth and /admin\<close>

lemma eff_snd:
  "eff S may w0 w \<Longrightarrow> eff S may w0 (snd (time_now S w))"
  "eff S may w0 w \<Longrightarrow> eff S may w0 (snd (rand_read S k w))"
  "eff S may w0 w \<Longrightarrow> eff S may w0 (snd (on_redis f w))"
  by (rule eff_time [OF surjective_pairing] eff_rand [OF surjective_pairing] eff_redis [OF surjective_pairing]; assumption)+

lemma eff_issue_access:
  "eff S may w0 w \<Longrightarrow> (\<And>x w2. eff S may w0 w2 \<Longrightarrow> eff S may w0 (snd (F x w2))) \<Longrightarrow>
   eff S may w0 (snd (case issue_access S cfg p uid w of (x, w2) \<Rightarrow> F x w2))"
  by (simp add: issue_access_def split_beta eff_snd)

lemma eff_auth_register:
  "eff S auth_may w0 w \<Longrightarrow> eff S auth_may w0 (snd (auth_register S cfg r w))"
  unfolding auth_register_def Let_def
  by (rule eff_calls eff_cases eff_answers eff_on_db | assumption | (simp; fail))+

lemma eff_failed: "eff S may w0 w \<Longrightarrow> eff S may w0 (w\<lparr>failed_logins := n\<rparr>)"
  by (erule eff_other) simp_all

lemma eff_auth_login:
  "eff S auth_may w0 w \<Longrightarrow> eff S auth_may w0 (snd (auth_login S cfg p ok r w))"
  unfolding auth_login_def Let_def
  by (rule eff_calls eff_issue_access eff_cases eff_answers eff_failed | assumption | (simp add: eff_on_writer; fail))+

lemma eff_auth_refresh:
  "eff S auth_may w0 w \<Longrightarrow> eff S auth_may w0 (snd (auth_refresh S cfg p r w))"
  unfolding auth_refresh_def Let_def
  by (rule eff_calls eff_issue_access eff_cases eff_answers | assumption | (simp; fail))+

lemma eff_auth_logout:
  "eff S auth_may w0 w \<Longrightarrow> eff S auth_may w0 (snd (auth_logout S cfg p r w))"
  unfolding auth_logout_def Let_def
  by (rule eff_calls eff_cases eff_answers | assumption |
    (simp add: eff_on_writer eff_on_db eff_snd del: on_db_simps; fail))+

lemma eff_admin:
  "eff S admin_may w0 w \<Longrightarrow> eff S admin_may w0 (snd (admin_users_list S r w))"
  "eff S admin_may w0 w \<Longrightarrow> eff S admin_may w0 (snd (admin_roles_post S r w))"
  "eff S admin_may w0 w \<Longrightarrow> eff S admin_may w0 (snd (admin_audit_list S r w))"
  "eff S admin_may w0 w \<Longrightarrow> eff S admin_may w0 (snd (admin_jti_revoke S cfg r w))"
  "eff S admin_may w0 w \<Longrightarrow> eff S admin_may w0 (snd (health_ready S r w))"
  unfolding admin_users_list_def admin_roles_post_def admin_audit_list_def admin_jti_revoke_def health_ready_def Let_def
  by - (rule eff_calls eff_cases eff_answers | assumption | (simp add: eff_on_writer; fail))+

lemma eff_small:
  "eff S may w0 w \<Longrightarrow> eff S may w0 (snd (health_live r w))"
  "eff S may w0 w \<Longrightarrow> eff S may w0 (snd (health_info r w))"
  "eff S may w0 w \<Longrightarrow> eff S may w0 (snd (openapi_spec yaml r w))"
  "eff S may w0 w \<Longrightarrow> eff S may w0 (snd (openapi_ui r w))"
  by (simp_all add: health_live_def health_info_def openapi_spec_def openapi_ui_def eff_answers eff_on_writer)


section \<open>What an operation leaves alone\<close>

lemma note_step_frame: "\<exists>x. tabs (note_step e p d) = (tabs d)\<lparr>note_rows := x\<rparr>"
proof (cases p)
  case (NoteCreate uid title body)
  then show ?thesis by (auto simp: note_ops exec_def ins_note_def Let_def intro: exI [of _ "note_rows (tabs d)"] split: outcome.splits)
next
  case (NoteUpdate uid i title body)
  then show ?thesis
    by (auto simp: note_ops exec_def upd_note_text_def query_row_unfold Let_def intro: exI [of _ "note_rows (tabs d)"] split: outcome.splits)
next
  case (NoteDelete uid i)
  then show ?thesis
    by (auto simp: note_ops exec_def upd_note_deleted_def query_row_unfold Let_def intro: exI [of _ "note_rows (tabs d)"]
        split: outcome.splits option.splits)
next
  case (NoteGet uid i)
  then show ?thesis by (auto simp: note_ops query_row_unfold intro: exI [of _ "note_rows (tabs d)"])
next
  case (NoteList uid page sz q s)
  then show ?thesis
    by (auto simp: note_ops query_row_unfold query_def Let_def intro: exI [of _ "note_rows (tabs d)"] split: option.splits)
qed

lemma tok_step_frame: "\<exists>x. tabs (tok_step e p d) = (tabs d)\<lparr>token_rows := x\<rparr>"
  by (cases p)
    (auto simp: Issue_def Use_unfold UseAndRotate_unfold Revoke_def exec_def ins_token_def del_token_def Let_def
      intro: exI [of _ "token_rows (tabs d)"] split: option.splits outcome.splits if_splits)

lemma idem_step_frame: "\<exists>x. tabs (idem_step sc e p d) = (tabs d)\<lparr>idem_rows := x\<rparr>"
  by (cases p)
    (auto simp: Idem_Claim_unfold Idem_Complete_def Idempotency_Claim_def Idempotency_Complete_def idem_tx_unfold
      ins_claim_def exec_def upd_result_def upd_note_def Let_def
      intro: exI [of _ "idem_rows (tabs d)"] split: option.splits outcome.splits if_splits)

lemma role_step_frame: "\<exists>x. tabs (role_step e p d) = (tabs d)\<lparr>user_role_rows := x\<rparr>"
  by (auto simp: role_step_def role_ops query_row_unfold exec_def ins_user_role_def del_user_role_def Let_def
      intro: exI [of _ "user_role_rows (tabs d)"] split: role_op.splits option.splits outcome.splits if_splits)

end
