(* ===== verification/Server.thy ===== *)
theory Server
  imports Effects Local_Limiter
begin

text \<open>
  \<open>internal/server/server.go\<close>: the server, its chain of middleware and its routes, on the handlers
  and middleware of the other theories, with the set-up of the Redis client
  (\<open>internal/redisx/redisx.go\<close>). The router \<open>chi\<close>, its \<open>RealIP\<close>, the tracing wrapper \<open>otelhttp\<close> and
  the page of \<open>promhttp\<close> are fields of \<open>libs\<close>.
\<close>

section \<open>internal/redisx/redisx.go\<close>

record redis_options =
  ro_addr :: string
  ro_pass :: string
  ro_db :: int
  ro_tls :: bool

definition redisx_New :: "config \<Rightarrow> redis_options" where
  "redisx_New cfg =
     \<lparr>ro_addr = c_redis_addr cfg, ro_pass = c_redis_pass cfg, ro_db = c_redis_db cfg,
      ro_tls = c_redis_tls cfg\<rparr>"

section \<open>The server and what it is built on\<close>

record Server =
  s_cfg :: config
  s_rdb :: "redis_options option"

definition server_New :: "config \<Rightarrow> Server" where
  "server_New cfg = \<lparr>s_cfg = cfg, s_rdb = Some (redisx_New cfg)\<rparr>"

text \<open>
  What \<open>chi\<close> finds for a method and a path in the table of routes: an entry with the URL
  parameters, or none, below the mount point whose sub-router answers.
\<close>

datatype mount = AtRoot | AtAuth | AtNotes

datatype chi_match = Found nat "string \<rightharpoonup> string" | Missed mount

text \<open>
  \<open>l_env\<close> and \<open>l_pick\<close>: the environment and the iteration order from which the token keys are read.
  \<open>email_allows\<close>: the answers of the e-mail limiter to the request. The last three fields are the
  in-memory limiters, which are only used without a Redis client.
\<close>

record libs =
  otel_mw :: "handler \<Rightarrow> handler"
  real_ip :: "req \<Rightarrow> string option"
  chi_find :: "(string \<times> string) list \<Rightarrow> string \<Rightarrow> string \<Rightarrow> chi_match"
  chi_missed :: handler
  prom_page :: handler
  spec_text :: string
  l_env :: "string \<Rightarrow> string"
  l_pick :: "key_set \<Rightarrow> string"
  email_allows :: "string \<Rightarrow> bool"
  bucket_allow :: "int \<Rightarrow> int list \<Rightarrow> bool \<times> int list"
  all_buckets :: "int list Limiter"
  auth_buckets :: "int list Limiter"

definition verifier_keys :: "libs \<Rightarrow> key_set" where
  "verifier_keys L = k_set (Load (l_pick L) (l_env L))"

definition token_provider :: "libs \<Rightarrow> EnvProvider" where
  "token_provider L = loadFromEnv (l_env L)"

section \<open>Limiters of the server\<close>

definition local_limit :: "sys \<Rightarrow> libs \<Rightarrow> int list Limiter \<Rightarrow> handler \<Rightarrow> handler" where
  "local_limit S L l nxt r w = fst (Limiter_Middleware S (bucket_allow L) nxt r (w, l))"

definition global_limit :: "sys \<Rightarrow> libs \<Rightarrow> Server \<Rightarrow> handler \<Rightarrow> handler" where
  "global_limit S L s =
     (if s_rdb s \<noteq> None
      then redis_limit S (NewRedisLimiter (c_rate_burst (s_cfg s)) (60 * second) IPKey (c_rate_allow (s_cfg s)))
      else local_limit S L (all_buckets L))"

definition auth_limit :: "sys \<Rightarrow> libs \<Rightarrow> Server \<Rightarrow> handler \<Rightarrow> handler" where
  "auth_limit S L s =
     (if s_rdb s \<noteq> None
      then redis_limit S (NewRedisLimiter (c_rate_auth_burst (s_cfg s)) (60 * second)
        (\<lambda>r. ''auth:'' @ IPKey r) (c_rate_allow (s_cfg s)))
      else local_limit S L (auth_buckets L))"

section \<open>Routes\<close>

text \<open>The router or group in which a route is declared, and the middleware that this puts around it.\<close>

datatype scope = RootScope | MetricsScope | AuthScope | AdminScope | NotesScope

definition authenticated :: "sys \<Rightarrow> libs \<Rightarrow> Server \<Rightarrow> string \<Rightarrow> handler \<Rightarrow> handler" where
  "authenticated S L s role h =
     AuthWith S (verifier_keys L) (c_issuer (s_cfg s), c_audience (s_cfg s)) (l_pick L)
       (RequireRole S [role] h)"

definition in_scope :: "sys \<Rightarrow> libs \<Rightarrow> Server \<Rightarrow> scope \<Rightarrow> handler \<Rightarrow> handler" where
  "in_scope S L s sc h =
     (case sc of
        RootScope \<Rightarrow> h
      | MetricsScope \<Rightarrow> AllowCIDR (c_metrics_allow (s_cfg s)) h
      | AuthScope \<Rightarrow> auth_limit S L s h
      | AdminScope \<Rightarrow> authenticated S L s ''admin'' h
      | NotesScope \<Rightarrow> authenticated S L s ''user'' h)"

definition admin_ping :: handler where
  "admin_ping r w =
     answer (''{'' @ quoted ''ok'' @ '':true}'') (on_writer (set_hdr ''Content-Type'' ''application/json'') w)"

text \<open>Method (empty: every method), pattern, scope and handler, in the order of the code.\<close>

type_synonym route = "string \<times> string \<times> scope \<times> handler"

definition root_routes :: "sys \<Rightarrow> libs \<Rightarrow> Server \<Rightarrow> route list" where
  "root_routes S L s =
     [(''GET'', ''/healthz'', RootScope, health_live),
      (''GET'', ''/readyz'', RootScope, health_ready S),
      (''GET'', ''/info'', RootScope, health_info),
      ([], ''/metrics'', MetricsScope, prom_page L)] @
     (if c_env (s_cfg s) \<noteq> ''prod''
      then [([], ''/openapi.yaml'', RootScope, openapi_spec (spec_text L)), ([], ''/docs'', RootScope, openapi_ui)]
      else [])"

definition auth_routes :: "sys \<Rightarrow> libs \<Rightarrow> Server \<Rightarrow> route list" where
  "auth_routes S L s =
     [(''POST'', ''/auth/register'', AuthScope, auth_register S (s_cfg s)),
      (''POST'', ''/auth/login'', AuthScope, auth_login S (s_cfg s) (token_provider L) (email_allows L)),
      (''POST'', ''/auth/refresh'', AuthScope, auth_refresh S (s_cfg s) (token_provider L)),
      (''POST'', ''/auth/logout'', AuthScope, auth_logout S (s_cfg s) (token_provider L))]"

definition admin_routes :: "sys \<Rightarrow> libs \<Rightarrow> Server \<Rightarrow> route list" where
  "admin_routes S L s =
     [(''GET'', ''/admin/ping'', AdminScope, admin_ping),
      (''GET'', ''/admin/users'', AdminScope, admin_users_list S),
      (''POST'', ''/admin/users/{id}/roles'', AdminScope, admin_roles_post S),
      (''GET'', ''/admin/audit'', AdminScope, admin_audit_list S),
      (''POST'', ''/admin/jti/revoke'', AdminScope, admin_jti_revoke S (s_cfg s))]"

text \<open>\<open>Notes.Routes\<close> (\<open>internal/handlers/notes.go\<close>), mounted at \<open>/notes\<close>.\<close>

definition notes_routes :: "sys \<Rightarrow> route list" where
  "notes_routes S =
     [(''GET'', ''/notes/'', NotesScope, notes_list S),
      (''POST'', ''/notes/'', NotesScope, notes_create S),
      (''GET'', ''/notes/{id}/'', NotesScope, notes_get S),
      (''PUT'', ''/notes/{id}/'', NotesScope, notes_update S),
      (''DELETE'', ''/notes/{id}/'', NotesScope, notes_delete S)]"

definition routes :: "sys \<Rightarrow> libs \<Rightarrow> Server \<Rightarrow> route list" where
  "routes S L s = root_routes S L s @ auth_routes S L s @ admin_routes S L s @ notes_routes S"

text \<open>The middleware of a sub-router runs for its unknown paths too, that of a group does not.\<close>

definition mount_scope :: "mount \<Rightarrow> scope" where
  "mount_scope m = (case m of AtRoot \<Rightarrow> RootScope | AtAuth \<Rightarrow> AuthScope | AtNotes \<Rightarrow> NotesScope)"

definition target :: "sys \<Rightarrow> libs \<Rightarrow> Server \<Rightarrow> req \<Rightarrow> scope \<times> handler \<times> (string \<rightharpoonup> string)" where
  "target S L s r =
     (case chi_find L (map (\<lambda>(m, pat, _). (m, pat)) (routes S L s)) (rq_method r) (rq_path r) of
        Found i ps \<Rightarrow>
          if i < length (routes S L s)
          then (case routes S L s ! i of (_, _, sc, h) \<Rightarrow> (sc, h, ps))
          else (RootScope, chi_missed L, Map.empty)
      | Missed m \<Rightarrow> (mount_scope m, chi_missed L, Map.empty))"

definition mux :: "sys \<Rightarrow> libs \<Rightarrow> Server \<Rightarrow> handler" where
  "mux S L s r w =
     (case target S L s r of (sc, h, ps) \<Rightarrow> in_scope S L s sc h (r\<lparr>rq_param := ps\<rparr>) w)"

section \<open>The chain\<close>

definition RealIP :: "libs \<Rightarrow> handler \<Rightarrow> handler" where
  "RealIP L nxt r w = nxt (case real_ip L r of None \<Rightarrow> r | Some a \<Rightarrow> r\<lparr>rq_remote := a\<rparr>) w"

definition router :: "sys \<Rightarrow> libs \<Rightarrow> Server \<Rightarrow> handler" where
  "router S L s =
     otel_mw L (RequestID S (RealIP L (SecurityHeaders (CORS S (c_cors (s_cfg s))
       (BodyLimit (c_max_body (s_cfg s)) (RecoverJSON (global_limit S L s
         (Metrics S (Logger S (Audit S (mux S L s)))))))))))"

record http_server =
  hs_addr :: string
  hs_handler :: handler
  hs_read_timeout :: int
  hs_write_timeout :: int

definition HTTPServer :: "sys \<Rightarrow> libs \<Rightarrow> Server \<Rightarrow> http_server" where
  "HTTPServer S L s =
     \<lparr>hs_addr = '':'' @ c_port (s_cfg s), hs_handler = router S L s,
      hs_read_timeout = c_read_timeout (s_cfg s), hs_write_timeout = c_write_timeout (s_cfg s)\<rparr>"

text \<open>
  One request, as \<open>net/http\<close> hands it to the handler of \<open>HTTPServer\<close>: with a fresh response writer
  and an empty context.
\<close>

definition serve :: "sys \<Rightarrow> libs \<Rightarrow> config \<Rightarrow> req \<Rightarrow> world \<Rightarrow> flow \<times> world" where
  "serve S L cfg r w =
     hs_handler (HTTPServer S L (server_New cfg)) (r\<lparr>rq_uid := None, rq_param := Map.empty\<rparr>) (w\<lparr>wr := new_writer\<rparr>)"

text \<open>
  Documented behaviour of the libraries: the tracing wrapper hands the request on; the pages of
  \<open>promhttp\<close> and of \<open>chi\<close> for unknown paths are answers, which touch no table and no header that
  the middleware has set.
\<close>

definition libs_ok :: "sys \<Rightarrow> libs \<Rightarrow> bool" where
  "libs_ok S L \<longleftrightarrow>
     (\<forall>h r w. otel_mw L h r w = h r w) \<and>
     (\<forall>r w. eff S {} w (snd (prom_page L r w)) \<and> fst (prom_page L r w) = Returned) \<and>
     (\<forall>r w. eff S {} w (snd (chi_missed L r w)) \<and> fst (chi_missed L r w) = Returned)"

section \<open>How a request arrives at the limiter\<close>

text \<open>What the middleware above the limiter leaves as it was, and what it has put into the response.\<close>

definition same_but_writer :: "world \<Rightarrow> world \<Rightarrow> bool" where
  "same_but_writer w w1 \<longleftrightarrow> wdb w1 = wdb w \<and> rds w1 = rds w \<and> clock w1 = clock w \<and> logs w1 = logs w \<and>
     observed w1 = observed w"

definition fresh_response :: "string \<Rightarrow> world \<Rightarrow> bool" where
  "fresh_response rid w \<longleftrightarrow> w_sent (wr w) = None \<and> w_body (wr w) = [] \<and> w_taps (wr w) = [] \<and>
     w_hdr (wr w) ''X-Request-ID'' = Some rid \<and> (\<forall>(k, v)\<in>set security_headers. w_hdr (wr w) k = Some v)"

definition same_request :: "req \<Rightarrow> req \<Rightarrow> bool" where
  "same_request r r1 \<longleftrightarrow> rq_method r1 = rq_method r \<and> rq_path r1 = rq_path r \<and>
     (\<forall>k. k \<noteq> ''X-Request-ID'' \<longrightarrow> header r1 k = header r k) \<and> rq_query r1 = rq_query r \<and> rq_uid r1 = None"

definition rest_of_chain :: "sys \<Rightarrow> libs \<Rightarrow> Server \<Rightarrow> handler" where
  "rest_of_chain S L s =
     RecoverJSON (global_limit S L s (Metrics S (Logger S (Audit S (mux S L s)))))"

lemma CORS_then:
  "\<exists>f. (\<forall>nxt. CORS S allow nxt r w =
       (if rq_method r = ''OPTIONS'' then (Returned, on_writer (write_header 204) (on_writer f w)) else nxt r (on_writer f w))) \<and>
     w_sent (f (wr w)) = w_sent (wr w) \<and> w_body (f (wr w)) = w_body (wr w) \<and> w_taps (f (wr w)) = w_taps (wr w) \<and>
     (\<forall>k. k \<notin> {''Access-Control-Allow-Origin'', ''Vary'', ''Access-Control-Allow-Methods'', ''Access-Control-Allow-Headers''} \<longrightarrow>
       w_hdr (f (wr w)) k = w_hdr (wr w) k)"
proof -
  let ?both = "set_hdr ''Access-Control-Allow-Methods'' ''GET,POST,PUT,DELETE,OPTIONS'' \<circ>
             set_hdr ''Access-Control-Allow-Headers'' ''Authorization, Content-Type, X-Request-ID''"
  let ?one = "if allow = [''*''] then set_hdr ''Access-Control-Allow-Origin'' ''*''
    else if header r ''Origin'' \<noteq> [] \<and> contains_origin S allow (header r ''Origin'')
    then set_hdr ''Vary'' ''Origin'' \<circ> set_hdr ''Access-Control-Allow-Origin'' (header r ''Origin'')
    else (\<lambda>x. x)"
  show ?thesis
    by (rule exI [of _ "?both \<circ> ?one"]) (auto simp: CORS_def Let_def on_writer_def)
qed

definition request_id :: "sys \<Rightarrow> req \<Rightarrow> world \<Rightarrow> string" where
  "request_id S r w =
     (if header r ''X-Request-ID'' = [] then hex_encode (rand S (drawn w) 16) else header r ''X-Request-ID'')"

text \<open>The peer's address after \<open>RealIP\<close>.\<close>

definition peer_of :: "sys \<Rightarrow> libs \<Rightarrow> req \<Rightarrow> world \<Rightarrow> string" where
  "peer_of S L r w =
     (case real_ip L (r\<lparr>rq_uid := None, rq_param := Map.empty,
        rq_headers := (rq_headers r)(''X-Request-ID'' \<mapsto> request_id S r w)\<rparr>) of
        None \<Rightarrow> rq_remote r | Some a \<Rightarrow> a)"

lemma serve_arrives:
  assumes "libs_ok S L"
  obtains r1 w1 rid where
    "serve S L cfg r w = (if rq_method r = ''OPTIONS'' then (Returned, on_writer (write_header 204) w1)
       else rest_of_chain S L (server_New cfg) r1 w1)"
    "same_request r r1" "header r1 ''X-Request-ID'' = rid" "same_but_writer w w1" "fresh_response rid w1"
    "rid = request_id S r w" "rq_remote r1 = peer_of S L r w"
    "rq_body r1 = rq_body (limit_body (c_max_body cfg) r)" "rq_broken r1 = rq_broken (limit_body (c_max_body cfg) r)"
proof -
  let ?s = "server_New cfg"
  let ?r0 = "r\<lparr>rq_uid := None, rq_param := Map.empty\<rparr>"
  define rid where "rid = request_id S r w"
  define w0 where "w0 = (if header r ''X-Request-ID'' = [] then w\<lparr>wr := new_writer, drawn := Suc (drawn w)\<rparr> else w\<lparr>wr := new_writer\<rparr>)"
  define ra where "ra = ?r0\<lparr>rq_headers := (rq_headers r)(''X-Request-ID'' \<mapsto> rid)\<rparr>"
  define rb where "rb = (case real_ip L ra of None \<Rightarrow> ra | Some a \<Rightarrow> ra\<lparr>rq_remote := a\<rparr>)"
  define wa where "wa = on_writer
       (set_hdr ''Permissions-Policy'' ''geolocation=(), microphone=()'' \<circ>
        set_hdr ''Referrer-Policy'' ''no-referrer'' \<circ>
        set_hdr ''X-Frame-Options'' ''DENY'' \<circ>
        set_hdr ''X-Content-Type-Options'' ''nosniff'') (on_writer (set_hdr ''X-Request-ID'' rid) w0)"
  have otel: "otel_mw L h r w = h r w" for h r w using assms by (simp add: libs_ok_def)
  obtain f where f: "\<And>nxt. CORS S (c_cors cfg) nxt rb wa =
       (if rq_method rb = ''OPTIONS'' then (Returned, on_writer (write_header 204) (on_writer f wa)) else nxt rb (on_writer f wa))"
     "w_sent (f (wr wa)) = w_sent (wr wa)" "w_body (f (wr wa)) = w_body (wr wa)" "w_taps (f (wr wa)) = w_taps (wr wa)"
     "\<And>k. k \<notin> {''Access-Control-Allow-Origin'', ''Vary'', ''Access-Control-Allow-Methods'', ''Access-Control-Allow-Headers''} \<Longrightarrow>
       w_hdr (f (wr wa)) k = w_hdr (wr wa) k"
    using CORS_then [of S "c_cors cfg" rb wa] by auto
  have hdr: "header ?r0 k = header r k" for k by (simp add: header_def)
  have "serve S L cfg r w = CORS S (c_cors cfg) (BodyLimit (c_max_body cfg) (rest_of_chain S L ?s)) rb wa"
    by (auto simp: serve_def HTTPServer_def router_def rest_of_chain_def otel RequestID_def RealIP_def
        SecurityHeaders_def rand_read_def server_New_def hdr rid_def request_id_def w0_def ra_def rb_def wa_def
        cong: option.case_cong)
  moreover have m: "rq_method rb = rq_method r" by (simp add: rb_def ra_def split: option.split)
  ultimately have run: "serve S L cfg r w =
      (if rq_method r = ''OPTIONS'' then (Returned, on_writer (write_header 204) (on_writer f wa))
       else rest_of_chain S L ?s (limit_body (c_max_body cfg) rb) (on_writer f wa))"
    by (simp add: f(1) BodyLimit_def)
  show thesis
  proof (rule that [OF run])
    show "same_request r (limit_body (c_max_body cfg) rb)"
      by (auto simp: same_request_def limit_body_def rb_def ra_def header_def get_or_empty_def split: option.splits)
    show "header (limit_body (c_max_body cfg) rb) ''X-Request-ID'' = rid"
      by (auto simp: limit_body_def rb_def ra_def header_def get_or_empty_def split: option.splits)
    show "same_but_writer w (on_writer f wa)"
      by (simp add: same_but_writer_def wa_def w0_def on_writer_def)
    show "fresh_response rid (on_writer f wa)"
      by (simp add: fresh_response_def f(2-5) security_headers_def) (simp add: wa_def w0_def)
    show "rq_remote (limit_body (c_max_body cfg) rb) = peer_of S L r w"
      by (auto simp: limit_body_def rb_def ra_def rid_def peer_of_def split: option.splits)
    show "rq_body (limit_body (c_max_body cfg) rb) = rq_body (limit_body (c_max_body cfg) r)"
      "rq_broken (limit_body (c_max_body cfg) rb) = rq_broken (limit_body (c_max_body cfg) r)"
      by (auto simp: limit_body_def rb_def ra_def split: option.splits)
  qed (simp add: rid_def)
qed

section \<open>What happens behind the limiter\<close>

definition audit_may :: "string \<Rightarrow> db_op set" where
  "audit_may addr = {AuditOp 0 meth url status addr rid |meth url status rid. True}"

text \<open>What the limiter of all routes counts for the request, this request included.\<close>

definition requests_seen :: "sys \<Rightarrow> req \<Rightarrow> redis \<Rightarrow> int" where
  "requests_seen S r d = fst (incr_expire S (''rl:'' @ IPKey r) (60 * second) d)"

text \<open>The world in which the routes see a request that arrived in \<open>w\<close>.\<close>

definition reaches_routes :: "world \<Rightarrow> world \<Rightarrow> bool" where
  "reaches_routes w w2 \<longleftrightarrow> wdb w2 = wdb w \<and> clock w2 = clock w + 2 \<and> w_sent (wr w2) = w_sent (wr w) \<and>
     w_hdr (wr w2) = w_hdr (wr w) \<and> w_body (wr w2) = w_body (wr w)"

definition audit_row_of :: "req \<Rightarrow> int \<Rightarrow> db_op" where
  "audit_row_of r status =
     AuditOp (user_or_zero r) (rq_method r) (rq_path r) status (split_host (rq_remote r)) (header r ''X-Request-ID'')"

lemma keeps_taps: "keeps_headers x (tap (tap (tap x)))" "keeps_headers x (untap (untap (untap x)))"
  by (simp_all add: keeps_headers_def carries_def)

lemma chain_cases:
  assumes "w_sent (wr w) = None"
  obtains (limited) w' where "rest_of_chain S L (server_New cfg) r w = (Returned, w')" "wdb w' = wdb w"
      "status_of (wr w') = 429" "keeps_headers (wr w) (wr w')" "requests_seen S r (rds w) > c_rate_burst cfg"
  | (routed) w2 w3 w' fl where "reaches_routes w w2" "mux S L (server_New cfg) r w2 = (fl, w3)"
      "rest_of_chain S L (server_New cfg) r w = (Returned, w')"
      "keeps_headers (wr w) (wr w2)" "keeps_headers (wr w3) (wr w')"
      "fl = Returned \<Longrightarrow> wdb w' = db_step S (audit_row_of r (tapped (wr w3))) (wdb w3) \<and> w_sent (wr w') = w_sent (wr w3) \<and>
         w_body (wr w') = w_body (wr w3) \<and> w_hdr (wr w') = w_hdr (wr w3)"
      "fl = Panicked \<Longrightarrow> wdb w' = wdb w3"
proof -
  let ?s = "server_New cfg"
  let ?l = "NewRedisLimiter (c_rate_burst cfg) (60 * second) IPKey (c_rate_allow cfg)"
  let ?in = "Metrics S (Logger S (Audit S (mux S L ?s)))"
  have chain: "rest_of_chain S L ?s r w = RecoverJSON (redis_limit S ?l ?in) r w"
    by (simp add: rest_of_chain_def global_limit_def server_New_def)
  have "(\<exists>d. requests_seen S r (rds w) > c_rate_burst cfg \<and>
        redis_limit S ?l ?in r w = (Returned, on_writer (\<lambda>x. http_error ''rate_limited'' 429 (set_hdr ''Retry-After'' ''1'' x)) (w\<lparr>rds := d\<rparr>))) \<or>
      (\<exists>d. redis_limit S ?l ?in r w = ?in r (w\<lparr>rds := d\<rparr>))"
  proof (cases "net_allows ?l r")
    case True
    then have "redis_limit S ?l ?in r w = ?in r (w\<lparr>rds := rds w\<rparr>)" by (simp add: redis_limit_def)
    then show ?thesis by blast
  next
    case False
    then show ?thesis
      by (auto simp: redis_limit_def on_redis_def requests_seen_def NewRedisLimiter_def split: prod.split)
  qed
  then show thesis
  proof (elim disjE exE conjE)
    fix d
    let ?w' = "on_writer (\<lambda>x. http_error ''rate_limited'' 429 (set_hdr ''Retry-After'' ''1'' x)) (w\<lparr>rds := d\<rparr>)"
    assume seen: "requests_seen S r (rds w) > c_rate_burst cfg" and l: "redis_limit S ?l ?in r w = (Returned, ?w')"
    show thesis
    proof (rule limited)
      show "rest_of_chain S L ?s r w = (Returned, ?w')" by (simp add: chain RecoverJSON_def l)
      show "status_of (wr ?w') = 429" using assms by simp
      show "keeps_headers (wr w) (wr ?w')" by (simp add: keeps_headers_trans [OF keeps_set_hdr keeps_error])
    qed (simp_all add: seen)
  next
    fix d
    assume l: "redis_limit S ?l ?in r w = ?in r (w\<lparr>rds := d\<rparr>)"
    let ?w2 = "w\<lparr>rds := d, clock := clock w + 2, wr := tap (tap (tap (wr w)))\<rparr>"
    obtain fl w3 where m: "mux S L ?s r ?w2 = (fl, w3)" by (metis surj_pair)
    have reach: "reaches_routes w ?w2" by (simp add: reaches_routes_def)
    have k2: "keeps_headers (wr w) (wr ?w2)"
      by (simp add: keeps_taps)
    have audit: "Audit S (mux S L ?s) r (w\<lparr>rds := d, clock := clock w + 2, wr := tap (tap (wr w))\<rparr>) =
        (if fl = Returned then (Returned, (on_writer untap w3)\<lparr>wdb := db_step S (audit_row_of r (tapped (wr w3))) (wdb w3)\<rparr>)
         else (Panicked, on_writer untap w3))"
      using m by (cases fl) (simp_all add: Audit_def with_tap_def on_writer_def on_db_eq audit_row_of_def)
    show thesis
    proof (cases fl)
      case Returned
      let ?w' = "(on_writer (untap \<circ> untap \<circ> untap) w3)\<lparr>wdb := db_step S (audit_row_of r (tapped (wr w3))) (wdb w3)\<rparr>"
      have "\<exists>w'. ?in r (w\<lparr>rds := d\<rparr>) = (Returned, w') \<and> wdb w' = wdb ?w' \<and> wr w' = wr ?w'"
        using audit Returned
        by (auto simp: Metrics_def Logger_def with_tap_def time_now_def on_writer_def numeral_2_eq_2)
      then obtain w' where w': "?in r (w\<lparr>rds := d\<rparr>) = (Returned, w')" "wdb w' = wdb ?w'" "wr w' = wr ?w'" by blast
      show thesis
      proof (rule routed [OF reach m _ k2])
        show "rest_of_chain S L ?s r w = (Returned, w')" by (simp add: chain RecoverJSON_def l w'(1))
        show "keeps_headers (wr w3) (wr w')"
          by (simp add: w'(3) keeps_taps)
      qed (use w' Returned in simp_all)
    next
      case Panicked
      have "\<exists>w4. ?in r (w\<lparr>rds := d\<rparr>) = (Panicked, w4) \<and> wdb w4 = wdb w3 \<and> wr w4 = untap (untap (untap (wr w3)))"
        using audit Panicked
        by (auto simp: Metrics_def Logger_def with_tap_def time_now_def on_writer_def numeral_2_eq_2)
      then obtain w4 where w4: "?in r (w\<lparr>rds := d\<rparr>) = (Panicked, w4)" "wdb w4 = wdb w3"
        "wr w4 = untap (untap (untap (wr w3)))" by blast
      let ?w' = "write_error r panic_error (w4\<lparr>logs := logs w4 @ [LogPanic]\<rparr>)"
      have "eff S {} (w4\<lparr>logs := logs w4 @ [LogPanic]\<rparr>) ?w'" by (rule eff_write_error [OF eff_refl])
      from eff_keeps [OF this] have "keeps_headers (wr w4) (wr ?w')" by simp
      moreover have "keeps_headers (wr w3) (wr w4)"
        by (simp add: w4(3) keeps_taps)
      ultimately have k: "keeps_headers (wr w3) (wr ?w')" by (rule keeps_headers_trans [rotated])
      show thesis
      proof (rule routed [OF reach m _ k2 k])
        show "rest_of_chain S L ?s r w = (Returned, ?w')" by (simp add: chain RecoverJSON_def l w4(1))
      qed (use w4 Panicked in simp_all)
    qed
  qed
qed

end
