(* ===== verification/Server_Effects.thy ===== *)
theory Server_Effects
  imports Server
begin

text \<open>
  What a request to the server may do: as whom it acts, which operations on the database each
  scope of the routes permits to it, and that the whole chain keeps to that.
\<close>

section \<open>Who a request acts as, and what it may do\<close>

definition acts_as :: "sys \<Rightarrow> libs \<Rightarrow> config \<Rightarrow> req \<Rightarrow> nat \<Rightarrow> int option" where
  "acts_as S L cfg r c =
     (let h = header r ''Authorization''
      in if has_prefix h ''Bearer ''
         then token_user S (verifier_keys L) (c_issuer cfg, c_audience cfg) (l_pick L) (trim_prefix h ''Bearer '') c
         else None)"

definition holds_scope :: "sys \<Rightarrow> libs \<Rightarrow> config \<Rightarrow> string \<Rightarrow> req \<Rightarrow> nat \<Rightarrow> db \<Rightarrow> int option" where
  "holds_scope S L cfg role r c d =
     (case acts_as S L cfg r c of
        None \<Rightarrow> None
      | Some u \<Rightarrow> if role_granted S u [role] d then Some u else None)"

text \<open>The operations on the database that a request in a scope may cause.\<close>

definition permitted :: "sys \<Rightarrow> libs \<Rightarrow> config \<Rightarrow> scope \<Rightarrow> req \<Rightarrow> nat \<Rightarrow> db \<Rightarrow> db_op set" where
  "permitted S L cfg sc r c d = range Reads \<union>
     (case sc of
        RootScope \<Rightarrow> {}
      | MetricsScope \<Rightarrow> {}
      | AuthScope \<Rightarrow> auth_may
      | AdminScope \<Rightarrow> (if holds_scope S L cfg ''admin'' r c d = None then {} else admin_may)
      | NotesScope \<Rightarrow> (case holds_scope S L cfg ''user'' r c d of None \<Rightarrow> {} | Some u \<Rightarrow> notes_may u))"

lemma acts_as_None: 
  assumes "acts_as S L cfg r (clock w) = None"
  shows "eff S {} w (snd (AuthWith S (verifier_keys L) (c_issuer cfg, c_audience cfg) (l_pick L) nxt r w))"
    and "w_sent (wr w) = None \<Longrightarrow>
      status_of (wr (snd (AuthWith S (verifier_keys L) (c_issuer cfg, c_audience cfg) (l_pick L) nxt r w))) = 401"
    and "fst (AuthWith S (verifier_keys L) (c_issuer cfg, c_audience cfg) (l_pick L) nxt r w) = Returned"
proof -
  let ?A = "AuthWith S (verifier_keys L) (c_issuer cfg, c_audience cfg) (l_pick L) nxt r w"
  have "(\<exists>msg n. ?A = (Returned, on_writer (http_error msg 401) (w\<lparr>clock := n\<rparr>)))"
  proof (cases "has_prefix (header r ''Authorization'') ''Bearer ''")
    case False
    then have "?A = (Returned, on_writer (http_error ''unauthorized'' 401) (w\<lparr>clock := clock w\<rparr>))"
      by (simp add: AuthWith_def)
    then show ?thesis by blast
  next
    case True
    with assms have "token_user S (verifier_keys L) (c_issuer cfg, c_audience cfg) (l_pick L)
        (trim_prefix (header r ''Authorization'') ''Bearer '') (clock w) = None"
      by (simp add: acts_as_def Let_def)
    with True show ?thesis
      by (auto simp: AuthWith_def token_user_def jwt_Parse_def time_now_def Let_def
          split: option.splits prod.splits if_splits)
  qed
  then obtain msg n where A: "?A = (Returned, on_writer (http_error msg 401) (w\<lparr>clock := n\<rparr>))" by blast
  have "eff S {} w (w\<lparr>clock := n\<rparr>)" by (rule eff_other [OF eff_refl]) simp_all
  then show "eff S {} w (snd ?A)" by (simp add: A eff_error)
  show "w_sent (wr w) = None \<Longrightarrow> status_of (wr (snd ?A)) = 401" "fst ?A = Returned" by (simp_all add: A)
qed

lemma acts_as_Some:
  assumes "acts_as S L cfg r (clock w) = Some u"
  shows "AuthWith S (verifier_keys L) (c_issuer cfg, c_audience cfg) (l_pick L) nxt r w =
    nxt (r\<lparr>rq_uid := Some u\<rparr>) (w\<lparr>clock := clock w + 2\<rparr>)"
proof -
  have pre: "has_prefix (header r ''Authorization'') ''Bearer ''"
    and tok: "token_user S (verifier_keys L) (c_issuer cfg, c_audience cfg) (l_pick L)
        (trim_prefix (header r ''Authorization'') ''Bearer '') (clock w) = Some u"
    using assms by (auto simp: acts_as_def Let_def split: if_splits)
  from bearer_cases [OF pre] obtain t where t: "header r ''Authorization'' = bearer t" by blast
  with tok show ?thesis by (intro AuthWith_accepts) simp_all
qed

text \<open>The two gates in a row; the check of one role is one call of the database.\<close>

lemma RequireRole_one:
  assumes "rq_uid r = Some uid"
  shows "RequireRole S [role] nxt r w =
    (if role_granted S uid [role] (wdb w) then nxt r (w\<lparr>wdb := (wdb w)\<lparr>tick := Suc (tick (wdb w))\<rparr>\<rparr>)
     else (Returned, on_writer (http_error ''forbidden'' 403) (w\<lparr>wdb := (wdb w)\<lparr>tick := Suc (tick (wdb w))\<rparr>\<rparr>)))"
  using assms by (simp add: RequireRole_def on_db_def Roles_Has_iff role_granted_def)

lemma authenticated_cases:
  obtains (refused) "holds_scope S L cfg role r (clock w) (wdb w) = None"
      "eff S (range Reads) w (snd (authenticated S L (server_New cfg) role h r w))"
      "w_sent (wr w) = None \<Longrightarrow> status_of (wr (snd (authenticated S L (server_New cfg) role h r w))) \<in> {401, 403}"
      "fst (authenticated S L (server_New cfg) role h r w) = Returned"
  | (granted) u k where "holds_scope S L cfg role r (clock w) (wdb w) = Some u"
      "authenticated S L (server_New cfg) role h r w =
        h (r\<lparr>rq_uid := Some u\<rparr>) (w\<lparr>clock := clock w + 2, wdb := (wdb w)\<lparr>tick := k\<rparr>\<rparr>)"
      "eff S (range Reads) w (w\<lparr>clock := clock w + 2, wdb := (wdb w)\<lparr>tick := k\<rparr>\<rparr>)"
      "k = Suc (tick (wdb w))"
proof (cases "acts_as S L cfg r (clock w)")
  case None
  show thesis
    by (rule refused) (use acts_as_None [OF None] in \<open>auto simp: holds_scope_def None authenticated_def server_New_def
      intro: eff_mono\<close>)
next
  case (Some u)
  let ?r = "r\<lparr>rq_uid := Some u\<rparr>" and ?w = "w\<lparr>clock := clock w + 2\<rparr>"
  have run: "authenticated S L (server_New cfg) role h r w = RequireRole S [role] h ?r ?w"
    by (simp add: authenticated_def server_New_def acts_as_Some [OF Some])
  define k where "k = Suc (tick (wdb w))"
  have k: "RequireRole S [role] h ?r ?w =
    (if role_granted S u [role] (wdb ?w) then h ?r (?w\<lparr>wdb := (wdb ?w)\<lparr>tick := k\<rparr>\<rparr>)
     else (Returned, on_writer (http_error ''forbidden'' 403) (?w\<lparr>wdb := (wdb ?w)\<lparr>tick := k\<rparr>\<rparr>)))"
    using RequireRole_one [of ?r u S role h ?w] by (simp add: k_def)
  have "eff S (range Reads) w ?w" by (rule eff_other [OF eff_refl]) simp_all
  from eff_db [OF this rangeI, of k]
  have e: "eff S (range Reads) w (w\<lparr>clock := clock w + 2, wdb := (wdb w)\<lparr>tick := k\<rparr>\<rparr>)" by simp
  show thesis
  proof (cases "role_granted S u [role] (wdb w)")
    case True
    show thesis
    proof (rule granted [OF _ _ e])
      show "authenticated S L (server_New cfg) role h r w =
          h ?r (w\<lparr>clock := clock w + 2, wdb := (wdb w)\<lparr>tick := k\<rparr>\<rparr>)"
        unfolding run using k True by simp
    qed (simp_all add: holds_scope_def Some True k_def)
  next
    case False
    have out: "authenticated S L (server_New cfg) role h r w =
        (Returned, on_writer (http_error ''forbidden'' 403) (w\<lparr>clock := clock w + 2, wdb := (wdb w)\<lparr>tick := k\<rparr>\<rparr>))"
      unfolding run using k False by simp
    show thesis
    proof (rule refused)
      show "holds_scope S L cfg role r (clock w) (wdb w) = None" by (simp add: holds_scope_def Some False)
      show "eff S (range Reads) w (snd (authenticated S L (server_New cfg) role h r w))"
        unfolding out snd_conv by (rule eff_error [OF e])
    qed (simp_all add: out)
  qed
qed

lemma eff_limited:
  assumes "\<And>d. eff S may w (snd (nxt r (w\<lparr>rds := d\<rparr>)))"
  shows "eff S may w (snd (redis_limit S l nxt r w))"
proof -
  have "eff S may w (w\<lparr>rds := d\<rparr>)" for d by (rule eff_other [OF eff_refl]) simp_all
  then have "eff S may w (on_writer (\<lambda>x. http_error ''rate_limited'' 429 (set_hdr ''Retry-After'' ''1'' x)) (w\<lparr>rds := d\<rparr>))" for d
    by (rule eff_on_writer) (simp add: keeps_headers_trans [OF keeps_set_hdr keeps_error])
  then show ?thesis
    using assms assms [of "rds w"] by (auto simp: redis_limit_def on_redis_def split: prod.split)
qed

definition scope_may :: "scope \<Rightarrow> int \<Rightarrow> db_op set" where
  "scope_may sc u = (case sc of RootScope \<Rightarrow> range Reads | MetricsScope \<Rightarrow> {} | AuthScope \<Rightarrow> auth_may
     | AdminScope \<Rightarrow> admin_may | NotesScope \<Rightarrow> notes_may u)"

lemma eff_routes:
  assumes "libs_ok S L" and "(m, pat, sc, h) \<in> set (routes S L s)"
  shows "eff S (scope_may sc (user_of r)) w (snd (h r w))"
proof -
  have prom: "eff S {} w (snd (prom_page L r w))" for r w using assms(1) by (simp add: libs_ok_def)
  have ping: "eff S may w (snd (admin_ping r w))" for may r w
    unfolding admin_ping_def by (intro eff_answers eff_on_writer eff_refl) simp
  have ready: "eff S (range Reads) w (snd (health_ready S r w))" for r w
    unfolding health_ready_def
    by (rule eff_calls eff_cases eff_answers eff_refl | assumption | (simp add: may_reading readings; fail))+
  note small = eff_small [OF eff_refl] eff_auth_register [OF eff_refl] eff_auth_login [OF eff_refl]
    eff_auth_refresh [OF eff_refl] eff_auth_logout [OF eff_refl] eff_admin [OF eff_refl]
    eff_notes_read [OF eff_refl] eff_notes_create [OF eff_refl] eff_notes_write [OF eff_refl]
  show ?thesis
    using assms(2)
    by (auto simp: routes_def root_routes_def auth_routes_def admin_routes_def notes_routes_def scope_may_def
        prom ping ready small split: if_splits)
qed


lemma user_of_uid [simp]: "user_of (r\<lparr>rq_uid := Some u\<rparr>) = u"
  by (simp add: user_of_def)

lemma eff_in_scope:
  assumes h: "\<And>r w. eff S (scope_may sc (user_of r)) w (snd (h r w))"
  shows "eff S (permitted S L cfg sc r (clock w) (wdb w)) w (snd (in_scope S L (server_New cfg) sc h r w))"
proof (cases sc)
  case RootScope
  with h [of r w] show ?thesis by (simp add: in_scope_def permitted_def scope_may_def)
next
  case MetricsScope
  have "eff S {} w (snd (AllowCIDR (c_metrics_allow cfg) h r w))"
    using h [of r w] MetricsScope
    by (auto simp: AllowCIDR_def scope_may_def intro: eff_error eff_refl split: option.split)
  with MetricsScope show ?thesis
    by (auto simp: in_scope_def permitted_def server_New_def intro: eff_mono)
next
  case AuthScope
  have "eff S auth_may w (snd (redis_limit S l h r w))" for l
  proof (rule eff_limited)
    fix d
    have "eff S auth_may w (w\<lparr>rds := d\<rparr>)" by (rule eff_other [OF eff_refl]) simp_all
    moreover have "eff S auth_may (w\<lparr>rds := d\<rparr>) (snd (h r (w\<lparr>rds := d\<rparr>)))"
      using h [of r "w\<lparr>rds := d\<rparr>"] AuthScope by (simp add: scope_may_def)
    ultimately show "eff S auth_may w (snd (h r (w\<lparr>rds := d\<rparr>)))" by (rule eff_trans [rotated])
  qed
  with AuthScope show ?thesis
    by (auto simp: in_scope_def permitted_def auth_limit_def server_New_def intro: eff_mono)
next
  case AdminScope
  show ?thesis
  proof (cases rule: authenticated_cases [of S L cfg "''admin''" r w h])
    case refused
    with AdminScope show ?thesis by (simp add: in_scope_def permitted_def)
  next
    case (granted u k)
    let ?w = "w\<lparr>clock := clock w + 2, wdb := (wdb w)\<lparr>tick := k\<rparr>\<rparr>"
    have "eff S admin_may ?w (snd (h (r\<lparr>rq_uid := Some u\<rparr>) ?w))"
      using h [of "r\<lparr>rq_uid := Some u\<rparr>" ?w] AdminScope by (simp only: scope_may_def scope.case)
    from eff_trans [OF eff_mono [OF this] eff_mono [OF granted(3)], of "range Reads \<union> admin_may"]
    show ?thesis using AdminScope granted(1,2) by (simp add: in_scope_def permitted_def)
  qed
next
  case NotesScope
  show ?thesis
  proof (cases rule: authenticated_cases [of S L cfg "''user''" r w h])
    case refused
    with NotesScope show ?thesis by (simp add: in_scope_def permitted_def)
  next
    case (granted u k)
    let ?w = "w\<lparr>clock := clock w + 2, wdb := (wdb w)\<lparr>tick := k\<rparr>\<rparr>"
    have "eff S (notes_may u) ?w (snd (h (r\<lparr>rq_uid := Some u\<rparr>) ?w))"
      using h [of "r\<lparr>rq_uid := Some u\<rparr>" ?w] NotesScope by (simp only: scope_may_def scope.case user_of_uid)
    from eff_trans [OF eff_mono [OF this] eff_mono [OF granted(3)], of "range Reads \<union> notes_may u"]
    show ?thesis using NotesScope granted(1,2) by (simp add: in_scope_def permitted_def)
  qed
qed

lemma permitted_cong:
  "header r1 ''Authorization'' = header r ''Authorization'' \<Longrightarrow>
   permitted S L cfg sc r1 c d = permitted S L cfg sc r c d"
proof -
  assume "header r1 ''Authorization'' = header r ''Authorization''"
  then have "holds_scope S L cfg role r1 c d = holds_scope S L cfg role r c d" for role
    by (simp add: holds_scope_def acts_as_def)
  then show ?thesis by (simp add: permitted_def cong: scope.case_cong)
qed

lemma target_cong:
  "rq_method r1 = rq_method r \<Longrightarrow> rq_path r1 = rq_path r \<Longrightarrow> target S L s r1 = target S L s r"
  by (simp add: target_def)

lemma eff_mux:
  assumes "libs_ok S L" and "target S L (server_New cfg) r = (sc, h, ps)"
  shows "eff S (permitted S L cfg sc r (clock w) (wdb w)) w (snd (mux S L (server_New cfg) r w))"
proof -
  have missed: "eff S may w (snd (chi_missed L r w))" for may r w
    using assms(1) eff_mono [of S "{}"] by (auto simp: libs_ok_def)
  have "eff S (scope_may sc (user_of r)) w (snd (h r w))" for r w
    using assms(2) eff_routes [OF assms(1)] missed
    by (auto simp: target_def split: chi_match.splits if_splits prod.splits dest: nth_mem)
  from eff_in_scope [OF this, where r = "r\<lparr>rq_param := ps\<rparr>" and w = w and L = L and cfg = cfg]
  show ?thesis
    using assms(2) permitted_cong [of "r\<lparr>rq_param := ps\<rparr>" r] by (simp add: mux_def header_def)
qed


text \<open>The scope in which a request ends, as the table of routes says.\<close>

definition scope_of :: "sys \<Rightarrow> libs \<Rightarrow> config \<Rightarrow> req \<Rightarrow> scope" where
  "scope_of S L cfg r = fst (target S L (server_New cfg) r)"

text \<open>
  A served request: it is answered, the headers stay, and it changes the tables only by the
  operations that are permitted to it and by one audit row.
\<close>

lemma serve_eff:
  assumes "libs_ok S L"
  obtains w1 w' rid where "serve S L cfg r w = (Returned, w')" "wdb w1 = wdb w" "fresh_response rid w1"
    "rid = request_id S r w"
    "keeps_headers (wr w1) (wr w')"
    "\<And>P. (\<And>p d. p \<in> permitted S L cfg (scope_of S L cfg r) r (clock w + 2) (wdb w) \<union> audit_may (split_host (peer_of S L r w)) \<Longrightarrow>
        P (tabs d) \<Longrightarrow> P (tabs (db_step S p d))) \<Longrightarrow> P (tabs (wdb w)) \<Longrightarrow> P (tabs (wdb w'))"
proof -
  let ?may = "permitted S L cfg (scope_of S L cfg r) r (clock w + 2) (wdb w)"
  obtain r1 w1 rid where a: "serve S L cfg r w = (if rq_method r = ''OPTIONS'' then (Returned, on_writer (write_header 204) w1)
       else rest_of_chain S L (server_New cfg) r1 w1)"
    "same_request r r1" "same_but_writer w w1" "fresh_response rid w1"
    "rid = request_id S r w" "rq_remote r1 = peer_of S L r w"
    by (rule serve_arrives [OF assms])
  have w1: "wdb w1 = wdb w" "clock w1 = clock w" "w_sent (wr w1) = None"
    using a(3,4) by (simp_all add: same_but_writer_def fresh_response_def)
  have r1: "rq_method r1 = rq_method r" "rq_path r1 = rq_path r" "rq_uid r1 = None"
    "header r1 ''Authorization'' = header r ''Authorization''"
    using a(2) by (simp_all add: same_request_def)
  show thesis
  proof (cases "rq_method r = ''OPTIONS''")
    case True
    show thesis by (rule that [of "on_writer (write_header 204) w1" w1 rid]) (use True a w1 in \<open>simp_all add: keeps_write\<close>)
  next
    case False
    with a(1) have run: "serve S L cfg r w = rest_of_chain S L (server_New cfg) r1 w1" by simp
    show thesis
    proof (cases rule: chain_cases [OF w1(3), of S L cfg r1, case_names limited routed])
      case (limited w')
      show thesis by (rule that [of w' w1 rid]) (use limited a w1 run in simp_all)
    next
      case (routed w2 w3 w' fl)
      obtain sc h ps where tg: "target S L (server_New cfg) r1 = (sc, h, ps)" by (metis prod_cases3)
      have sc: "scope_of S L cfg r = sc" using target_cong [OF r1(1,2)] tg by (simp add: scope_of_def)
      have w2: "clock w2 = clock w + 2" "wdb w2 = wdb w" using routed(1) w1 by (simp_all add: reaches_routes_def)
      have eff: "eff S ?may w2 w3"
        using eff_mux [OF assms tg, of w2] routed(2) sc w2 permitted_cong [OF r1(4)] by simp
      from eff_keeps [OF this] routed(4,5) have keeps: "keeps_headers (wr w1) (wr w')"
        by (meson keeps_headers_trans)
      have post: "wdb w' = wdb w3 \<or> (\<exists>p\<in>audit_may (split_host (peer_of S L r w)). wdb w' = db_step S p (wdb w3))"
      proof (cases fl)
        case Returned
        have "audit_row_of r1 (tapped (wr w3)) \<in> audit_may (split_host (peer_of S L r w))"
          using r1(3) a(6) by (auto simp: audit_row_of_def audit_may_def user_or_zero_def)
        with routed(6) [OF Returned] show ?thesis by blast
      qed (use routed(7) in simp)
      show thesis
      proof (rule that [of w' w1 rid])
        fix P :: "tables \<Rightarrow> bool"
        assume step: "\<And>p d. p \<in> ?may \<union> audit_may (split_host (peer_of S L r w)) \<Longrightarrow> P (tabs d) \<Longrightarrow> P (tabs (db_step S p d))"
          and "P (tabs (wdb w))"
        then have "P (tabs (wdb w3))" by (intro eff_preserves [OF eff, of P]) (auto simp: w2)
        with post step show "P (tabs (wdb w'))" by auto
      qed (use run routed(3) w1 a keeps in simp_all)
    qed
  qed
qed

end
