(* ===== verification/Server_Http.thy ===== *)
theory Server_Http
  imports Server_Effects
begin

text \<open>
  What the server as a whole guarantees: which requests reach what, whose notes and roles they can
  change, the invariant of the tables over histories of requests, and the headers of every
  response.
\<close>

section \<open>What the operations leave alone\<close>

lemma other_frames:
  "\<exists>x. tabs (snd (Users_Create e email pass d)) = (tabs d)\<lparr>user_rows := x\<rparr>"
  "\<exists>x. tabs (snd (exec e (ins_audit e uid meth url status ip rid) d)) = (tabs d)\<lparr>audit_rows := x\<rparr>"
  by (auto simp: Users_Create_unfold exec_def ins_audit_def Let_def
      intro: exI [of _ "user_rows (tabs d)"] exI [of _ "audit_rows (tabs d)"] split: outcome.splits)

lemma db_step_tabs:
  "case p of
     NoteOp q \<Rightarrow> \<exists>x. tabs (db_step S p d) = (tabs d)\<lparr>note_rows := x\<rparr>
   | TokOp q \<Rightarrow> \<exists>x. tabs (db_step S p d) = (tabs d)\<lparr>token_rows := x\<rparr>
   | IdemOp q \<Rightarrow> \<exists>x. tabs (db_step S p d) = (tabs d)\<lparr>idem_rows := x\<rparr>
   | RoleOp q \<Rightarrow> \<exists>x. tabs (db_step S p d) = (tabs d)\<lparr>user_role_rows := x\<rparr>
   | UserOp a b \<Rightarrow> \<exists>x. tabs (db_step S p d) = (tabs d)\<lparr>user_rows := x\<rparr>
   | AuditOp u a b c f g \<Rightarrow> \<exists>x. tabs (db_step S p d) = (tabs d)\<lparr>audit_rows := x\<rparr>
   | Reads n \<Rightarrow> tabs (db_step S p d) = tabs d"
  by (cases p) (simp_all add: note_step_frame tok_step_frame idem_step_frame role_step_frame other_frames)

lemma db_step_frame [frame]:
  "(\<forall>q. p \<noteq> NoteOp q) \<Longrightarrow> note_rows (tabs (db_step S p d)) = note_rows (tabs d)"
  "(\<forall>q. p \<noteq> TokOp q) \<Longrightarrow> token_rows (tabs (db_step S p d)) = token_rows (tabs d)"
  "(\<forall>q. p \<noteq> IdemOp q) \<Longrightarrow> idem_rows (tabs (db_step S p d)) = idem_rows (tabs d)"
  "(\<forall>q. p \<noteq> RoleOp q) \<Longrightarrow> user_role_rows (tabs (db_step S p d)) = user_role_rows (tabs d)"
  "(\<forall>a b. p \<noteq> UserOp a b) \<Longrightarrow> user_rows (tabs (db_step S p d)) = user_rows (tabs d)"
  "(\<forall>u a b c f g. p \<noteq> AuditOp u a b c f g) \<Longrightarrow> audit_rows (tabs (db_step S p d)) = audit_rows (tabs d)"
  "role_rows (tabs (db_step S p d)) = role_rows (tabs d)"
  using db_step_tabs [where p = p and S = S and d = d] by (auto split: db_op.splits simp del: db_step.simps)

lemma reads_and_audit:
  "p \<in> range Reads \<union> audit_may addr \<Longrightarrow> (tabs (db_step S p d))\<lparr>audit_rows := x\<rparr> = (tabs d)\<lparr>audit_rows := x\<rparr>"
  using db_step_tabs [where p = p and S = S and d = d] by (auto simp: audit_may_def simp del: db_step.simps)

section \<open>The invariant of the tables\<close>

definition idem_keyed :: "idem_schema \<Rightarrow> env \<Rightarrow> tables \<Rightarrow> bool" where
  "idem_keyed sc e t \<longleftrightarrow>
     keyed (\<lambda>r. (weight e (ik_key r), if sc = PerUserKey then ik_user r else 0)) (idem_rows t)"

lemma idem_keyed_complete:
  assumes "\<And>r. ik_key (f r) = ik_key r" and "\<And>r. ik_user (f r) = ik_user r"
  shows "keyed (\<lambda>r. (weight e (ik_key r), if sc = PerUserKey then ik_user r else 0)) (complete_rows e' key uid f rs) =
    keyed (\<lambda>r. (weight e (ik_key r), if sc = PerUserKey then ik_user r else 0)) rs"
  unfolding complete_rows_def by (rule keyed_map) (simp add: assms)

lemma idem_keyed_step: "idem_keyed sc e (tabs d) \<Longrightarrow> idem_keyed sc e (tabs (idem_step sc e p d))"
  unfolding idem_keyed_def
  by (cases p)
    (auto simp: Idem_Claim_unfold Idem_Complete_def Idempotency_Claim_def Idempotency_Complete_def idem_tx_unfold
      ins_claim_def exec_def upd_result_def upd_note_def Let_def keyed_snoc claim_row_def key_clash_def text_eq_def
      list_ex_iff idem_keyed_complete split: option.splits outcome.splits if_splits)

definition tables_ok :: "sys \<Rightarrow> tables \<Rightarrow> bool" where
  "tables_ok S t \<longleftrightarrow>
     notes_keyed t \<and> tokens_keyed (senv S) t \<and> emails_keyed (senv S) t \<and> idem_keyed (keying S) (senv S) t \<and>
     keyed au_id (audit_rows t) \<and> keyed (\<lambda>x. x) (user_role_rows t) \<and>
     keyed fst (role_rows t) \<and> keyed (\<lambda>x. weight (senv S) (snd x)) (role_rows t)"

lemma role_step_keyed:
  "keyed (\<lambda>x. x) (user_role_rows (tabs d)) \<Longrightarrow> keyed (\<lambda>x. x) (user_role_rows (tabs (role_step e p d)))"
  by (auto simp: role_step_def role_ops query_row_unfold exec_def ins_user_role_def del_user_role_def Let_def
      keyed_snoc keyed_filter split: role_op.splits option.splits outcome.splits if_splits)

lemma audit_step_keyed:
  "keyed au_id (audit_rows (tabs d)) \<Longrightarrow>
   keyed au_id (audit_rows (tabs (snd (exec e (ins_audit e uid meth url status ip rid) d))))"
  by (auto simp: audit_exec keyed_snoc ins_audit_def Let_def)

lemma keyed_tables:
  "notes_keyed t \<longleftrightarrow> keyed n_id (note_rows t)"
  "tokens_keyed e t \<longleftrightarrow> keyed (\<lambda>r. weight e (tk_token r)) (token_rows t)"
  "emails_keyed e t \<longleftrightarrow> keyed (\<lambda>u. weight e (u_email u)) (user_rows t) \<and> keyed u_id (user_rows t)"
  by (simp_all add: notes_keyed_def tokens_keyed_def emails_keyed_def)

lemma tables_ok_step: "tables_ok S (tabs d) \<Longrightarrow> tables_ok S (tabs (db_step S p d))"
proof -
  assume ok: "tables_ok S (tabs d)"
  show ?thesis
  proof (cases p)
    case (NoteOp q)
    then show ?thesis using ok notes_keyed_step [of d "senv S" q] note_step_frame [of "senv S" q d]
      by (auto simp: tables_ok_def keyed_tables idem_keyed_def)
  next
    case (TokOp q)
    then show ?thesis using ok tokens_keyed_step [of "senv S" d q] tok_step_frame [of "senv S" q d]
      by (auto simp: tables_ok_def keyed_tables idem_keyed_def)
  next
    case (IdemOp q)
    then show ?thesis using ok idem_keyed_step [of "keying S" "senv S" d q] idem_step_frame [of "keying S" "senv S" q d]
      by (auto simp: tables_ok_def keyed_tables idem_keyed_def)
  next
    case (RoleOp q)
    then show ?thesis using ok role_step_keyed [of d "senv S" q] role_step_frame [of "senv S" q d]
      by (auto simp: tables_ok_def keyed_tables idem_keyed_def)
  next
    case (UserOp a b)
    then show ?thesis using ok emails_keyed_create [of "senv S" d a b] other_frames(1) [of "senv S" a b d]
      by (auto simp: tables_ok_def keyed_tables idem_keyed_def)
  next
    case (AuditOp u a b c f g)
    then show ?thesis using ok audit_step_keyed [of d "senv S" u a b c f g] other_frames(2) [of "senv S" u a b c f g d]
      by (auto simp: tables_ok_def keyed_tables idem_keyed_def)
  qed (use ok in simp)
qed

section \<open>Histories of requests\<close>

text \<open>A request with the answers that the e-mail limiter gives to it.\<close>

definition serve_with :: "sys \<Rightarrow> libs \<Rightarrow> config \<Rightarrow> (string \<Rightarrow> bool) \<times> req \<Rightarrow> world \<Rightarrow> world" where
  "serve_with S L cfg x w = snd (serve S (L\<lparr>email_allows := fst x\<rparr>) cfg (snd x) w)"

lemma libs_ok_emails [simp]: "libs_ok S (L\<lparr>email_allows := f\<rparr>) = libs_ok S L"
  by (simp add: libs_ok_def)

lemma serve_preserves:
  assumes "libs_ok S L"
    and "\<And>p d. p \<in> permitted S L cfg (scope_of S L cfg r) r (clock w + 2) (wdb w) \<union> audit_may (split_host (peer_of S L r w)) \<Longrightarrow>
      P (tabs d) \<Longrightarrow> P (tabs (db_step S p d))"
    and "P (tabs (wdb w))"
  shows "P (tabs (wdb (snd (serve S L cfg r w))))"
proof (rule serve_eff [OF assms(1), of cfg r w])
  fix w1 w' rid
  assume run: "serve S L cfg r w = (Returned, w')"
    and keep: "\<And>P. (\<And>p d. p \<in> permitted S L cfg (scope_of S L cfg r) r (clock w + 2) (wdb w) \<union> audit_may (split_host (peer_of S L r w)) \<Longrightarrow>
        P (tabs d) \<Longrightarrow> P (tabs (db_step S p d))) \<Longrightarrow> P (tabs (wdb w)) \<Longrightarrow> P (tabs (wdb w'))"
  have "P (tabs (wdb w'))" by (rule keep) (fact assms)+
  then show ?thesis by (simp add: run)
qed

definition role_of_scope :: "scope \<Rightarrow> string" where
  "role_of_scope sc = (if sc = AdminScope then ''admin'' else ''user'')"

section \<open>A sample deployment\<close>

text \<open>
  Libraries for the witnesses: a router that compares paths and knows the note 1, \<open>RealIP\<close> with one header, and the
  token key of the sample environment.
\<close>

definition demo_find :: "(string \<times> string) list \<Rightarrow> string \<Rightarrow> string \<Rightarrow> chi_match" where
  "demo_find table meth url =
     (case List.find (\<lambda>i. fst (table ! i) \<in> {[], meth} \<and>
          (snd (table ! i) = url \<or> (snd (table ! i), url) = (''/notes/{id}/'', ''/notes/1/''))) [0..<length table] of
        Some i \<Rightarrow> Found i [''id'' \<mapsto> ''1''] | None \<Rightarrow> Missed AtRoot)"

definition demo_libs :: libs where
  "demo_libs =
     \<lparr>otel_mw = (\<lambda>h. h),
      real_ip = (\<lambda>r. if header r ''X-Real-IP'' = [] then None else Some (header r ''X-Real-IP'')),
      chi_find = demo_find,
      chi_missed = (\<lambda>r w. (Returned, on_writer (http_error ''404 page not found'' 404) w)),
      prom_page = (\<lambda>r w. (Returned, on_writer (write_body ''metrics'') w)), spec_text = [],
      l_env = demo_vars, l_pick = (\<lambda>_. ''default''), email_allows = (\<lambda>_. True),
      bucket_allow = (\<lambda>n b. (True, b)), all_buckets = NewLimiter [] 0, auth_buckets = NewLimiter [] 0\<rparr>"

lemma demo_libs_ok [simp]: "libs_ok demo_sys demo_libs"
  by (auto simp: libs_ok_def demo_libs_def keeps_write intro: eff_error eff_on_writer eff_refl)

lemma demo_acts [simp]: "acts_as demo_sys demo_libs demo_cfg (bearer_req ''tok'') c = Some 7"
proof -
  have "verifier_keys demo_libs = [''default'' \<mapsto> ''secret'']"
    by (simp add: verifier_keys_def demo_libs_def demo_vars_def Load_def load_set_def env_of_def env_set_def Let_def)
  then show ?thesis
    by (simp add: acts_as_def demo_libs_def Let_def token_user_def demo_claims_def claim_num_def
        verify_key_def unix_secs_def second_def trunc64_def in_i64_def min_i64_def max_i64_def)
qed

section \<open>Properties\<close>

text \<open>
  C13. The keys of all tables hold over every history of requests: whatever the clients send and
  however the calls of the database end, no two notes, users, audit rows or roles share an id, no
  two accounts an address, no two refresh tokens their text, no two idempotency keys their key,
  and no user holds a role twice.
\<close>

theorem server_keeps_tables:
  assumes "libs_ok S L" and "tables_ok S (tabs (wdb w))"
  shows "tables_ok S (tabs (wdb (fold (serve_with S L cfg) rs w)))"
  using assms(2)
proof (induction rs arbitrary: w)
  case (Cons x rs)
  have "tables_ok S (tabs (wdb (serve_with S L cfg x w)))"
    unfolding serve_with_def by (rule serve_preserves) (simp_all add: assms(1) Cons.prems tables_ok_step)
  then show ?case by (simp add: Cons.IH)
qed simp

theorem server_keeps_tables_witness:
  "tables_ok demo_sys (tabs (wdb (fold (serve_with demo_sys demo_libs demo_cfg)
     [(\<lambda>_. True, bearer_req ''tok''), (\<lambda>_. False, bare_req\<lparr>rq_method := ''POST'', rq_path := ''/auth/register''\<rparr>)]
     (world_on demo_notes))))"
proof -
  have "tables_ok demo_sys (tabs (wdb (world_on demo_notes)))"
    by (simp add: tables_ok_def keyed_tables idem_keyed_def demo_notes_def keyed_def new_note_def)
  then show ?thesis by (rule server_keeps_tables [OF demo_libs_ok])
qed

text \<open>
  C1. Notes are private to their user: a request, whatever its route and its body, leaves the notes of
  a user as they are unless it carries a valid token of that user.
\<close>

theorem notes_stay_private:
  assumes "libs_ok S L" and "acts_as S L cfg r (clock w + 2) \<noteq> Some v"
  shows "filter (\<lambda>n. n_user n = v) (notes_of (wdb (snd (serve S L cfg r w)))) =
    filter (\<lambda>n. n_user n = v) (notes_of (wdb w))"
proof -
  let ?P = "\<lambda>t. filter (\<lambda>n. n_user n = v) (note_rows t) = filter (\<lambda>n. n_user n = v) (notes_of (wdb w))"
  have "?P (tabs (wdb (snd (serve S L cfg r w))))"
  proof (rule serve_preserves [where P = ?P, OF assms(1)])
    fix p and d :: db
    assume p: "p \<in> permitted S L cfg (scope_of S L cfg r) r (clock w + 2) (wdb w) \<union> audit_may (split_host (peer_of S L r w))" and P: "?P (tabs d)"
    show "?P (tabs (db_step S p d))"
    proof (cases "\<exists>q. p = NoteOp q")
      case True
      then obtain q where q: "p = NoteOp q" by blast
      with p have "acts_as S L cfg r (clock w + 2) = Some (op_user q)"
        by (auto simp: permitted_def holds_scope_def audit_may_def auth_may_def admin_may_def notes_may_def
            split: scope.splits option.splits if_splits)
      with assms(2) have "op_user q \<noteq> v" by auto
      then show ?thesis using P step_isolates [of q v "senv S" d] by (simp add: q)
    next
      case False
      then show ?thesis using P db_step_frame(1) [of p S d] by simp
    qed
  qed simp
  then show ?thesis .
qed

theorem notes_stay_private_witness:
  "filter (\<lambda>n. n_user n = 8) (notes_of (wdb (snd (serve demo_sys demo_libs demo_cfg
     ((bearer_req ''tok'')\<lparr>rq_method := ''POST'', rq_path := ''/notes/'', rq_body := note_body ''t'' ''b''\<rparr>) (world_on demo_notes))))) =
   [new_note 3 8 ''c'' ''z'' 50]"
proof -
  let ?r = "(bearer_req ''tok'')\<lparr>rq_method := ''POST'', rq_path := ''/notes/'', rq_body := note_body ''t'' ''b''\<rparr>"
  have "acts_as demo_sys demo_libs demo_cfg ?r 2 = acts_as demo_sys demo_libs demo_cfg (bearer_req ''tok'') 2"
    by (simp add: acts_as_def header_def)
  then have "acts_as demo_sys demo_libs demo_cfg ?r (clock (world_on demo_notes) + 2) \<noteq> Some 8"
    by (simp add: numeral_2_eq_2)
  from notes_stay_private [OF demo_libs_ok this] show ?thesis
    by (rule trans) (simp add: demo_notes_def new_note_def)
qed

text \<open>
  C2. No one becomes an administrator without one: a request that does not carry a valid token of a
  user who holds the role admin gives no user any role except \<open>user\<close>.
\<close>

theorem no_privilege_escalation:
  assumes "libs_ok S L" and "holds_scope S L cfg ''admin'' r (clock w + 2) (wdb w) = None"
    and "keyed fst (role_rows (tabs (wdb w)))"
    and "\<not> holds_role (senv S) u q (wdb w)" and "\<not> text_eq (senv S) q ''user''"
  shows "\<not> holds_role (senv S) u q (wdb (snd (serve S L cfg r w)))"
proof -
  let ?e = "senv S" and ?R = "role_rows (tabs (wdb w))"
  let ?P = "\<lambda>t. role_rows t = ?R \<and> (\<forall>(v, i)\<in>set (user_role_rows t).
    (v, i) \<in> set (user_role_rows (tabs (wdb w))) \<or> (\<exists>name. (i, name) \<in> set ?R \<and> text_eq ?e name ''user''))"
  have "?P (tabs (wdb (snd (serve S L cfg r w))))"
  proof (rule serve_preserves [where P = ?P, OF assms(1)])
    fix p and d :: db
    assume p: "p \<in> permitted S L cfg (scope_of S L cfg r) r (clock w + 2) (wdb w) \<union> audit_may (split_host (peer_of S L r w))" and P: "?P (tabs d)"
    show "?P (tabs (db_step S p d))"
    proof (cases "\<exists>q. p = RoleOp q")
      case True
      with p assms(2) obtain a where q: "p = RoleOp (RAssign a ''user'')"
        by (auto simp: permitted_def audit_may_def auth_may_def notes_may_def
            split: scope.splits option.splits if_splits)
      have "role_rows (tabs (db_step S p d)) = ?R" using P db_step_frame(7) [of S p d] by simp
      moreover have "set (user_role_rows (tabs (db_step S p d))) \<subseteq> set (user_role_rows (tabs d)) \<union>
          {(a, i) |i name. (i, name) \<in> set (role_rows (tabs d)) \<and> text_eq ?e name ''user''}"
        by (auto simp: q role_step_def Roles_Assign_def query_row_unfold exec_def ins_user_role_def sel_role_def Let_def
            dest: find_SomeD split: option.splits outcome.splits if_splits)
      ultimately show ?thesis using P by auto
    next
      case False
      then show ?thesis using P db_step_frame(4) [of p S d] db_step_frame(7) [of S p d] by simp
    qed
  qed auto
  with assms(3-5) show ?thesis
    by (fastforce simp: holds_role_def text_eq_def dest: keyed_unique)
qed

theorem no_privilege_escalation_witness:
  "\<not> holds_role demo_env 7 ''admin'' (wdb (snd (serve demo_sys demo_libs demo_cfg
     ((bearer_req ''tok'')\<lparr>rq_method := ''POST'', rq_path := ''/auth/register''\<rparr>)
     (world_on (empty_tables\<lparr>user_role_rows := [(7, 2)]\<rparr>)))))"
proof -
  let ?r = "(bearer_req ''tok'')\<lparr>rq_method := ''POST'', rq_path := ''/auth/register''\<rparr>"
  let ?w = "world_on (empty_tables\<lparr>user_role_rows := [(7, 2)]\<rparr>)"
  have "acts_as demo_sys demo_libs demo_cfg ?r c = acts_as demo_sys demo_libs demo_cfg (bearer_req ''tok'') c" for c
    by (simp add: acts_as_def header_def)
  then have "holds_scope demo_sys demo_libs demo_cfg ''admin'' ?r (clock ?w + 2) (wdb ?w) = None"
    by (simp add: holds_scope_def role_granted_def holds_role_def)
  from no_privilege_escalation [OF demo_libs_ok this, of 7 "''admin''"]
  show ?thesis by (simp add: keyed_def holds_role_def)
qed

text \<open>
  C29. Every request is answered, with a panic or without, and every response carries the four security
  headers and the request id: the client's, or 16 random bytes in hexadecimal digits.
\<close>

theorem every_response_is_guarded:
  assumes "libs_ok S L" and "(k, v) \<in> set security_headers"
  shows "fst (serve S L cfg r w) = Returned \<and>
    sent_header (wr (snd (serve S L cfg r w))) k = Some v \<and>
    sent_header (wr (snd (serve S L cfg r w))) ''X-Request-ID'' =
      Some (request_id S r w)"
proof -
  obtain w1 w' rid where s: "serve S L cfg r w = (Returned, w')" "fresh_response rid w1"
    "rid = request_id S r w"
    "keeps_headers (wr w1) (wr w')"
    by (rule serve_eff [OF assms(1), of cfg r w]) blast
  have "carries k v (wr w1)" "carries ''X-Request-ID'' rid (wr w1)"
    using s(2) assms(2) by (auto simp: carries_def fresh_response_def)
  then have "carries k v (wr w')" "carries ''X-Request-ID'' rid (wr w')"
    using s(4) assms(2) by (simp_all add: keeps_headers_def guarded_def)
  then show ?thesis using s(1,3) carries_sent by fastforce
qed

theorem every_response_is_guarded_witness:
  "sent_header (wr (snd (serve demo_sys demo_libs demo_cfg (bearer_req ''forged'') (world_on demo_notes))))
     ''X-Frame-Options'' = Some ''DENY''"
  using every_response_is_guarded [OF demo_libs_ok, of "''X-Frame-Options''" "''DENY''"]
  by (simp add: security_headers_def)

text \<open>
  C3. The routes of administrators and of notes are closed: a request to one of them without a valid
  token of a user whom the database gives the role is answered with 401, 403 or, by the limiter, 429, and
  changes nothing but the audit log.
\<close>

theorem protected_routes_are_closed:
  assumes "libs_ok S L" and "scope_of S L cfg r \<in> {AdminScope, NotesScope}"
    and "holds_scope S L cfg (role_of_scope (scope_of S L cfg r)) r (clock w + 2) (wdb w) = None"
    and "rq_method r \<noteq> ''OPTIONS''"
  shows "status_of (wr (snd (serve S L cfg r w))) \<in> {401, 403, 429} \<and>
    (tabs (wdb (snd (serve S L cfg r w))))\<lparr>audit_rows := []\<rparr> = (tabs (wdb w))\<lparr>audit_rows := []\<rparr>"
proof
  let ?P = "\<lambda>t. t\<lparr>audit_rows := []\<rparr> = (tabs (wdb w))\<lparr>audit_rows := []\<rparr>"
  have "permitted S L cfg (scope_of S L cfg r) r (clock w + 2) (wdb w) = range Reads"
    using assms(2,3) by (auto simp: permitted_def role_of_scope_def)
  then show "?P (tabs (wdb (snd (serve S L cfg r w))))"
    by (intro serve_preserves [where P = ?P, OF assms(1)]) (simp_all only: reads_and_audit)
  obtain r1 w1 rid where a: "serve S L cfg r w = (if rq_method r = ''OPTIONS'' then (Returned, on_writer (write_header 204) w1)
       else rest_of_chain S L (server_New cfg) r1 w1)"
    "same_request r r1" "same_but_writer w w1" "fresh_response rid w1"
    by (rule serve_arrives [OF assms(1)])
  have w1: "wdb w1 = wdb w" "clock w1 = clock w" "w_sent (wr w1) = None"
    using a(3,4) by (simp_all add: same_but_writer_def fresh_response_def)
  have r1: "rq_method r1 = rq_method r" "rq_path r1 = rq_path r"
    "header r1 ''Authorization'' = header r ''Authorization''"
    using a(2) by (simp_all add: same_request_def)
  show "status_of (wr (snd (serve S L cfg r w))) \<in> {401, 403, 429}"
  proof (cases rule: chain_cases [OF w1(3), of S L cfg r1, case_names limited routed])
    case (limited w')
    with a(1) assms(4) show ?thesis by simp
  next
    case (routed w2 w3 w' fl)
    obtain sc h ps where tg: "target S L (server_New cfg) r1 = (sc, h, ps)" by (metis prod_cases3)
    have sc: "scope_of S L cfg r = sc" using target_cong [OF r1(1,2)] tg by (simp add: scope_of_def)
    have w2: "clock w2 = clock w + 2" "wdb w2 = wdb w" "w_sent (wr w2) = None"
      using routed(1) w1 by (simp_all add: reaches_routes_def)
    let ?r = "r1\<lparr>rq_param := ps\<rparr>"
    have hs: "holds_scope S L cfg (role_of_scope sc) ?r (clock w2) (wdb w2) = None"
      using assms(3) r1(3) w2 sc by (simp add: holds_scope_def acts_as_def header_def)
    have mux: "mux S L (server_New cfg) r1 w2 = authenticated S L (server_New cfg) (role_of_scope sc) h ?r w2"
      using tg sc assms(2) by (auto simp: mux_def in_scope_def role_of_scope_def)
    have out: "fst (mux S L (server_New cfg) r1 w2) = Returned"
      "status_of (wr (snd (mux S L (server_New cfg) r1 w2))) \<in> {401, 403}"
      unfolding mux by (rule authenticated_cases [of S L cfg "role_of_scope sc" ?r w2 h]; use hs w2(3) in simp)+
    with routed have "fl = Returned" by simp
    then have "status_of (wr w') = status_of (wr w3)"
      using routed(6) by (simp add: status_of_def)
    with out routed(2,3) a(1) assms(4) show ?thesis by auto
  qed
qed

theorem protected_routes_are_closed_witness:
  "status_of (wr (snd (serve demo_sys demo_libs demo_cfg ((bearer_req ''tok'')\<lparr>rq_path := ''/admin/ping''\<rparr>)
     (world_on (empty_tables\<lparr>user_role_rows := [(7, 2)]\<rparr>))))) \<in> {401, 403, 429}"
proof -
  let ?r = "(bearer_req ''tok'')\<lparr>rq_path := ''/admin/ping''\<rparr>"
  let ?w = "world_on (empty_tables\<lparr>user_role_rows := [(7, 2)]\<rparr>)"
  have sc: "scope_of demo_sys demo_libs demo_cfg ?r = AdminScope"
    by (simp add: scope_of_def target_def routes_def root_routes_def auth_routes_def admin_routes_def
        notes_routes_def server_New_def demo_cfg_def demo_libs_def demo_find_def upt_rec bearer_req_def)
  have "acts_as demo_sys demo_libs demo_cfg ?r c = acts_as demo_sys demo_libs demo_cfg (bearer_req ''tok'') c" for c
    by (simp add: acts_as_def header_def)
  then have none: "holds_scope demo_sys demo_libs demo_cfg (role_of_scope AdminScope) ?r (clock ?w + 2) (wdb ?w) = None"
    by (simp add: holds_scope_def role_granted_def holds_role_def role_of_scope_def)
  have "rq_method ?r \<noteq> ''OPTIONS''" by (simp add: bearer_req_def)
  then show ?thesis
    using protected_routes_are_closed [OF demo_libs_ok, of demo_cfg ?r ?w] none sc by simp
qed

text \<open>
  The audit log only grows by what a request adds, and the added rows name no one: their user is
  0, because the middleware runs outside the authentication, and their address is the part
  before the port, which is empty when \<open>RealIP\<close> has put a bare address there.
\<close>

theorem audit_rows_are_anonymous:
  assumes "libs_ok S L"
  shows "\<exists>new. audit_rows (tabs (wdb (snd (serve S L cfg r w)))) = audit_rows (tabs (wdb w)) @ new \<and>
    (\<forall>a\<in>set new. au_user a = Some 0 \<and> au_ip a = split_host (peer_of S L r w) \<and>
       (peer_of S L r w = ip4_text q \<longrightarrow> au_ip a = []))"
proof -
  let ?ip = "split_host (peer_of S L r w)"
  let ?P = "\<lambda>t. \<exists>new. audit_rows t = audit_rows (tabs (wdb w)) @ new \<and>
    (\<forall>a\<in>set new. au_user a = Some 0 \<and> au_ip a = ?ip)"
  have "?P (tabs (wdb (snd (serve S L cfg r w))))"
  proof (rule serve_preserves [where P = ?P, OF assms])
    fix p and d :: db
    assume p: "p \<in> permitted S L cfg (scope_of S L cfg r) r (clock w + 2) (wdb w) \<union> audit_may ?ip" and P: "?P (tabs d)"
    show "?P (tabs (db_step S p d))"
    proof (cases "\<exists>u a b c f g. p = AuditOp u a b c f g")
      case True
      with p obtain meth url status rid where "p = AuditOp 0 meth url status ?ip rid"
        by (auto simp: permitted_def audit_may_def auth_may_def admin_may_def notes_may_def
            split: scope.splits option.splits if_splits)
      then show ?thesis using P by (auto simp: audit_exec)
    next
      case False
      then show ?thesis using P db_step_frame(6) [of p S d] by auto
    qed
  qed simp
  moreover have "split_host (ip4_text q) = []" for q
    by (rule split_host_bare) (use ip4_text_set in force)
  ultimately show ?thesis by metis
qed

theorem audit_rows_are_anonymous_witness:
  "\<exists>new. audit_rows (tabs (wdb (snd (serve demo_sys demo_libs demo_cfg
       (bare_req\<lparr>rq_headers := [''X-Real-IP'' \<mapsto> ip4_text [1, 2, 3, 4]]\<rparr>) (world_on demo_notes))))) = new \<and>
     (\<forall>a\<in>set new. au_user a = Some 0 \<and> au_ip a = [])"
proof -
  let ?r = "bare_req\<lparr>rq_headers := [''X-Real-IP'' \<mapsto> ip4_text [1, 2, 3, 4]]\<rparr>"
  have "ip4_text q \<noteq> []" for q by (simp add: ip4_text_def)
  then have "peer_of demo_sys demo_libs ?r (world_on demo_notes) = ip4_text [1, 2, 3, 4]"
    by (simp add: peer_of_def demo_libs_def header_def get_or_empty_def)
  moreover have "audit_rows (tabs (wdb (world_on demo_notes))) = []" by (simp add: demo_notes_def)
  ultimately show ?thesis
    using audit_rows_are_anonymous [OF demo_libs_ok, of demo_cfg ?r "world_on demo_notes" "[1, 2, 3, 4]"] by auto
qed

end
