(* ===== verification/Server_Service.thy ===== *)
theory Server_Service
  imports Server_Http
begin

text \<open>
  What the server does for those it lets in: a request with a token and a role reaches its handler, with the
  user of the token, and the client gets the handler's answer; and what this means for notes from one
  request to the next.
\<close>

section \<open>Requests that arrive at a handler\<close>

text \<open>\<open>chi\<close> finds the entry of the table of routes with this method and pattern.\<close>

definition routed_to ::
  "sys \<Rightarrow> libs \<Rightarrow> config \<Rightarrow> req \<Rightarrow> string \<Rightarrow> (string \<rightharpoonup> string) \<Rightarrow> bool" where
  "routed_to S L cfg r pat ps \<longleftrightarrow>
     (let table = map (\<lambda>(m, p, _). (m, p)) (routes S L (server_New cfg))
      in \<exists>i<length table. chi_find L table (rq_method r) (rq_path r) = Found i ps \<and> table ! i = (rq_method r, pat))"

lemma routes_distinct: "distinct (map (\<lambda>(m, p, _). (m, p)) (routes S L s))"
  by (cases "c_env (s_cfg s) = ''prod''")
    (simp_all add: routes_def root_routes_def auth_routes_def admin_routes_def notes_routes_def)

lemma routed_target:
  assumes "routed_to S L cfg r pat ps" and "(rq_method r, pat, sc, h) \<in> set (routes S L (server_New cfg))"
  shows "target S L (server_New cfg) r = (sc, h, ps)"
proof -
  let ?R = "routes S L (server_New cfg)" and ?key = "\<lambda>(m, p, _ :: scope \<times> handler). (m :: string, p :: string)"
  obtain i where i: "i < length ?R" "chi_find L (map ?key ?R) (rq_method r) (rq_path r) = Found i ps"
    "?key (?R ! i) = (rq_method r, pat)"
    using assms(1) by (auto simp: routed_to_def Let_def)
  obtain j where j: "j < length ?R" "?R ! j = (rq_method r, pat, sc, h)"
    using assms(2) by (metis in_set_conv_nth)
  have "map ?key ?R ! i = map ?key ?R ! j" using i j by simp
  moreover have "map ?key ?R ! i = map ?key ?R ! j \<longleftrightarrow> i = j"
    by (rule nth_eq_iff_index_eq [OF routes_distinct]) (simp_all add: i(1) j(1))
  ultimately have "i = j" by simp
  with i j show ?thesis by (simp add: target_def)
qed

text \<open>The request is within the limit of its client.\<close>

definition under_limit :: "sys \<Rightarrow> libs \<Rightarrow> config \<Rightarrow> req \<Rightarrow> world \<Rightarrow> bool" where
  "under_limit S L cfg r w \<longleftrightarrow> requests_seen S (r\<lparr>rq_remote := peer_of S L r w\<rparr>) (rds w) \<le> c_rate_burst cfg"

text \<open>What the handler of an authorised request is given.\<close>

definition handed_on :: "config \<Rightarrow> int \<Rightarrow> (string \<rightharpoonup> string) \<Rightarrow> req \<Rightarrow> req \<Rightarrow> bool" where
  "handed_on cfg u ps r r2 \<longleftrightarrow> rq_uid r2 = Some u \<and> rq_param r2 = ps \<and> rq_method r2 = rq_method r \<and>
     rq_query r2 = rq_query r \<and> (\<forall>k. k \<noteq> ''X-Request-ID'' \<longrightarrow> header r2 k = header r k) \<and>
     rq_body r2 = rq_body (limit_body (c_max_body cfg) r) \<and> rq_broken r2 = rq_broken (limit_body (c_max_body cfg) r)"

definition fresh_world :: "world \<Rightarrow> world \<Rightarrow> bool" where
  "fresh_world w w2 \<longleftrightarrow> tabs (wdb w2) = tabs (wdb w) \<and> w_sent (wr w2) = None \<and> w_body (wr w2) = [] \<and>
     tick (wdb w2) = Suc (tick (wdb w))"

lemma authorised_handled:
  assumes "libs_ok S L" and "rq_method r \<noteq> ''OPTIONS''" and "under_limit S L cfg r w"
    and "target S L (server_New cfg) r = (sc, h, ps)" and "sc \<in> {AdminScope, NotesScope}"
    and "holds_scope S L cfg (role_of_scope sc) r (clock w + 2) (wdb w) = Some u"
  obtains r2 w2 where "handed_on cfg u ps r r2" "fresh_world w w2"
    "\<And>w3. h r2 w2 = (Returned, w3) \<Longrightarrow>
      status_of (wr (snd (serve S L cfg r w))) = status_of (wr w3) \<and>
      w_body (wr (snd (serve S L cfg r w))) = w_body (wr w3) \<and>
      sent_header (wr (snd (serve S L cfg r w))) k = sent_header (wr w3) k \<and>
      (tabs (wdb (snd (serve S L cfg r w))))\<lparr>audit_rows := []\<rparr> = (tabs (wdb w3))\<lparr>audit_rows := []\<rparr>"
proof -
  obtain r1 w1 rid where a: "serve S L cfg r w = (if rq_method r = ''OPTIONS'' then (Returned, on_writer (write_header 204) w1)
       else rest_of_chain S L (server_New cfg) r1 w1)"
    "same_request r r1" "same_but_writer w w1" "fresh_response rid w1" "rq_remote r1 = peer_of S L r w"
    "rq_body r1 = rq_body (limit_body (c_max_body cfg) r)" "rq_broken r1 = rq_broken (limit_body (c_max_body cfg) r)"
    by (rule serve_arrives [OF assms(1)])
  have w1: "wdb w1 = wdb w" "clock w1 = clock w" "rds w1 = rds w" "w_sent (wr w1) = None" "w_body (wr w1) = []"
    using a(3,4) by (simp_all add: same_but_writer_def fresh_response_def)
  have r1: "rq_method r1 = rq_method r" "rq_path r1 = rq_path r" "rq_uid r1 = None"
    "\<And>k. k \<noteq> ''X-Request-ID'' \<Longrightarrow> header r1 k = header r k" "rq_query r1 = rq_query r"
    using a(2) by (simp_all add: same_request_def)
  have hdr: "header (r\<lparr>rq_remote := x\<rparr>) k = header r k" for x k by (simp add: header_def)
  have "IPKey r1 = IPKey (r\<lparr>rq_remote := peer_of S L r w\<rparr>)"
    using r1(4) a(5) hdr by (simp add: IPKey_def forwarded_ip_def Let_def)
  then have seen: "requests_seen S r1 (rds w1) \<le> c_rate_burst cfg"
    using assms(3) w1(3) by (simp add: requests_seen_def under_limit_def)
  have run: "serve S L cfg r w = rest_of_chain S L (server_New cfg) r1 w1" using a(1) assms(2) by simp
  show thesis
  proof (cases rule: chain_cases [OF w1(4), of S L cfg r1, case_names limited routed])
    case (limited w')
    with seen show thesis by simp
  next
    case (routed w2 w3 w' fl)
    have w2: "clock w2 = clock w + 2" "wdb w2 = wdb w" "w_sent (wr w2) = None" "w_body (wr w2) = []"
      using routed(1) w1 by (simp_all add: reaches_routes_def)
    let ?r = "r1\<lparr>rq_param := ps\<rparr>"
    have hs: "holds_scope S L cfg (role_of_scope sc) ?r (clock w2) (wdb w2) = Some u"
      using assms(6) r1(4) [of "''Authorization''"] w2 by (simp add: holds_scope_def acts_as_def header_def)
    have "mux S L (server_New cfg) r1 w2 = authenticated S L (server_New cfg) (role_of_scope sc) h ?r w2"
      using target_cong [OF r1(1,2), of S L] assms(4,5) by (auto simp: mux_def in_scope_def role_of_scope_def)
    moreover obtain k' where "authenticated S L (server_New cfg) (role_of_scope sc) h ?r w2 =
        h (?r\<lparr>rq_uid := Some u\<rparr>) (w2\<lparr>clock := clock w2 + 2, wdb := (wdb w2)\<lparr>tick := k'\<rparr>\<rparr>)"
        "k' = Suc (tick (wdb w2))"
      by (rule authenticated_cases [of S L cfg "role_of_scope sc" ?r w2 h]) (use hs in auto)
    ultimately have mux: "h (?r\<lparr>rq_uid := Some u\<rparr>) (w2\<lparr>clock := clock w2 + 2, wdb := (wdb w2)\<lparr>tick := k'\<rparr>\<rparr>) = (fl, w3)"
      using routed(2) by simp
    show thesis
    proof (rule that)
      show "handed_on cfg u ps r (?r\<lparr>rq_uid := Some u\<rparr>)"
        using r1 a(6,7) by (simp add: handed_on_def header_def)
      show "fresh_world w (w2\<lparr>clock := clock w2 + 2, wdb := (wdb w2)\<lparr>tick := k'\<rparr>\<rparr>)"
        using w2 \<open>k' = Suc (tick (wdb w2))\<close> by (simp add: fresh_world_def)
      fix w4
      assume "h (?r\<lparr>rq_uid := Some u\<rparr>) (w2\<lparr>clock := clock w2 + 2, wdb := (wdb w2)\<lparr>tick := k'\<rparr>\<rparr>) = (Returned, w4)"
      with mux have fl: "fl = Returned" "w4 = w3" by simp_all
      have "(tabs (wdb w'))\<lparr>audit_rows := []\<rparr> = (tabs (wdb w3))\<lparr>audit_rows := []\<rparr>"
        using routed(6) [OF fl(1)] reads_and_audit [of "audit_row_of r1 (tapped (wr w3))" "split_host (rq_remote r1)"]
          r1(3) by (auto simp: audit_row_of_def audit_may_def user_or_zero_def)
      then show "status_of (wr (snd (serve S L cfg r w))) = status_of (wr w4) \<and>
        w_body (wr (snd (serve S L cfg r w))) = w_body (wr w4) \<and>
        sent_header (wr (snd (serve S L cfg r w))) k = sent_header (wr w4) k \<and>
        (tabs (wdb (snd (serve S L cfg r w))))\<lparr>audit_rows := []\<rparr> = (tabs (wdb w4))\<lparr>audit_rows := []\<rparr>"
        using routed(3,6) fl by (simp add: run status_of_def sent_header_def cong: option.case_cong)
    qed
  qed
qed

lemma notes_create_returns: "fst (notes_create S r w) = Returned"
  by (auto simp: notes_create_def answer_def fail_def Let_def split: option.splits prod.splits sum.splits)

lemma notes_get_returns: "fst (notes_get S r w) = Returned"
  by (auto simp: notes_get_def answer_def fail_def Let_def split: option.splits prod.splits sum.splits)

lemma find_unused: "i \<notin> n_id ` set rs \<Longrightarrow> List.find (visible u i) rs = None"
  by (auto simp: find_None_conv visible_def)

lemma notes_created:
  assumes "w_sent (wr w) = None" and "\<And>n. out (senv S) n = Okay"
    and "auto_id (senv S) (tick (wdb w)) \<notin> n_id ` set (notes_of (wdb w))"
    and "decode_note (rq_broken r) (rq_body r) = Some (title, body)" and "trim_space title \<noteq> []"
  shows "let n = new_note (auto_id (senv S) (tick (wdb w))) (user_of r) (trim_space title) body (now (senv S) (tick (wdb w)))
    in answered (encode_line (note_json n)) w (snd (notes_create S r w)) \<and>
      tabs (wdb (snd (notes_create S r w))) = (tabs (wdb w))\<lparr>note_rows := notes_of (wdb w) @ [n]\<rparr>"
proof -
  let ?n = "new_note (auto_id (senv S) (tick (wdb w))) (user_of r) (trim_space title) body (now (senv S) (tick (wdb w)))"
  have "List.find (visible (user_of r) (n_id ?n)) (notes_of (wdb w) @ [?n]) = Some ?n"
    using find_unused [OF assms(3)] by (simp add: find_append visible_def new_note_def)
  then have "tabs (wdb (snd (notes_create S r w))) = (tabs (wdb w))\<lparr>note_rows := notes_of (wdb w) @ [?n]\<rparr>"
    using assms by (simp add: notes_create_def on_db_eq Notes_Create_unfold Notes_Get_unfold fail_def answer_def Let_def new_note_def)
  moreover have "answered (encode_line (note_json ?n)) w (snd (notes_create S r w))"
    using notes_create_on [OF assms(1-3), where r = r] assms(4,5) by (simp add: Let_def)
  ultimately show ?thesis by (simp add: Let_def)
qed

section \<open>Properties\<close>

text \<open>
  C5. Who is let in is served: a request within the limit, with a valid token of a user whom the
  database gives the role of the route, reaches the handler that the table of routes has for
  it, as that user, with its own method, query, headers and (limited) body and on the tables as they were;
  the client gets the handler's status and body, and apart from the audit log the tables are the handler's.
\<close>

theorem authorised_requests_are_served:
  assumes "libs_ok S L" and "rq_method r \<noteq> ''OPTIONS''" and "under_limit S L cfg r w"
    and "routed_to S L cfg r pat ps" and "(rq_method r, pat, sc, h) \<in> set (routes S L (server_New cfg))"
    and "sc \<in> {AdminScope, NotesScope}"
    and "holds_scope S L cfg (role_of_scope sc) r (clock w + 2) (wdb w) = Some u"
  shows "\<exists>r2 w2. handed_on cfg u ps r r2 \<and> fresh_world w w2 \<and>
    (\<forall>w3. h r2 w2 = (Returned, w3) \<longrightarrow>
      status_of (wr (snd (serve S L cfg r w))) = status_of (wr w3) \<and>
      w_body (wr (snd (serve S L cfg r w))) = w_body (wr w3) \<and>
      (tabs (wdb (snd (serve S L cfg r w))))\<lparr>audit_rows := []\<rparr> = (tabs (wdb w3))\<lparr>audit_rows := []\<rparr>)"
  by (rule authorised_handled [OF assms(1-3) routed_target [OF assms(4,5)] assms(6,7)]) blast

lemma demo_routed:
  "routed_to demo_sys demo_libs demo_cfg ((bearer_req ''tok'')\<lparr>rq_path := ''/admin/ping''\<rparr>) ''/admin/ping'' [''id'' \<mapsto> ''1'']"
  "routed_to demo_sys demo_libs demo_cfg ((bearer_req ''tok'')\<lparr>rq_path := ''/notes/1/''\<rparr>) ''/notes/{id}/'' [''id'' \<mapsto> ''1'']"
  "routed_to demo_sys demo_libs demo_cfg
     ((bearer_req ''tok'')\<lparr>rq_method := ''POST'', rq_path := ''/notes/'', rq_body := b\<rparr>) ''/notes/'' [''id'' \<mapsto> ''1'']"
  by (simp_all add: routed_to_def routes_def root_routes_def auth_routes_def admin_routes_def
        notes_routes_def server_New_def demo_cfg_def demo_libs_def demo_find_def upt_rec bearer_req_def Let_def)

theorem authorised_requests_are_served_witness:
  "status_of (wr (snd (serve demo_sys demo_libs demo_cfg ((bearer_req ''tok'')\<lparr>rq_path := ''/admin/ping''\<rparr>)
     (world_on (empty_tables\<lparr>user_role_rows := [(7, 1)]\<rparr>))))) = 200"
proof -
  let ?r = "(bearer_req ''tok'')\<lparr>rq_path := ''/admin/ping''\<rparr>"
  let ?w = "world_on (empty_tables\<lparr>user_role_rows := [(7, 1)]\<rparr>)"
  have acts: "acts_as demo_sys demo_libs demo_cfg ?r c = acts_as demo_sys demo_libs demo_cfg (bearer_req ''tok'') c" for c
    by (simp add: acts_as_def header_def)
  then have "holds_scope demo_sys demo_libs demo_cfg (role_of_scope AdminScope) ?r (clock ?w + 2) (wdb ?w) = Some 7"
    by (simp add: holds_scope_def role_granted_def holds_role_def role_of_scope_def)
  moreover have "under_limit demo_sys demo_libs demo_cfg ?r ?w"
    by (simp add: under_limit_def requests_seen_def incr_expire_def demo_cfg_def r_live_def Let_def)
  moreover have "rq_method ?r = ''GET''" by (simp add: bearer_req_def)
  moreover have "(''GET'', ''/admin/ping'', AdminScope, admin_ping) \<in> set (routes demo_sys demo_libs (server_New demo_cfg))"
    by (simp add: routes_def admin_routes_def)
  ultimately obtain r2 w2 where h: "fresh_world ?w w2" "\<And>w3. admin_ping r2 w2 = (Returned, w3) \<Longrightarrow>
      status_of (wr (snd (serve demo_sys demo_libs demo_cfg ?r ?w))) = status_of (wr w3)"
    using authorised_requests_are_served [OF demo_libs_ok _ _ demo_routed(1), where w = ?w and u = 7 and sc = AdminScope
        and h = admin_ping] by auto
  then show ?thesis
    by (simp add: admin_ping_def answer_def fresh_world_def status_unsent)
qed

text \<open>
  C4. What one writes is what one reads, through the whole server: a note that an authorised user posts is
  stored under a fresh id and answered with its JSON text, nothing else changes, and a later
  request with a token of that user for this id is answered with the very same text, if the
  database answers and neither request is over the limit.
\<close>

theorem created_note_is_served:
  assumes "libs_ok S L" and "\<And>n. out (senv S) n = Okay"
    and "n = new_note (auto_id (senv S) (tick (wdb w) + 1)) u (trim_space title) body (now (senv S) (tick (wdb w) + 1))"
    and "n_id n \<notin> n_id ` set (notes_of (wdb w))"
    and "rq_method r = ''POST''" and "routed_to S L cfg r ''/notes/'' ps" and "under_limit S L cfg r w"
    and "holds_scope S L cfg ''user'' r (clock w + 2) (wdb w) = Some u"
    and "limit_body (c_max_body cfg) r = rl" and "decode_note (rq_broken rl) (rq_body rl) = Some (title, body)"
    and "trim_space title \<noteq> []" and "snd (serve S L cfg r w) = w'"
    and "rq_method r' = ''GET''" and "routed_to S L cfg r' ''/notes/{id}/'' ps'"
    and "parse_int (get_or_empty ps' ''id'') = (n_id n, None)" and "header r' ''If-None-Match'' = []"
    and "under_limit S L cfg r' w'" and "acts_as S L cfg r' (clock w' + 2) = Some u"
  shows "status_of (wr w') = 200 \<and> w_body (wr w') = encode_line (note_json n) \<and>
    (tabs (wdb w'))\<lparr>audit_rows := []\<rparr> =
      (tabs (wdb w))\<lparr>note_rows := notes_of (wdb w) @ [n], audit_rows := []\<rparr> \<and>
    status_of (wr (snd (serve S L cfg r' w'))) = 200 \<and>
    w_body (wr (snd (serve S L cfg r' w'))) = encode_line (note_json n)"
proof -
  have post: "(rq_method r, ''/notes/'', NotesScope, notes_create S) \<in> set (routes S L (server_New cfg))"
    by (simp add: assms(5) routes_def notes_routes_def)
  obtain r2 w2 where h: "handed_on cfg u ps r r2" "fresh_world w w2"
    "\<And>w3. notes_create S r2 w2 = (Returned, w3) \<Longrightarrow>
      status_of (wr w') = status_of (wr w3) \<and> w_body (wr w') = w_body (wr w3) \<and>
      (tabs (wdb w'))\<lparr>audit_rows := []\<rparr> = (tabs (wdb w3))\<lparr>audit_rows := []\<rparr>"
    by (rule authorised_handled [OF assms(1) _ assms(7) routed_target [OF assms(6) post], of u])
      (use assms(5,8,12) in \<open>auto simp: role_of_scope_def\<close>)
  obtain w3 where w3: "notes_create S r2 w2 = (Returned, w3)"
    using notes_create_returns by (metis prod.collapse)
  have w2: "w_sent (wr w2) = None" "w_body (wr w2) = []" "tabs (wdb w2) = tabs (wdb w)" "tick (wdb w2) = tick (wdb w) + 1"
    using h(2) by (simp_all add: fresh_world_def)
  have r2: "decode_note (rq_broken r2) (rq_body r2) = Some (title, body)" "user_of r2 = u"
    using h(1) assms(9,10) by (simp_all add: handed_on_def user_of_def)
  have made: "answered (encode_line (note_json n)) w2 w3"
    "tabs (wdb w3) = (tabs (wdb w2))\<lparr>note_rows := notes_of (wdb w2) @ [n]\<rparr>"
    using notes_created [OF w2(1) assms(2) _ r2(1) assms(11)] assms(3,4) w3 w2(3,4) r2(2)
    by (simp_all add: new_note_def Let_def)
  have first: "status_of (wr w') = 200" "w_body (wr w') = encode_line (note_json n)"
    "(tabs (wdb w'))\<lparr>audit_rows := []\<rparr> = (tabs (wdb w))\<lparr>note_rows := notes_of (wdb w) @ [n], audit_rows := []\<rparr>"
    using h(3) [OF w3] made w2(2,3) by (simp_all add: answered_def)
  have rows: "notes_of (wdb w') = notes_of (wdb w) @ [n]" "user_role_rows (tabs (wdb w')) = user_role_rows (tabs (wdb w))"
    "role_rows (tabs (wdb w')) = role_rows (tabs (wdb w))"
    using arg_cong [where f = note_rows, OF first(3)] arg_cong [where f = user_role_rows, OF first(3)]
      arg_cong [where f = role_rows, OF first(3)] by simp_all
  have "List.find (visible u (n_id n)) (notes_of (wdb w)) = None"
    by (rule find_unused [OF assms(4)])
  then have find: "List.find (visible u (n_id n)) (notes_of (wdb w')) = Some n"
    by (simp add: rows find_append visible_def assms(3) new_note_def)
  have "role_granted S u [''user''] (wdb w)"
    using assms(8) by (auto simp: holds_scope_def split: option.splits if_splits)
  then have "holds_scope S L cfg ''user'' r' (clock w' + 2) (wdb w') = Some u"
    using assms(2,18) by (simp add: holds_scope_def role_granted_def holds_role_def rows)
  moreover have get: "(rq_method r', ''/notes/{id}/'', NotesScope, notes_get S) \<in> set (routes S L (server_New cfg))"
    by (simp add: assms(13) routes_def notes_routes_def)
  ultimately obtain r4 w4 where i: "handed_on cfg u ps' r' r4" "fresh_world w' w4"
    "\<And>w5. notes_get S r4 w4 = (Returned, w5) \<Longrightarrow>
      status_of (wr (snd (serve S L cfg r' w'))) = status_of (wr w5) \<and>
      w_body (wr (snd (serve S L cfg r' w'))) = w_body (wr w5)"
    by (rule_tac authorised_handled [OF assms(1) _ assms(17) routed_target [OF assms(14) get], of u])
      (use assms(13) in \<open>auto simp: role_of_scope_def\<close>)
  obtain w5 where w5: "notes_get S r4 w4 = (Returned, w5)"
    using notes_get_returns by (metis prod.collapse)
  have w4: "w_sent (wr w4) = None" "w_body (wr w4) = []" "tabs (wdb w4) = tabs (wdb w')"
    using i(2) by (simp_all add: fresh_world_def)
  have "\<not> not_modified r4 (noteETag n)" "user_of r4 = u" "url_param r4 ''id'' = get_or_empty ps' ''id''"
    using i(1) assms(16) by (simp_all add: handed_on_def user_of_def not_modified_def url_param_def)
  then have "answered (encode_line (note_json n)) w4 w5"
    using notes_get_on [OF w4(1), of S r4] assms(2,15) find w4(3) w5 by simp
  with i(3) [OF w5] w4(2) first show ?thesis by (simp add: answered_def)
qed

text \<open>The sample system with Redis down, so that no limit applies, and ids that count the calls.\<close>

definition down_sys :: sys where
  "down_sys = demo_sys\<lparr>redis_out := \<lambda>_. Refused, senv := demo_env\<lparr>auto_id := int\<rparr>\<rparr>"

lemma down_sys_simps [simp]:
  "out (senv down_sys) k = Okay" "auto_id (senv down_sys) k = int k" "now (senv down_sys) k = 100"
  "text_eq (senv down_sys) a b \<longleftrightarrow> a = b" "redis_out down_sys k = Refused"
  by (simp_all add: down_sys_def text_eq_def)

lemma down_libs [simp]: "libs_ok down_sys demo_libs"
  by (auto simp: libs_ok_def demo_libs_def keeps_write intro: eff_error eff_on_writer eff_refl)

lemma down_acts: "acts_as down_sys demo_libs demo_cfg r c = acts_as demo_sys demo_libs demo_cfg r c"
  by (simp add: acts_as_def token_user_def down_sys_def Let_def cong: option.case_cong prod.case_cong)

lemma down_limit: "under_limit down_sys demo_libs demo_cfg r w"
  by (simp add: under_limit_def requests_seen_def incr_expire_def demo_cfg_def Let_def)

lemma down_routed: "routed_to down_sys demo_libs demo_cfg r pat ps = routed_to demo_sys demo_libs demo_cfg r pat ps"
proof -
  have "map (\<lambda>(m, p, _). (m, p)) (routes down_sys demo_libs s) = map (\<lambda>(m, p, _). (m, p)) (routes demo_sys demo_libs s)" for s
    by (simp add: routes_def root_routes_def auth_routes_def admin_routes_def notes_routes_def)
  then show ?thesis by (simp add: routed_to_def)
qed

theorem created_note_is_served_witness:
  "\<exists>w'. w_body (wr (snd (serve down_sys demo_libs demo_cfg ((bearer_req ''tok'')\<lparr>rq_path := ''/notes/1/''\<rparr>) w'))) =
     encode_line (note_json (new_note 1 7 ''a'' ''x'' 100)) \<and>
   (tabs (wdb w'))\<lparr>audit_rows := []\<rparr> =
     empty_tables\<lparr>user_role_rows := [(7, 2)], note_rows := [new_note 1 7 ''a'' ''x'' 100], audit_rows := []\<rparr>"
proof -
  let ?b = "note_body ''a'' ''x''"
  let ?r = "(bearer_req ''tok'')\<lparr>rq_method := ''POST'', rq_path := ''/notes/'', rq_body := ?b\<rparr>"
  let ?r' = "(bearer_req ''tok'')\<lparr>rq_path := ''/notes/1/''\<rparr>"
  let ?w = "world_on (empty_tables\<lparr>user_role_rows := [(7, 2)]\<rparr>)"
  let ?n = "new_note 1 7 ''a'' ''x'' 100"
  have len: "length ?b \<le> 1000" by code_simp
  have body: "limit_body (c_max_body demo_cfg) ?r = ?r"
    using len by (simp add: limit_body_def demo_cfg_def)
  have acts: "acts_as down_sys demo_libs demo_cfg ?r c = Some 7" "acts_as down_sys demo_libs demo_cfg ?r' c = Some 7" for c
  proof -
    have "acts_as demo_sys demo_libs demo_cfg ?r c = acts_as demo_sys demo_libs demo_cfg (bearer_req ''tok'') c"
      "acts_as demo_sys demo_libs demo_cfg ?r' c = acts_as demo_sys demo_libs demo_cfg (bearer_req ''tok'') c"
      by (simp_all add: acts_as_def header_def)
    then show "acts_as down_sys demo_libs demo_cfg ?r c = Some 7" "acts_as down_sys demo_libs demo_cfg ?r' c = Some 7"
      by (simp_all add: down_acts)
  qed
  have role: "holds_scope down_sys demo_libs demo_cfg ''user'' ?r (clock ?w + 2) (wdb ?w) = Some 7"
    by (simp add: holds_scope_def acts role_granted_def holds_role_def)
  have dec: "decode_note (rq_broken ?r) (rq_body ?r) = Some (''a'', ''x'')"
    by (simp add: decode_demo bearer_req_def)
  have n: "?n = new_note (auto_id (senv down_sys) (tick (wdb ?w) + 1)) 7 (trim_space ''a'') ''x'' (now (senv down_sys) (tick (wdb ?w) + 1))"
    by (simp add: trim_samples)
  have fresh: "n_id ?n \<notin> n_id ` set (notes_of (wdb ?w))" by simp
  have post: "rq_method ?r = ''POST''" and get: "rq_method ?r' = ''GET''"
    and plain: "header ?r' ''If-None-Match'' = []" and one: "parse_int (get_or_empty [''id'' \<mapsto> ''1''] ''id'') = (n_id ?n, None)"
    and t: "trim_space ''a'' \<noteq> []"
    by (simp_all add: bearer_req_def header_def get_or_empty_def new_note_def trim_samples)
  have routed: "routed_to down_sys demo_libs demo_cfg ?r ''/notes/'' [''id'' \<mapsto> ''1'']"
    "routed_to down_sys demo_libs demo_cfg ?r' ''/notes/{id}/'' [''id'' \<mapsto> ''1'']"
    by (simp_all add: down_routed demo_routed)
  show ?thesis
    using created_note_is_served [OF down_libs down_sys_simps(1) n fresh post routed(1) down_limit role body dec t refl
        get routed(2) one plain down_limit acts(2)] by auto
qed

section \<open>A new account\<close>

lemma role_assign_tokens: "token_rows (tabs (snd (Roles_Assign e i role d))) = token_rows (tabs d)"
  using role_step_frame [of e "RAssign i role" d] by (auto simp: role_step_def)

lemma register_role:
  assumes "decode_creds r = Some (email, pw)" and "valid_creds S email pw"
    and "roles_ok (senv S) (wdb w)" and "role_known (senv S) ''user'' (wdb w)"
    and "i = auto_id (senv S) (tick (wdb w))" and "i \<notin> u_id ` set (user_rows (tabs (wdb w)))"
    and "\<not> email_taken (senv S) email (user_rows (tabs (wdb w)))"
  shows "holds_role (senv S) i ''user'' (wdb (snd (auth_register S cfg r w)))"
proof -
  let ?d = "\<lparr>tick = Suc (tick (wdb w)), tabs = (tabs (wdb w))\<lparr>user_rows := user_rows (tabs (wdb w)) @
    [\<lparr>u_id = i, u_email = email, u_hash = stored_hash S cfg pw\<rparr>]\<rparr>\<rparr>"
  have okay: "out (senv S) k = Okay" for k using assms(3) by (simp add: roles_ok_def)
  have made: "Users_Create (senv S) email (stored_hash S cfg pw) (wdb w) = (Inr i, ?d)"
    using assms(5-7) okay by (simp add: Users_Create_unfold Let_def)
  have ok: "roles_ok (senv S) ?d" and known: "role_known (senv S) ''user'' ?d"
    using assms(3,4) by (simp_all add: roles_ok_def role_known_def)
  have "wdb (snd (auth_register S cfg r w)) = role_step (senv S) (RAssign i ''user'') ?d"
    using assms(1,2) by (simp add: auth_register_def on_db_eq made answer_def role_step_def Let_def)
  with roles.assigned [OF ok known, of i "''user''" i] show ?thesis by (simp add: text_eq_def)
qed



end
