(* ===== verification/Interleaving.thy ===== *)
theory Interleaving
  imports Sql
begin

text \<open>
  Requests that run at the same time. \<open>net/http\<close> serves every request in a goroutine of its
  own, so the statements of different requests interleave in the database. A repository
  operation is here a program, the tree of its database calls, and a schedule says which
  request makes the next call. Transactions follow the rules of the server on which the
  repositories rely: a statement of a transaction sees the committed rows and the
  transaction's own writes, the writes take effect with the commit, and a statement that
  touches a row locked by another open transaction waits. Fewer locks are modelled than the
  server takes (only those that the statements name), so every interleaving of the server is a
  schedule here; a call that the server ends early (lock wait timeout, deadlock) is an
  outcome other than \<open>Okay\<close>.
\<close>

section \<open>Programs\<close>

text \<open>The name of a lock: a key's collation weight and, where keys are per user, the user.\<close>

type_synonym lock = "string \<times> int"

datatype ('q, 'a) dbprog =
    Ret 'a
  | BeginTx "dberr option \<Rightarrow> ('q, 'a) dbprog"
  | Locking "lock list" "nat \<Rightarrow> tables \<Rightarrow> 'q option" "(dberr, 'q) result \<Rightarrow> ('q, 'a) dbprog"
  | TxExec "lock list" stmt "dberr option \<Rightarrow> ('q, 'a) dbprog"
  | Commit "dberr option \<Rightarrow> ('q, 'a) dbprog"
  | Rollback "('q, 'a) dbprog"
  | Exec "lock list" stmt "(dberr, int) result \<Rightarrow> ('q, 'a) dbprog"
  | Query "nat \<Rightarrow> tables \<Rightarrow> 'q option" "(dberr, 'q) result \<Rightarrow> ('q, 'a) dbprog"

text \<open>An open transaction: the locks it holds and its writes, each with its call number.\<close>

record ctx =
  held :: "lock list"
  writes :: "(nat \<times> stmt) list"

type_synonym ('q, 'a) thread = "('q, 'a) dbprog \<times> ctx option"

definition perform :: "nat \<times> stmt \<Rightarrow> tables \<Rightarrow> tables" where
  "perform w t = (case snd w (fst w) t of None \<Rightarrow> t | Some (_, t') \<Rightarrow> t')"

definition replay :: "(nat \<times> stmt) list \<Rightarrow> tables \<Rightarrow> tables" where
  "replay ws t = fold perform ws t"

lemma replay_Nil [simp]: "replay [] t = t"
  by (simp add: replay_def)

lemma replay_snoc [simp]: "replay (ws @ [w]) t = perform w (replay ws t)"
  by (simp add: replay_def)

lemma db_eta [simp]: "\<lparr>tick = tick d, tabs = tabs d\<rparr> = (d :: db)"
  by simp

definition row_result :: "'q option \<Rightarrow> (dberr, 'q) result" where
  "row_result v = (case v of None \<Rightarrow> Inl NoRows | Some r \<Rightarrow> Inr r)"

text \<open>
  The next call of a thread, number \<open>n\<close>, while \<open>fr\<close> says which locks no other transaction
  holds. \<open>None\<close>: the thread waits, or has returned. A statement outside its transaction's
  lifetime fails, as \<open>sql.ErrTxDone\<close> does.
\<close>

fun call :: "env \<Rightarrow> (lock \<Rightarrow> bool) \<Rightarrow> nat \<Rightarrow> tables \<Rightarrow> ('q, 'a) thread \<Rightarrow>
    (('q, 'a) thread \<times> tables) option" where
  "call e fr n t (Ret a, x) = None"
| "call e fr n t (BeginTx k, x) =
     Some (if out e n = Okay then (k None, Some \<lparr>held = [], writes = []\<rparr>)
           else (k (Some Fault), x), t)"
| "call e fr n t (Locking ls g k, x) =
     (case x of
        None \<Rightarrow> Some ((k (Inl Fault), x), t)
      | Some c \<Rightarrow>
          if out e n \<noteq> Okay then Some ((k (Inl Fault), x), t)
          else if \<not> list_all fr ls then None
          else let v = g n (replay (writes c) t)
               in Some ((k (row_result v), Some (if v = None then c else c\<lparr>held := ls @ held c\<rparr>)), t))"
| "call e fr n t (TxExec ls f k, x) =
     (case x of
        None \<Rightarrow> Some ((k (Some Fault), x), t)
      | Some c \<Rightarrow>
          if out e n \<noteq> Okay then Some ((k (Some Fault), x), t)
          else if \<not> list_all fr ls then None
          else if f n (replay (writes c) t) = None then Some ((k (Some Duplicate), x), t)
          else Some ((k None, Some \<lparr>held = ls @ held c, writes = writes c @ [(n, f)]\<rparr>), t))"
| "call e fr n t (Commit k, x) =
     (case x of
        None \<Rightarrow> Some ((k (Some Fault), x), t)
      | Some c \<Rightarrow>
          (case out e n of
             Okay \<Rightarrow> Some ((k None, None), replay (writes c) t)
           | Refused \<Rightarrow> Some ((k (Some Fault), None), t)
           | Lost \<Rightarrow> Some ((k (Some Fault), None), replay (writes c) t)))"
| "call e fr n t (Rollback p, x) = Some ((p, None), t)"
| "call e fr n t (Exec ls f k, x) =
     (if out e n = Refused then Some ((k (Inl Fault), x), t)
      else if \<not> list_all fr ls then None
      else case f n t of
             None \<Rightarrow> Some ((k (Inl (if out e n = Okay then Duplicate else Fault)), x), t)
           | Some (i, t') \<Rightarrow> Some ((k (if out e n = Okay then Inr i else Inl Fault), x), t'))"
| "call e fr n t (Query g k, x) =
     Some ((k (if out e n = Okay then row_result (g n t) else Inl Fault), x), t)"

section \<open>Schedules\<close>

record ('q, 'a) pool =
  calls_made :: nat
  store :: tables
  threads :: "('q, 'a) thread list"

definition holds :: "lock \<Rightarrow> ('q, 'a) thread \<Rightarrow> bool" where
  "holds l th \<longleftrightarrow> (case snd th of None \<Rightarrow> False | Some c \<Rightarrow> l \<in> set (held c))"

definition free_for :: "('q, 'a) thread list \<Rightarrow> nat \<Rightarrow> lock \<Rightarrow> bool" where
  "free_for ths i l \<longleftrightarrow> list_all (\<lambda>j. j = i \<or> \<not> holds l (ths ! j)) [0..<length ths]"

text \<open>Request \<open>i\<close> makes its next call, if it has one and need not wait.\<close>

definition cstep :: "env \<Rightarrow> nat \<Rightarrow> ('q, 'a) pool \<Rightarrow> ('q, 'a) pool" where
  "cstep e i s =
     (if i < length (threads s)
      then case call e (free_for (threads s) i) (calls_made s) (store s) (threads s ! i) of
             None \<Rightarrow> s
           | Some (th, t) \<Rightarrow>
               \<lparr>calls_made = Suc (calls_made s), store = t, threads = (threads s)[i := th]\<rparr>
      else s)"

definition crun :: "env \<Rightarrow> nat list \<Rightarrow> ('q, 'a) pool \<Rightarrow> ('q, 'a) pool" where
  "crun e sched s = fold (cstep e) sched s"

definition launch :: "db \<Rightarrow> ('q, 'a) dbprog list \<Rightarrow> ('q, 'a) pool" where
  "launch d ps = \<lparr>calls_made = tick d, store = tabs d, threads = map (\<lambda>p. (p, None)) ps\<rparr>"

fun answer_of :: "('q, 'a) thread \<Rightarrow> 'a option" where
  "answer_of (Ret a, x) = Some a"
| "answer_of _ = None"

definition answers :: "('q, 'a) pool \<Rightarrow> 'a option list" where
  "answers s = map answer_of (threads s)"

lemma crun_simps [simp]:
  "crun e [] s = s" "crun e (i # is) s = crun e is (cstep e i s)"
  by (simp_all add: crun_def)

lemma crun_append: "crun e (is @ js) s = crun e js (crun e is s)"
  by (simp add: crun_def)

lemma length_cstep [simp]: "length (threads (cstep e i s)) = length (threads s)"
  by (auto simp: cstep_def split: option.splits)

lemma length_crun [simp]: "length (threads (crun e is s)) = length (threads s)"
  by (induction "is" arbitrary: s) simp_all

lemma free_forD: "free_for ths i l \<Longrightarrow> j < length ths \<Longrightarrow> holds l (ths ! j) \<Longrightarrow> j = i"
  by (auto simp: free_for_def list_all_iff)

text \<open>A property that every step keeps holds after every schedule.\<close>

lemma crun_invariant:
  "I s \<Longrightarrow> (\<And>i s. I s \<Longrightarrow> I (cstep e i s)) \<Longrightarrow> I (crun e is s)"
  by (induction "is" arbitrary: s) auto

section \<open>A request that nobody interrupts\<close>

text \<open>The program run to its end with the database to itself.\<close>

primrec solo :: "env \<Rightarrow> ('q, 'a) dbprog \<Rightarrow> ctx option \<Rightarrow> nat \<Rightarrow> tables \<Rightarrow> 'a \<times> nat \<times> tables" where
  "solo e (Ret a) x n t = (a, n, t)"
| "solo e (BeginTx k) x n t =
     (if out e n = Okay then solo e (k None) (Some \<lparr>held = [], writes = []\<rparr>) (Suc n) t
      else solo e (k (Some Fault)) x (Suc n) t)"
| "solo e (Locking ls g k) x n t =
     (case x of
        None \<Rightarrow> solo e (k (Inl Fault)) x (Suc n) t
      | Some c \<Rightarrow>
          if out e n \<noteq> Okay then solo e (k (Inl Fault)) x (Suc n) t
          else let v = g n (replay (writes c) t)
               in solo e (k (row_result v)) (Some (if v = None then c else c\<lparr>held := ls @ held c\<rparr>))
                    (Suc n) t)"
| "solo e (TxExec ls f k) x n t =
     (case x of
        None \<Rightarrow> solo e (k (Some Fault)) x (Suc n) t
      | Some c \<Rightarrow>
          if out e n \<noteq> Okay then solo e (k (Some Fault)) x (Suc n) t
          else if f n (replay (writes c) t) = None then solo e (k (Some Duplicate)) x (Suc n) t
          else solo e (k None) (Some \<lparr>held = ls @ held c, writes = writes c @ [(n, f)]\<rparr>) (Suc n) t)"
| "solo e (Commit k) x n t =
     (case x of
        None \<Rightarrow> solo e (k (Some Fault)) x (Suc n) t
      | Some c \<Rightarrow>
          (case out e n of
             Okay \<Rightarrow> solo e (k None) None (Suc n) (replay (writes c) t)
           | Refused \<Rightarrow> solo e (k (Some Fault)) None (Suc n) t
           | Lost \<Rightarrow> solo e (k (Some Fault)) None (Suc n) (replay (writes c) t)))"
| "solo e (Rollback p) x n t = solo e p None (Suc n) t"
| "solo e (Exec ls f k) x n t =
     (if out e n = Refused then solo e (k (Inl Fault)) x (Suc n) t
      else case f n t of
             None \<Rightarrow> solo e (k (Inl (if out e n = Okay then Duplicate else Fault))) x (Suc n) t
           | Some (i, t') \<Rightarrow> solo e (k (if out e n = Okay then Inr i else Inl Fault)) x (Suc n) t')"
| "solo e (Query g k) x n t =
     solo e (k (if out e n = Okay then row_result (g n t) else Inl Fault)) x (Suc n) t"

lemma solo_call:
  "call e (\<lambda>_. True) n t (p, x) = Some ((p', x'), t') \<Longrightarrow>
   solo e p x n t = solo e p' x' (Suc n) t'"
  by (cases p) (auto simp: Let_def split: option.splits outcome.splits if_splits)

lemma call_returned: "call e (\<lambda>_. True) n t (p, x) = None \<Longrightarrow> \<exists>a. p = Ret a"
  by (cases p) (auto simp: Let_def list_all_iff split: option.splits outcome.splits if_splits)

text \<open>Every call leaves one of the program's branches to run, so every program ends.\<close>

fun branches :: "('q, 'a) dbprog \<Rightarrow> ('q, 'a) dbprog set" where
  "branches (Ret a) = {}"
| "branches (BeginTx k) = range k"
| "branches (Locking ls g k) = range k"
| "branches (TxExec ls f k) = range k"
| "branches (Commit k) = range k"
| "branches (Rollback p) = {p}"
| "branches (Exec ls f k) = range k"
| "branches (Query g k) = range k"

lemma dbprog_branch_induct [case_names branch]:
  assumes "\<And>p. (\<And>p'. p' \<in> branches p \<Longrightarrow> P p') \<Longrightarrow> P p"
  shows "P p"
  by (induction p) (rule assms; auto)+

lemma call_branch: "call e fr n t (p, x) = Some ((p', x'), t') \<Longrightarrow> p' \<in> branches p"
  by (cases p) (auto simp: Let_def split: option.splits outcome.splits if_splits)

definition no_other_locks :: "nat \<Rightarrow> ('q, 'a) pool \<Rightarrow> bool" where
  "no_other_locks i s \<longleftrightarrow> (\<forall>j l. j < length (threads s) \<longrightarrow> j \<noteq> i \<longrightarrow> \<not> holds l (threads s ! j))"

lemma no_other_locks_free: "no_other_locks i s \<Longrightarrow> free_for (threads s) i = (\<lambda>_. True)"
  by (intro ext) (auto simp: no_other_locks_def free_for_def list_all_iff)

lemma runs_alone:
  assumes "i < length (threads s)" and "no_other_locks i s" and "threads s ! i = (p, x)"
    and "solo e p x (calls_made s) (store s) = (a, n, t)"
  shows "\<exists>k x'. crun e (replicate k i) s =
    \<lparr>calls_made = n, store = t, threads = (threads s)[i := (Ret a, x')]\<rparr>"
  using assms
proof (induction p arbitrary: x s rule: dbprog_branch_induct)
  case (branch p)
  show ?case
  proof (cases "call e (\<lambda>_. True) (calls_made s) (store s) (p, x)")
    case None
    then obtain b where "p = Ret b" using call_returned by blast
    with branch.prems have "threads s ! i = (Ret a, x)" "n = calls_made s" "t = store s" by auto
    then have "crun e (replicate 0 i) s =
        \<lparr>calls_made = n, store = t, threads = (threads s)[i := (Ret a, x)]\<rparr>"
      by (metis crun_simps(1) list_update_id pool.surjective replicate_empty old.unit.exhaust)
    then show ?thesis by blast
  next
    case (Some y)
    then obtain p' x' t' where c: "call e (\<lambda>_. True) (calls_made s) (store s) (p, x) = Some ((p', x'), t')"
      by (cases y) auto
    let ?s = "\<lparr>calls_made = Suc (calls_made s), store = t', threads = (threads s)[i := (p', x')]\<rparr>"
    have step: "cstep e i s = ?s"
      using branch.prems c by (simp add: cstep_def no_other_locks_free)
    have "\<exists>k x''. crun e (replicate k i) ?s =
        \<lparr>calls_made = n, store = t, threads = (threads ?s)[i := (Ret a, x'')]\<rparr>"
    proof (rule branch.IH)
      show "p' \<in> branches p" using c by (rule call_branch)
      show "no_other_locks i ?s" using branch.prems(2) by (simp add: no_other_locks_def)
      show "solo e p' x' (calls_made ?s) (store ?s) = (a, n, t)"
        using solo_call [OF c] branch.prems(4) by simp
    qed (use branch.prems in simp_all)
    then obtain k x'' where "crun e (replicate (Suc k) i) s =
        \<lparr>calls_made = n, store = t, threads = (threads s)[i := (Ret a, x'')]\<rparr>"
      by (auto simp: step)
    then show ?thesis by blast
  qed
qed

end
