(* ===== verification/Contest.thy ===== *)
theory Contest
  imports Interleaving
begin

text \<open>
  When many requests at once reach for something that only one of them may have: a refresh
  token to rotate, an idempotency key to claim. The discipline says of a program that it
  declares a win only after a transaction that held the lock of the thing, found it unspent
  under that lock, spent it and was committed, and that it never makes a spent thing unspent.
  The locale \<open>contest\<close> concludes that under every schedule at most one request wins.
\<close>

section \<open>Statements and a thing that can be spent\<close>

definition keeps_sp :: "(tables \<Rightarrow> bool) \<Rightarrow> stmt \<Rightarrow> bool" where
  "keeps_sp sp f \<longleftrightarrow> (\<forall>n t i t'. sp t \<longrightarrow> f n t = Some (i, t') \<longrightarrow> sp t')"

definition spends :: "(tables \<Rightarrow> bool) \<Rightarrow> stmt \<Rightarrow> bool" where
  "spends sp f \<longleftrightarrow> (\<forall>n t. case f n t of None \<Rightarrow> sp t | Some (i, t') \<Rightarrow> sp t')"

definition needs_unspent :: "(tables \<Rightarrow> bool) \<Rightarrow> stmt \<Rightarrow> bool" where
  "needs_unspent sp f \<longleftrightarrow> (\<forall>n t. sp t \<longrightarrow> f n t = None)"

definition sees_unspent ::
  "(tables \<Rightarrow> bool) \<Rightarrow> ('q \<Rightarrow> bool) \<Rightarrow> (nat \<Rightarrow> tables \<Rightarrow> 'q option) \<Rightarrow> bool" where
  "sees_unspent sp un g \<longleftrightarrow> (\<forall>n t v. sp t \<longrightarrow> g n t = Some v \<longrightarrow> \<not> un v)"

lemma perform_keeps: "keeps_sp sp (snd w) \<Longrightarrow> sp t \<Longrightarrow> sp (perform w t)"
  by (auto simp: keeps_sp_def perform_def split: option.splits)

lemma perform_spends: "spends sp (snd w) \<Longrightarrow> sp (perform w t)"
  unfolding spends_def perform_def by (metis (mono_tags, lifting) case_prod_beta option.case_eq_if)

lemma replay_keeps: "list_all (\<lambda>w. keeps_sp sp (snd w)) ws \<Longrightarrow> sp t \<Longrightarrow> sp (replay ws t)"
  by (induction ws arbitrary: t) (auto simp: replay_def perform_keeps)

section \<open>The discipline\<close>

text \<open>
  How far a request has come: it holds the lock and found the thing unspent (\<open>Owner\<close>), its
  transaction spends it (\<open>Marked\<close>), that transaction was committed (\<open>Won\<close>).
\<close>

datatype phase = Out | Owner | Marked | Won

definition unmarked :: "phase \<Rightarrow> phase" where
  "unmarked ph = (if ph = Won then Won else Out)"

definition published :: "phase \<Rightarrow> phase" where
  "published ph = (if ph = Marked \<or> ph = Won then Won else Out)"

definition selected :: "lock \<Rightarrow> ('q \<Rightarrow> bool) \<Rightarrow> lock list \<Rightarrow> 'q \<Rightarrow> phase \<Rightarrow> phase" where
  "selected lk un ls v ph = (if ph = Out \<and> lk \<in> set ls \<and> un v then Owner else ph)"

definition executed :: "lock \<Rightarrow> (tables \<Rightarrow> bool) \<Rightarrow> lock list \<Rightarrow> stmt \<Rightarrow> phase \<Rightarrow> phase" where
  "executed lk sp ls f ph =
     (if ph = Owner \<and> spends sp f \<or> ph = Out \<and> spends sp f \<and> needs_unspent sp f \<and> lk \<in> set ls
      then Marked else ph)"

primrec disciplined ::
  "env \<Rightarrow> lock \<Rightarrow> (tables \<Rightarrow> bool) \<Rightarrow> ('q \<Rightarrow> bool) \<Rightarrow> ('a \<Rightarrow> bool) \<Rightarrow> ('q, 'a) dbprog \<Rightarrow>
   phase \<Rightarrow> bool" where
  "disciplined e lk sp un win (Ret a) ph \<longleftrightarrow> (win a \<longrightarrow> ph = Won)"
| "disciplined e lk sp un win (BeginTx k) ph \<longleftrightarrow>
     unmarked ph = ph \<and> (\<forall>r. disciplined e lk sp un win (k r) ph)"
| "disciplined e lk sp un win (Locking ls g k) ph \<longleftrightarrow>
     (lk \<in> set ls \<longrightarrow> sees_unspent sp un g) \<and>
     (\<forall>er. disciplined e lk sp un win (k (Inl er)) ph) \<and>
     (\<forall>v. disciplined e lk sp un win (k (Inr v)) (selected lk un ls v ph))"
| "disciplined e lk sp un win (TxExec ls f k) ph \<longleftrightarrow>
     keeps_sp sp f \<and> (\<forall>er. disciplined e lk sp un win (k (Some er)) ph) \<and>
     disciplined e lk sp un win (k None) (executed lk sp ls f ph)"
| "disciplined e lk sp un win (Commit k) ph \<longleftrightarrow>
     (\<forall>r. disciplined e lk sp un win (k r) (published ph)) \<and>
     ((\<exists>n. out e n = Refused) \<longrightarrow> disciplined e lk sp un win (k (Some Fault)) (unmarked ph))"
| "disciplined e lk sp un win (Rollback p) ph \<longleftrightarrow> disciplined e lk sp un win p (unmarked ph)"
| "disciplined e lk sp un win (Exec ls f k) ph \<longleftrightarrow>
     keeps_sp sp f \<and> (\<forall>r. disciplined e lk sp un win (k r) ph)"
| "disciplined e lk sp un win (Query g k) ph \<longleftrightarrow> (\<forall>r. disciplined e lk sp un win (k r) ph)"

section \<open>The invariant of a contest\<close>

definition in_phase ::
  "env \<Rightarrow> lock \<Rightarrow> (tables \<Rightarrow> bool) \<Rightarrow> ('q \<Rightarrow> bool) \<Rightarrow> ('a \<Rightarrow> bool) \<Rightarrow> phase \<Rightarrow> ('q, 'a) thread \<Rightarrow> bool" where
  "in_phase e lk sp un win ph th \<longleftrightarrow>
     disciplined e lk sp un win (fst th) ph \<and>
     (case snd th of
        None \<Rightarrow> unmarked ph = ph
      | Some c \<Rightarrow> list_all (\<lambda>w. keeps_sp sp (snd w)) (writes c) \<and>
          (ph = Owner \<or> ph = Marked \<longrightarrow> lk \<in> set (held c)) \<and>
          (ph = Marked \<longrightarrow> (\<forall>t. sp (replay (writes c) t))))"

text \<open>One call of one thread, seen from the others.\<close>

lemma phase_step:
  assumes "call e fr n t th = Some (th', t')" and "in_phase e lk sp un win ph th"
  shows "\<exists>ph'. in_phase e lk sp un win ph' th' \<and> (sp t \<longrightarrow> sp t') \<and>
    (ph' = Won \<longrightarrow> ph = Won \<or> ph = Marked \<and> sp t') \<and>
    (ph' = Owner \<or> ph' = Marked \<longrightarrow> ph = Owner \<or> ph = Marked \<or> \<not> sp t) \<and>
    (holds lk th' \<longrightarrow> holds lk th \<or> fr lk) \<and>
    (ph = Won \<longrightarrow> ph' = Won)"
proof -
  obtain p x where th: "th = (p, x)" by (cases th)
  show ?thesis
  proof (cases p)
    case (Ret a)
    with assms(1) th show ?thesis by simp
  next
    case (BeginTx k)
    with assms th show ?thesis
      by (intro exI [of _ ph])
        (auto simp: in_phase_def holds_def unmarked_def split: if_splits option.splits)
  next
    case (Locking ls g k)
    show ?thesis
    proof (cases "\<exists>c v. x = Some c \<and> out e n = Okay \<and> g n (replay (writes c) t) = Some v")
      case True
      then obtain c v where cv: "x = Some c" "out e n = Okay" "g n (replay (writes c) t) = Some v"
        by blast
      have "ph = Out \<Longrightarrow> sp t \<Longrightarrow> lk \<in> set ls \<Longrightarrow> \<not> un v"
        using assms(2) th Locking cv
        by (auto simp: in_phase_def sees_unspent_def dest: replay_keeps)
      with assms th Locking cv show ?thesis
        by (intro exI [of _ "selected lk un ls v ph"])
          (auto simp: in_phase_def holds_def selected_def row_result_def list_all_iff
            split: if_splits)
    next
      case False
      with assms th Locking show ?thesis
        by (intro exI [of _ ph])
          (auto simp: in_phase_def holds_def row_result_def Let_def split: if_splits option.splits)
    qed
  next
    case (TxExec ls f k)
    show ?thesis
    proof (cases "\<exists>c. x = Some c \<and> out e n = Okay \<and> f n (replay (writes c) t) \<noteq> None")
      case True
      then obtain c where c: "x = Some c" "out e n = Okay" "f n (replay (writes c) t) \<noteq> None"
        by blast
      have out: "\<not> (sp t \<and> needs_unspent sp f)"
        using assms(2) th TxExec c
        by (auto simp: in_phase_def needs_unspent_def dest: replay_keeps)
      have "keeps_sp sp f"
        using assms(2) th TxExec by (simp add: in_phase_def)
      with assms th TxExec c out show ?thesis
        by (intro exI [of _ "executed lk sp ls f ph"])
          (auto simp: in_phase_def holds_def executed_def list_all_iff perform_spends
            perform_keeps split: if_splits)
    next
      case False
      with assms th TxExec show ?thesis
        by (intro exI [of _ ph])
          (auto simp: in_phase_def holds_def split: if_splits option.splits)
    qed
  next
    case (Commit k)
    show ?thesis
    proof (cases x)
      case None
      with assms(2) th have "published ph = ph"
        by (auto simp: in_phase_def unmarked_def published_def split: if_splits)
      with assms th Commit None show ?thesis
        by (intro exI [of _ ph]) (auto simp: in_phase_def holds_def)
    next
      case (Some c)
      show ?thesis
      proof (cases "out e n = Refused")
        case True
        with assms th Commit Some show ?thesis
          by (intro exI [of _ "unmarked ph"]) (auto simp: in_phase_def holds_def unmarked_def)
      next
        case False
        with assms th Commit Some show ?thesis
          by (intro exI [of _ "published ph"])
            (auto simp: in_phase_def holds_def unmarked_def published_def replay_keeps
              split: outcome.splits)
      qed
    qed
  next
    case (Rollback q)
    with assms th show ?thesis
      by (intro exI [of _ "unmarked ph"]) (auto simp: in_phase_def holds_def unmarked_def)
  next
    case (Exec ls f k)
    with assms th have keeps: "\<And>n t i t'. sp t \<Longrightarrow> f n t = Some (i, t') \<Longrightarrow> sp t'"
      by (simp add: in_phase_def keeps_sp_def)
    show ?thesis
      using assms th Exec
      by (intro exI [of _ ph])
        (auto simp: in_phase_def holds_def split: if_splits option.splits dest: keeps)
  next
    case (Query g k)
    with assms th show ?thesis
      by (intro exI [of _ ph]) (auto simp: in_phase_def holds_def)
  qed
qed

definition contest_inv ::
  "env \<Rightarrow> lock \<Rightarrow> (tables \<Rightarrow> bool) \<Rightarrow> ('q \<Rightarrow> bool) \<Rightarrow> ('a \<Rightarrow> bool) \<Rightarrow> (nat \<Rightarrow> phase) \<Rightarrow>
   ('q, 'a) pool \<Rightarrow> bool" where
  "contest_inv e lk sp un win phs s \<longleftrightarrow>
     (\<forall>i<length (threads s). in_phase e lk sp un win (phs i) (threads s ! i)) \<and>
     (\<forall>i<length (threads s). \<forall>j<length (threads s).
        holds lk (threads s ! i) \<longrightarrow> holds lk (threads s ! j) \<longrightarrow> i = j) \<and>
     (\<forall>i<length (threads s). phs i = Won \<longrightarrow>
        sp (store s) \<and> (\<forall>j<length (threads s). j \<noteq> i \<longrightarrow> phs j = Out))"

lemma owner_holds: "in_phase e lk sp un win ph th \<Longrightarrow> ph = Owner \<or> ph = Marked \<Longrightarrow> holds lk th"
  by (auto simp: in_phase_def holds_def unmarked_def split: option.splits)

lemma contest_phase:
  "contest_inv e lk sp un win phs s \<Longrightarrow> i < length (threads s) \<Longrightarrow>
   in_phase e lk sp un win (phs i) (threads s ! i)"
  by (simp add: contest_inv_def)

lemma contest_lock:
  "contest_inv e lk sp un win phs s \<Longrightarrow> i < length (threads s) \<Longrightarrow> j < length (threads s) \<Longrightarrow>
   holds lk (threads s ! i) \<Longrightarrow> holds lk (threads s ! j) \<Longrightarrow> i = j"
  unfolding contest_inv_def by blast

lemma contest_won:
  "contest_inv e lk sp un win phs s \<Longrightarrow> i < length (threads s) \<Longrightarrow> phs i = Won \<Longrightarrow>
   sp (store s) \<and> (\<forall>j<length (threads s). j \<noteq> i \<longrightarrow> phs j = Out)"
  unfolding contest_inv_def by blast

lemma one_holder_update:
  assumes "i < length ths" and "holds l (ths[i := th] ! j)" and "holds l (ths[i := th] ! k)"
    and "\<And>j k. j < length ths \<Longrightarrow> k < length ths \<Longrightarrow> holds l (ths ! j) \<Longrightarrow> holds l (ths ! k) \<Longrightarrow> j = k"
    and "\<And>j. holds l th \<Longrightarrow> j < length ths \<Longrightarrow> holds l (ths ! j) \<Longrightarrow> j = i"
    and "j < length ths" and "k < length ths"
  shows "j = k"
proof (cases "j = i \<or> k = i")
  case True
  then show ?thesis
    using assms(1-3,5-7) by (metis nth_list_update_eq nth_list_update_neq)
next
  case False
  with assms(2,3) have "holds l (ths ! j)" "holds l (ths ! k)" by simp_all
  then show ?thesis by (rule assms(4) [OF assms(6,7)])
qed

lemma marked_alone:
  assumes "contest_inv e lk sp un win phs s" and "i < length (threads s)" and "phs i = Marked"
    and "j < length (threads s)" and "j \<noteq> i"
  shows "phs j = Out"
proof (cases "phs j")
  case Won
  with contest_won [OF assms(1,4)] assms show ?thesis by simp
qed (use assms contest_lock [OF assms(1,2,4)] contest_phase [OF assms(1,2)]
    contest_phase [OF assms(1,4)] in \<open>auto dest: owner_holds\<close>)

lemma contest_step:
  assumes inv: "contest_inv e lk sp un win phs s"
  shows "\<exists>phs'. contest_inv e lk sp un win phs' (cstep e i s)"
proof (cases "i < length (threads s) \<and>
    call e (free_for (threads s) i) (calls_made s) (store s) (threads s ! i) \<noteq> None")
  case False
  then have "cstep e i s = s" by (auto simp: cstep_def split: option.splits)
  with inv show ?thesis by auto
next
  case True
  then obtain th t where i: "i < length (threads s)"
    and c: "call e (free_for (threads s) i) (calls_made s) (store s) (threads s ! i) = Some (th, t)"
    by auto
  have ph: "in_phase e lk sp un win (phs i) (threads s ! i)"
    using inv i by (rule contest_phase)
  obtain ph' where p: "in_phase e lk sp un win ph' th" "sp (store s) \<longrightarrow> sp t"
    "ph' = Won \<longrightarrow> phs i = Won \<or> phs i = Marked \<and> sp t"
    "ph' = Owner \<or> ph' = Marked \<longrightarrow> phs i = Owner \<or> phs i = Marked \<or> \<not> sp (store s)"
    "holds lk th \<longrightarrow> holds lk (threads s ! i) \<or> free_for (threads s) i lk"
    "phs i = Won \<longrightarrow> ph' = Won"
    using phase_step [OF c ph] by blast
  have alone: "l = i" if "holds lk th" "l < length (threads s)" "holds lk (threads s ! l)" for l
    using contest_lock [OF inv i, of l] p(5) free_forD [of "threads s" i lk l] that by blast
  have step: "cstep e i s = \<lparr>calls_made = Suc (calls_made s), store = t, threads = (threads s)[i := th]\<rparr>"
    using i c by (simp add: cstep_def)
  have "contest_inv e lk sp un win (phs(i := ph')) (cstep e i s)"
    unfolding contest_inv_def step
  proof (intro conjI allI impI; simp only: pool.simps length_list_update)
    fix j assume "j < length (threads s)"
    then show "in_phase e lk sp un win ((phs(i := ph')) j) ((threads s)[i := th] ! j)"
      using contest_phase [OF inv] p(1) by (simp add: nth_list_update)
  next
    fix j k
    assume "j < length (threads s)" "k < length (threads s)"
      "holds lk ((threads s)[i := th] ! j)" "holds lk ((threads s)[i := th] ! k)"
    from one_holder_update [OF i this(3,4) contest_lock [OF inv] alone this(1,2)] show "j = k" .
  next
    fix j assume j: "j < length (threads s)" "(phs(i := ph')) j = Won"
    show "sp t"
    proof (cases "j = i")
      case True
      with j(2) have "ph' = Won" by simp
      with p(2,3) contest_won [OF inv i] show ?thesis by blast
    next
      case False
      with j(2) have "phs j = Won" by simp
      with p(2) contest_won [OF inv j(1)] show ?thesis by blast
    qed
    fix k assume k: "k < length (threads s)" "k \<noteq> j"
    have "phs k = Out" if "k \<noteq> i"
    proof (cases "j = i")
      case True
      with j(2) have "ph' = Won" by simp
      with p(3) consider "phs i = Won" | "phs i = Marked" by blast
      then show ?thesis
        using contest_won [OF inv i] marked_alone [OF inv i _ k(1) that] k(1) that by cases blast+
    next
      case False
      with j(2) have "phs j = Won" by simp
      then show ?thesis using contest_won [OF inv j(1)] k by blast
    qed
    moreover have "ph' = Out" if "k = i"
    proof -
      from that k(2) j(2) have "phs j = Won" by simp
      with contest_won [OF inv j(1)] i k(2) that have "sp (store s)" "phs i = Out" by blast+
      with p(3,4) show ?thesis by (cases ph') simp_all
    qed
    ultimately show "(phs(i := ph')) k = Out" by simp
  qed
  then show ?thesis by blast
qed

lemma contest_run:
  "contest_inv e lk sp un win phs s \<Longrightarrow> \<exists>phs'. contest_inv e lk sp un win phs' (crun e is s)"
  using crun_invariant [of "\<lambda>s. \<exists>phs. contest_inv e lk sp un win phs s" s e "is"]
    contest_step by blast

section \<open>At most one winner\<close>

definition winners :: "('a \<Rightarrow> bool) \<Rightarrow> ('q, 'a) pool \<Rightarrow> nat" where
  "winners win s = length (filter (\<lambda>r. case r of None \<Rightarrow> False | Some a \<Rightarrow> win a) (answers s))"

lemma at_most_one_index:
  assumes "\<And>i j. i < length xs \<Longrightarrow> j < length xs \<Longrightarrow> P (xs ! i) \<Longrightarrow> P (xs ! j) \<Longrightarrow> i = j"
  shows "length (filter P xs) \<le> 1"
proof -
  have "card {i. i < length xs \<and> P (xs ! i)} \<le> Suc 0"
    using assms by (subst card_le_Suc0_iff_eq) auto
  then show ?thesis by (simp add: length_filter_conv_card)
qed

text \<open>Programs \<open>prog\<close> of operations that are allowed to run (\<open>fair\<close>) follow the discipline.\<close>

locale contest =
  fixes e :: env and lk :: lock and sp :: "tables \<Rightarrow> bool" and un :: "'q \<Rightarrow> bool"
    and win :: "'a \<Rightarrow> bool" and prog :: "'op \<Rightarrow> ('q, 'a) dbprog" and fair :: "'op \<Rightarrow> bool"
  assumes follows: "fair op \<Longrightarrow> disciplined e lk sp un win (prog op) Out"
begin

lemma launched: "list_all fair ops \<Longrightarrow> contest_inv e lk sp un win (\<lambda>_. Out) (launch d (map prog ops))"
  by (auto simp: contest_inv_def launch_def in_phase_def unmarked_def holds_def list_all_length follows)

lemma one_winner:
  assumes "list_all fair ops"
    and "answers (crun e sched (launch d (map prog ops))) ! i = Some a" and "win a"
    and "answers (crun e sched (launch d (map prog ops))) ! j = Some b" and "win b"
    and "i < length ops" and "j < length ops"
  shows "i = j"
proof -
  let ?s = "crun e sched (launch d (map prog ops))"
  obtain phs where inv: "contest_inv e lk sp un win phs ?s"
    using contest_run launched [OF assms(1)] by blast
  have len: "length (threads ?s) = length ops"
    by (simp add: launch_def)
  have won: "phs k = Won" if "answers ?s ! k = Some c" "win c" "k < length ops" for k c
  proof -
    have "answer_of (threads ?s ! k) = Some c"
      using that len by (simp add: answers_def)
    then obtain x where "threads ?s ! k = (Ret c, x)"
      by (cases "threads ?s ! k"; cases "fst (threads ?s ! k)") auto
    moreover have "in_phase e lk sp un win (phs k) (threads ?s ! k)"
      using inv that(3) len by (simp add: contest_inv_def)
    ultimately show ?thesis using that(2) by (simp add: in_phase_def)
  qed
  have "phs i = Won" "phs j = Won" using won assms by blast+
  then show ?thesis
    using inv assms(6,7) unfolding contest_inv_def len by (metis phase.distinct(5))
qed

lemma at_most_one_winner:
  assumes "list_all fair ops"
  shows "winners win (crun e sched (launch d (map prog ops))) \<le> 1"
  unfolding winners_def
proof (rule at_most_one_index)
  let ?as = "answers (crun e sched (launch d (map prog ops)))"
  fix i j
  assume ij: "i < length ?as" "j < length ?as"
    and w: "case ?as ! i of None \<Rightarrow> False | Some a \<Rightarrow> win a" "case ?as ! j of None \<Rightarrow> False | Some a \<Rightarrow> win a"
  have "length ?as = length ops" by (simp add: answers_def launch_def)
  with ij have "i < length ops" "j < length ops" by simp_all
  moreover from w obtain a b where "?as ! i = Some a" "win a" "?as ! j = Some b" "win b"
    by (auto split: option.splits)
  ultimately show "i = j" using one_winner [OF assms] by blast
qed

lemma winner_spends:
  assumes "list_all fair ops" and "i < length ops"
    and "answers (crun e sched (launch d (map prog ops))) ! i = Some a" and "win a"
  shows "sp (store (crun e sched (launch d (map prog ops))))"
proof -
  let ?s = "crun e sched (launch d (map prog ops))"
  obtain phs where inv: "contest_inv e lk sp un win phs ?s"
    using contest_run launched [OF assms(1)] by blast
  have len: "length (threads ?s) = length ops" by (simp add: launch_def)
  then obtain x where "threads ?s ! i = (Ret a, x)"
    using assms by (cases "threads ?s ! i"; cases "fst (threads ?s ! i)") (auto simp: answers_def)
  moreover have "in_phase e lk sp un win (phs i) (threads ?s ! i)"
    using inv assms(2) unfolding contest_inv_def len by blast
  ultimately have "phs i = Won"
    using assms(4) by (simp add: in_phase_def)
  then show ?thesis
    using inv assms(2) unfolding contest_inv_def len by blast
qed

end

end
