(* ===== verification/Token_Races.thy ===== *)
theory Token_Races
  imports Contest Refresh_Tokens
begin

text \<open>
  The operations of \<open>internal/repos/refresh\_tokens.go\<close> as programs of database calls, for
  requests that run at the same time. The lock that matters is the row lock of
  \<open>SELECT ... FOR UPDATE\<close>, which the UPDATE, the INSERT and the DELETE of the same token respect;
  the DELETE of a whole family takes no lock here, so more interleavings are covered than the
  server allows.
\<close>

datatype tok_answer =
    Issued "string \<times> dberr option"
  | Used "int \<times> bool \<times> dberr option"
  | Rotated "int \<times> string \<times> bool \<times> dberr option"
  | Revoked "dberr option"

type_synonym tok_program = "(int \<times> int option, tok_op \<times> tok_answer) dbprog"

definition token_lock :: "env \<Rightarrow> string \<Rightarrow> lock" where
  "token_lock e tok = (weight e tok, 0)"

definition issue_prog :: "env \<Rightarrow> int \<Rightarrow> int \<Rightarrow> 8 word list \<Rightarrow> tok_program" where
  "issue_prog e uid expiry b =
     (let tok = hex_encode b; ret = (\<lambda>r. Ret (TIssue uid expiry b, Issued r))
      in Exec [token_lock e tok] (ins_token e tok uid expiry) (\<lambda>r. case r of
           Inl er \<Rightarrow> ret (tok, Some er)
         | Inr _ \<Rightarrow> ret (tok, None)))"

definition use_prog :: "env \<Rightarrow> string \<Rightarrow> tok_program" where
  "use_prog e token =
     (let ret = (\<lambda>r. Ret (TUse token, Used r)); l = token_lock e token
      in BeginTx (\<lambda>r. case r of
           Some er \<Rightarrow> ret (0, False, Some er)
         | None \<Rightarrow>
         Locking [l] (sel_token e token) (\<lambda>r. case r of
           Inl er \<Rightarrow> Rollback (ret (0, False, Some er))
         | Inr (uid, usedAt) \<Rightarrow>
         TxExec [l] (upd_used e token) (\<lambda>r. case r of
           Some er \<Rightarrow> Rollback (ret (0, False, Some er))
         | None \<Rightarrow>
             if usedAt \<noteq> None
             then TxExec [] (del_active e uid) (\<lambda>_. Commit (\<lambda>err. ret (uid, True, err)))
             else Commit (\<lambda>err. ret (uid, False, err))))))"

definition rotate_prog :: "env \<Rightarrow> string \<Rightarrow> int \<Rightarrow> 8 word list \<Rightarrow> tok_program" where
  "rotate_prog e token newExp b =
     (let ret = (\<lambda>r. Ret (TRotate token newExp b, Rotated r)); l = token_lock e token;
          newTok = hex_encode b
      in BeginTx (\<lambda>r. case r of
           Some er \<Rightarrow> ret (0, [], False, Some er)
         | None \<Rightarrow>
         Locking [l] (sel_token e token) (\<lambda>r. case r of
           Inl er \<Rightarrow> Rollback (ret (0, [], False, Some er))
         | Inr (uid, usedAt) \<Rightarrow>
         TxExec [l] (upd_used e token) (\<lambda>r. case r of
           Some er \<Rightarrow> Rollback (ret (0, [], False, Some er))
         | None \<Rightarrow>
             if usedAt \<noteq> None
             then TxExec [] (del_active e uid) (\<lambda>_. Commit (\<lambda>r. case r of
                 Some er \<Rightarrow> ret (0, [], True, Some er)
               | None \<Rightarrow> ret (uid, [], True, None)))
             else TxExec [token_lock e newTok] (ins_token e newTok uid newExp) (\<lambda>r. case r of
                 Some er \<Rightarrow> Rollback (ret (0, [], False, Some er))
               | None \<Rightarrow> Commit (\<lambda>err. ret (uid, newTok, False, err)))))))"

definition revoke_prog :: "env \<Rightarrow> string \<Rightarrow> tok_program" where
  "revoke_prog e token =
     Exec [token_lock e token] (del_token e token) (\<lambda>r. case r of
       Inl er \<Rightarrow> Ret (TRevoke token, Revoked (Some er))
     | Inr _ \<Rightarrow> Ret (TRevoke token, Revoked None))"

fun tok_prog :: "env \<Rightarrow> tok_op \<Rightarrow> tok_program" where
  "tok_prog e (TIssue uid expiry b) = issue_prog e uid expiry b"
| "tok_prog e (TUse token) = use_prog e token"
| "tok_prog e (TRotate token expiry b) = rotate_prog e token expiry b"
| "tok_prog e (TRevoke token) = revoke_prog e token"

lemmas tok_progs = issue_prog_def use_prog_def rotate_prog_def revoke_prog_def

section \<open>Alone, a program is the operation\<close>

fun tok_result :: "env \<Rightarrow> tok_op \<Rightarrow> db \<Rightarrow> tok_answer" where
  "tok_result e (TIssue uid expiry b) d = Issued (fst (Issue e uid expiry b d))"
| "tok_result e (TUse token) d = Used (fst (Use e token d))"
| "tok_result e (TRotate token expiry b) d = Rotated (fst (UseAndRotate e token expiry b d))"
| "tok_result e (TRevoke token) d = Revoked (fst (Revoke e token d))"

lemma solo_tok_prog:
  "solo e (tok_prog e op) None (tick d) (tabs d) =
   ((op, tok_result e op d), tick (tok_step e op d), tabs (tok_step e op d))"
proof (cases op)
  case (TIssue uid expiry b)
  then show ?thesis
    by (auto simp: tok_progs Issue_def exec_def Let_def split: option.splits outcome.splits)
next
  case (TUse token)
  then show ?thesis
    by (auto simp: tok_progs Use_unfold token_stmts row_result_def perform_def replay_def Let_def
        numeral_eq_Suc split: option.splits outcome.splits)
next
  case (TRotate token expiry b)
  then show ?thesis
    by (auto simp: tok_progs UseAndRotate_unfold token_stmts row_result_def perform_def replay_def
        Let_def numeral_eq_Suc split: option.splits outcome.splits)
next
  case (TRevoke token)
  then show ?thesis
    by (auto simp: tok_progs Revoke_def exec_def Let_def split: option.splits outcome.splits)
qed

section \<open>The contest for a token\<close>

definition spent_rows :: "env \<Rightarrow> string \<Rightarrow> tables \<Rightarrow> bool" where
  "spent_rows e tok t \<longleftrightarrow>
     list_all (\<lambda>r. text_eq e (tk_token r) tok \<longrightarrow> tk_used r \<noteq> None) (token_rows t)"

text \<open>The request is told that it presented the fresh token \<open>tok\<close>.\<close>

fun token_granted :: "env \<Rightarrow> string \<Rightarrow> tok_op \<times> tok_answer \<Rightarrow> bool" where
  "token_granted e tok (TRotate token x b, Rotated (uid, nt, reused, err)) \<longleftrightarrow>
     text_eq e token tok \<and> \<not> reused \<and> err = None"
| "token_granted e tok (TUse token, Used (uid, reused, err)) \<longleftrightarrow>
     text_eq e token tok \<and> \<not> reused \<and> err = None"
| "token_granted e tok _ \<longleftrightarrow> False"

lemma spent_keeps:
  "keeps_sp (spent_rows e tok) (upd_used e token)"
  "keeps_sp (spent_rows e tok) (del_active e uid)"
  "keeps_sp (spent_rows e tok) (del_token e token)"
  "\<not> text_eq e nt tok \<Longrightarrow> keeps_sp (spent_rows e tok) (ins_token e nt uid expiry)"
  by (auto simp: keeps_sp_def spent_rows_def token_stmts mark_used_def drop_active_def
      drop_token_def fresh_row_def list_all_iff split: if_splits)

lemma upd_used_spends: "text_eq e token tok \<Longrightarrow> spends (spent_rows e tok) (upd_used e token)"
  by (auto simp: spends_def spent_rows_def upd_used_def mark_used_def list_all_iff text_eq_def)

lemma sel_token_sees:
  "text_eq e token tok \<Longrightarrow> sees_unspent (spent_rows e tok) (\<lambda>v. snd v = None) (sel_token e token)"
  by (auto simp: sees_unspent_def spent_rows_def sel_token_def list_all_iff text_eq_def
      dest!: live_tokenD)

lemma token_lock_eq [simp]: "token_lock e tok = token_lock e token \<longleftrightarrow> text_eq e token tok"
  by (auto simp: token_lock_def text_eq_def)

interpretation token_contest: contest e "token_lock e tok" "spent_rows e tok" "\<lambda>v. snd v = None"
    "token_granted e tok" "tok_prog e" "\<lambda>op. \<not> tok_mints e op tok" for e tok
proof
  fix op
  assume fair: "\<not> tok_mints e op tok"
  show "disciplined e (token_lock e tok) (spent_rows e tok) (\<lambda>v. snd v = None)
      (token_granted e tok) (tok_prog e op) Out"
  proof (cases op)
    case (TIssue uid expiry b)
    with fair show ?thesis
      by (auto simp: tok_progs spent_keeps Let_def split: sum.splits)
  next
    case (TUse token)
    then show ?thesis
      by (auto simp: tok_progs spent_keeps sel_token_sees upd_used_spends selected_def executed_def
          published_def unmarked_def Let_def split: option.splits sum.splits)
  next
    case (TRotate token expiry b)
    with fair show ?thesis
      by (auto simp: tok_progs spent_keeps sel_token_sees upd_used_spends selected_def executed_def
          published_def unmarked_def Let_def split: option.splits sum.splits)
  next
    case (TRevoke token)
    then show ?thesis
      by (auto simp: tok_progs spent_keeps split: sum.splits)
  qed
qed

section \<open>Properties\<close>

text \<open>
  A request that nobody interrupts is the operation of the sequential model: the program of
  an operation, scheduled alone in a pool whose other requests hold no lock, returns after
  finitely many calls with the operation's answer and leaves the operation's database.
\<close>

theorem undisturbed_token_request:
  assumes "i < length (threads s)" and "no_other_locks i s"
    and "threads s ! i = (tok_prog e op, None)"
  shows "\<exists>k x. crun e (replicate k i) s =
    \<lparr>calls_made = tick (tok_step e op \<lparr>tick = calls_made s, tabs = store s\<rparr>),
     store = tabs (tok_step e op \<lparr>tick = calls_made s, tabs = store s\<rparr>),
     threads = (threads s)[i := (Ret (op, tok_result e op \<lparr>tick = calls_made s, tabs = store s\<rparr>), x)]\<rparr>"
  using runs_alone [OF assms] solo_tok_prog [of e op "\<lparr>tick = calls_made s, tabs = store s\<rparr>"] by simp

lemmas token_race_eval =
  crun_def cstep_def launch_def free_for_def holds_def tok_progs row_result_def perform_def
  replay_def token_lock_def token_stmts live_token_def has_token_def mark_used_def drop_active_def
  fresh_row_def demo_tokens_def hex_digit_def numeral_eq_Suc

theorem undisturbed_token_request_witness:
  "\<exists>k x. crun demo_env (replicate k 0) (launch demo_tokens [tok_prog demo_env (TRevoke ''t'')]) =
    \<lparr>calls_made = 1, store = empty_tables, threads = [(Ret (TRevoke ''t'', Revoked None), x)]\<rparr>"
  using undisturbed_token_request
    [of 0 "launch demo_tokens [tok_prog demo_env (TRevoke ''t'')]" demo_env "TRevoke ''t''"]
  by (simp add: no_other_locks_def launch_def demo_tokens_def Revoke_def exec_def del_token_def
      drop_token_def fresh_row_def empty_tables_def)

text \<open>
  C9. However many requests present a refresh token at the same time, at most one of them is told
  that it was fresh: for every set of token operations running at once, every interleaving of
  their database calls and every pattern of failing calls, no two requests rotate (or use) the
  same token, as long as none of them draws that very token.
\<close>

theorem concurrent_rotation_single_use:
  assumes "list_all (\<lambda>op. \<not> tok_mints e op tok) ops"
  shows "winners (token_granted e tok) (crun e sched (launch d (map (tok_prog e) ops))) \<le> 1"
  using assms by (rule token_contest.at_most_one_winner)

theorem concurrent_rotation_single_use_witness:
  "let s = crun demo_env [0, 1, 0, 1, 0, 1, 0, 1, 0, 1, 1, 1, 1]
      (launch demo_tokens (map (tok_prog demo_env) [TRotate ''t'' 300 [1], TRotate ''t'' 300 [2]]))
   in answers s =
        [Some (TRotate ''t'' 300 [1], Rotated (7, ''01'', False, None)),
         Some (TRotate ''t'' 300 [2], Rotated (7, [], True, None))] \<and>
      winners (token_granted demo_env ''t'') s \<le> 1"
proof -
  let ?ops = "[TRotate ''t'' 300 [1], TRotate ''t'' 300 [2]]"
  have fair: "list_all (\<lambda>op. \<not> tok_mints demo_env op ''t'') ?ops"
    by (simp add: hex_digit_def)
  have "answers (crun demo_env [0, 1, 0, 1, 0, 1, 0, 1, 0, 1, 1, 1, 1]
      (launch demo_tokens (map (tok_prog demo_env) ?ops))) =
        [Some (TRotate ''t'' 300 [1], Rotated (7, ''01'', False, None)),
         Some (TRotate ''t'' 300 [2], Rotated (7, [], True, None))]"
    by code_simp
  with concurrent_rotation_single_use [OF fair] show ?thesis by (simp only: Let_def)
qed

text \<open>
  Nor is a token rotated after such a race: once a request of the race was told that the token
  was fresh, the token is spent in the table, and no later sequence of operations rotates it.
\<close>

theorem race_winner_spends:
  assumes "list_all (\<lambda>op. \<not> tok_mints e op tok) ops" and "i < length ops"
    and "answers (crun e sched (launch d (map (tok_prog e) ops))) ! i = Some a"
    and "token_granted e tok a" and "list_all (\<lambda>op. \<not> tok_mints e op tok) later"
  shows "\<not> rotates e (x, b) tok (fold (tok_step e) later
    \<lparr>tick = n, tabs = store (crun e sched (launch d (map (tok_prog e) ops)))\<rparr>)"
proof -
  have "token_spent e tok \<lparr>tick = n, tabs = store (crun e sched (launch d (map (tok_prog e) ops)))\<rparr>"
    using token_contest.winner_spends [OF assms(1-4)] by (simp add: token_spent_def spent_rows_def)
  from tokens_once.never_taken_again [OF this assms(5)] show ?thesis by simp
qed

end
