(* ===== verification/Note_Races.thy ===== *)
theory Note_Races
  imports Interleaving Notes_Repo
begin

text \<open>
  The operations of \<open>internal/repos/notes.go\<close> as programs of database calls, for requests that
  run at the same time. None of them opens a transaction: an update is an UPDATE and then a
  SELECT, a deletion a SELECT and then an UPDATE, and other requests may come in between. The
  writes are serialisable all the same; the answers are not.
\<close>

text \<open>What the queries of the notes handlers find; \<open>FoundKey\<close> is a row of \<open>idempotency\_keys\<close>.\<close>

datatype note_find =
    FoundNote note_row
  | FoundCount int
  | FoundRows "note_row list option"
  | FoundKey idem_row

datatype note_answer =
    Created "(dberr, int) result"
  | Noted "(dberr, note_row) result"
  | Listed "(dberr, note_row list \<times> int) result"

type_synonym note_program = "(note_find, note_answer) dbprog"

fun the_note :: "(dberr, note_find) result \<Rightarrow> (dberr, note_row) result" where
  "the_note (Inr (FoundNote r)) = Inr r"
| "the_note (Inr _) = Inl Fault"
| "the_note (Inl er) = Inl er"

definition get_then ::
  "int \<Rightarrow> int \<Rightarrow> ((dberr, note_row) result \<Rightarrow> (note_find, 'a) dbprog) \<Rightarrow> (note_find, 'a) dbprog" where
  "get_then uid i k = Query (\<lambda>n t. map_option FoundNote (sel_note uid i n t)) (\<lambda>r. k (the_note r))"

text \<open>\<open>Notes.Update\<close> and what follows it: the keyed handlers reuse it.\<close>

definition update_then ::
  "env \<Rightarrow> int \<Rightarrow> int \<Rightarrow> string \<Rightarrow> string \<Rightarrow> ((dberr, note_row) result \<Rightarrow> (note_find, 'a) dbprog) \<Rightarrow>
   (note_find, 'a) dbprog" where
  "update_then e uid i title body k =
     Exec [] (upd_note_text e uid i title body) (\<lambda>r. case r of
       Inl er \<Rightarrow> k (Inl er)
     | Inr _ \<Rightarrow> get_then uid i k)"

definition delete_then ::
  "env \<Rightarrow> int \<Rightarrow> int \<Rightarrow> ((dberr, note_row) result \<Rightarrow> (note_find, 'a) dbprog) \<Rightarrow> (note_find, 'a) dbprog" where
  "delete_then e uid i k =
     get_then uid i (\<lambda>r. case r of
       Inl er \<Rightarrow> k (Inl er)
     | Inr n \<Rightarrow> Exec [] (upd_note_deleted e uid i) (\<lambda>r. case r of
           Inl er \<Rightarrow> k (Inl er)
         | Inr _ \<Rightarrow> k (Inr n)))"

definition list_prog :: "env \<Rightarrow> int \<Rightarrow> int \<Rightarrow> int \<Rightarrow> string \<Rightarrow> string \<Rightarrow> note_program" where
  "list_prog e uid page0 sz0 q sortkey =
     (let page = (if page0 < 1 then 1 else page0);
          sz = (if sz0 < 1 \<or> sz0 > 100 then 20 else sz0)
      in Query (\<lambda>n t. map_option FoundCount (sel_count e uid q n t)) (\<lambda>r. case r of
           Inr (FoundCount cnt) \<Rightarrow>
             Query (\<lambda>n t. Some (FoundRows (sel_page e uid q (sanitizeSort sortkey) sz
                 (page_offset page sz) n t))) (\<lambda>r. case r of
               Inr (FoundRows (Some rows)) \<Rightarrow> Ret (Listed (Inr (rows, cnt)))
             | Inr _ \<Rightarrow> Ret (Listed (Inl Fault))
             | Inl er \<Rightarrow> Ret (Listed (Inl er)))
         | Inr _ \<Rightarrow> Ret (Listed (Inl Fault))
         | Inl er \<Rightarrow> Ret (Listed (Inl er))))"

fun note_prog :: "env \<Rightarrow> note_op \<Rightarrow> note_program" where
  "note_prog e (NoteCreate uid title body) =
     Exec [] (ins_note e uid title body) (\<lambda>r. Ret (Created r))"
| "note_prog e (NoteUpdate uid i title body) = update_then e uid i title body (\<lambda>r. Ret (Noted r))"
| "note_prog e (NoteDelete uid i) = delete_then e uid i (\<lambda>r. Ret (Noted r))"
| "note_prog e (NoteGet uid i) = get_then uid i (\<lambda>r. Ret (Noted r))"
| "note_prog e (NoteList uid page sz q s) = list_prog e uid page sz q s"

lemmas note_progs = get_then_def update_then_def delete_then_def list_prog_def

section \<open>Alone, a program is the operation\<close>

fun note_result :: "env \<Rightarrow> note_op \<Rightarrow> db \<Rightarrow> note_answer" where
  "note_result e (NoteCreate uid title body) d = Created (fst (Notes_Create e uid title body d))"
| "note_result e (NoteUpdate uid i title body) d = Noted (fst (Notes_Update e uid i title body d))"
| "note_result e (NoteDelete uid i) d = Noted (fst (Notes_Delete e uid i d))"
| "note_result e (NoteGet uid i) d = Noted (fst (Notes_Get e uid i d))"
| "note_result e (NoteList uid page sz q s) d =
     Listed (fst (Notes_ListFiltered e uid page sz q s d))"

lemma solo_note_prog:
  "solo e (note_prog e op) None (tick d) (tabs d) =
   (note_result e op d, tick (note_step e op d), tabs (note_step e op d))"
  by (cases op)
    (auto simp: note_progs note_ops exec_def query_row_unfold query_def row_result_def sel_count_def
      upd_note_text_def upd_note_deleted_def Let_def split: option.splits outcome.splits)

section \<open>The writes are serialisable\<close>

text \<open>
  A program writes once when its only write is that of the operation on the shelf; \<open>wrote\<close>
  says whether it has been made, and a success is reported only after it.
\<close>

fun note_success :: "note_op \<Rightarrow> note_answer \<Rightarrow> bool" where
  "note_success (NoteCreate _ _ _) (Created (Inr _)) \<longleftrightarrow> True"
| "note_success (NoteUpdate _ _ _ _) (Noted (Inr _)) \<longleftrightarrow> True"
| "note_success (NoteDelete _ _) (Noted (Inr _)) \<longleftrightarrow> True"
| "note_success _ _ \<longleftrightarrow> False"

definition acts_as :: "env \<Rightarrow> note_op \<Rightarrow> stmt \<Rightarrow> bool" where
  "acts_as e op f \<longleftrightarrow> (\<forall>n t i t'. f n t = Some (i, t') \<longrightarrow>
     shelf_of t' = shelf_step (auto_id e n) op (shelf_of t))"

primrec writes_once :: "env \<Rightarrow> note_op \<Rightarrow> note_program \<Rightarrow> bool \<Rightarrow> bool" where
  "writes_once e op (Ret a) wrote \<longleftrightarrow> (note_success op a \<longrightarrow> wrote)"
| "writes_once e op (BeginTx k) wrote \<longleftrightarrow> False"
| "writes_once e op (Locking ls g k) wrote \<longleftrightarrow> False"
| "writes_once e op (TxExec ls f k) wrote \<longleftrightarrow> False"
| "writes_once e op (Commit k) wrote \<longleftrightarrow> False"
| "writes_once e op (Rollback p) wrote \<longleftrightarrow> False"
| "writes_once e op (Exec ls f k) wrote \<longleftrightarrow> \<not> wrote \<and> acts_as e op f \<and>
     (\<forall>er. writes_once e op (k (Inl er)) False) \<and> (\<forall>r. writes_once e op (k r) True)"
| "writes_once e op (Query g k) wrote \<longleftrightarrow> (\<forall>r. writes_once e op (k r) wrote)"

lemma acts_asD:
  "acts_as e op f \<Longrightarrow> f n t = Some (i, t') \<Longrightarrow>
   shelf_of t' = shelf_step (auto_id e n) op (shelf_of t)"
  by (simp add: acts_as_def)

lemma acts_as_stmts [simp]:
  "acts_as e (NoteCreate uid title body) (ins_note e uid title body)"
  "acts_as e (NoteUpdate uid i title body) (upd_note_text e uid i title body)"
  "acts_as e (NoteDelete uid i) (upd_note_deleted e uid i)"
  by (auto simp: acts_as_def shelf_of_view ins_note_def upd_note_text_def upd_note_deleted_def
      view_new view_edit view_bury Let_def)

lemma note_prog_writes_once: "writes_once e op (note_prog e op) False"
  by (cases op) (auto simp: note_progs Let_def split: sum.splits note_find.splits option.splits)

lemma writes_once_call:
  assumes "call e fr n t (p, x) = Some ((p', x'), t')" and "writes_once e op p wrote"
  shows "writes_once e op p' wrote \<and> t' = t \<or>
    \<not> wrote \<and> writes_once e op p' True \<and> shelf_of t' = shelf_step (auto_id e n) op (shelf_of t)"
proof (cases p)
  case (Exec ls f k)
  show ?thesis
  proof (cases "out e n = Refused")
    case True
    with assms Exec show ?thesis by (cases wrote) auto
  next
    case False
    note ok = this
    show ?thesis
    proof (cases "f n t")
      case None
      with assms Exec ok show ?thesis by (cases wrote) (auto split: if_splits)
    next
      case (Some y)
      obtain i t1 where "y = (i, t1)" by (cases y)
      with Some assms Exec ok have "t' = t1" "f n t = Some (i, t1)" "acts_as e op f" "\<not> wrote"
        "writes_once e op p' True" by (auto split: if_splits)
      then show ?thesis by (blast dest: acts_asD)
    qed
  qed
qed (use assms in auto)

text \<open>The log of the writes: which request wrote with which call.\<close>

type_synonym write_log = "(nat \<times> nat) list"

definition log_shelf :: "env \<Rightarrow> note_op list \<Rightarrow> write_log \<Rightarrow> shelf \<Rightarrow> shelf" where
  "log_shelf e ops log m = fold (\<lambda>(n, i) m. shelf_step (auto_id e n) (ops ! i) m) log m"

definition serial :: "env \<Rightarrow> note_op list \<Rightarrow> db \<Rightarrow> write_log \<Rightarrow> (note_find, note_answer) pool \<Rightarrow> bool" where
  "serial e ops d log s \<longleftrightarrow> length (threads s) = length ops \<and>
     distinct (map snd log) \<and> sorted_wrt (<) (map fst log) \<and>
     (\<forall>(n, i)\<in>set log. n < calls_made s \<and> i < length ops) \<and>
     shelf_of (store s) = log_shelf e ops log (shelf_of (tabs d)) \<and>
     (\<forall>i<length ops. writes_once e (ops ! i) (fst (threads s ! i)) (i \<in> snd ` set log))"

lemma serial_launch: "serial e ops d [] (launch d (map (note_prog e) ops))"
  by (simp add: serial_def launch_def log_shelf_def note_prog_writes_once)

lemma serial_step:
  assumes "serial e ops d log s"
  shows "\<exists>log'. serial e ops d log' (cstep e i s)"
proof (cases "i < length (threads s) \<and>
    call e (free_for (threads s) i) (calls_made s) (store s) (threads s ! i) \<noteq> None")
  case False
  then have "cstep e i s = s" by (auto simp: cstep_def split: option.splits)
  with assms show ?thesis by auto
next
  case True
  obtain p x where th: "threads s ! i = (p, x)" by (cases "threads s ! i")
  from True have i: "i < length (threads s)" ..
  from True th obtain y where "call e (free_for (threads s) i) (calls_made s) (store s) (p, x) = Some y"
    by auto
  then obtain p' x' t' where
    c: "call e (free_for (threads s) i) (calls_made s) (store s) (p, x) = Some ((p', x'), t')"
    by (cases y) auto
  have step: "cstep e i s = \<lparr>calls_made = Suc (calls_made s), store = t', threads = (threads s)[i := (p', x')]\<rparr>"
    using i c th by (simp add: cstep_def)
  have len: "length (threads s) = length ops" using assms by (simp add: serial_def)
  have once: "writes_once e (ops ! i) p (i \<in> snd ` set log)"
    using assms i th by (auto simp: serial_def)
  from writes_once_call [OF c once] show ?thesis
  proof (elim disjE conjE)
    assume "writes_once e (ops ! i) p' (i \<in> snd ` set log)" "t' = store s"
    with assms i have "serial e ops d log (cstep e i s)"
      unfolding serial_def step by (auto simp: nth_list_update)
    then show ?thesis ..
  next
    assume w: "i \<notin> snd ` set log" "writes_once e (ops ! i) p' True"
      "shelf_of t' = shelf_step (auto_id e (calls_made s)) (ops ! i) (shelf_of (store s))"
    have "serial e ops d (log @ [(calls_made s, i)]) (cstep e i s)"
      using assms i w len unfolding serial_def step
      by (auto simp: nth_list_update sorted_wrt_append log_shelf_def)
    then show ?thesis ..
  qed
qed

lemma serial_run: "\<exists>log. serial e ops d log (crun e sched (launch d (map (note_prog e) ops)))"
  by (rule crun_invariant [of "\<lambda>s. \<exists>log. serial e ops d log s"])
    (use serial_launch serial_step in blast)+

text \<open>The first calls of a request whose statements take no locks.\<close>

lemma cstep_update:
  assumes "i < length (threads s)" and "threads s ! i = (update_then e uid j title body k, x)"
    and "out e (calls_made s) = Okay"
  shows "cstep e i s = \<lparr>calls_made = Suc (calls_made s),
    store = (store s)\<lparr>note_rows := upd_visible uid j (edit_note title body (now e (calls_made s))) (note_rows (store s))\<rparr>,
    threads = (threads s)[i := (get_then uid j k, x)]\<rparr>"
  using assms by (simp add: cstep_def update_then_def upd_note_text_def)

lemma cstep_get:
  assumes "i < length (threads s)" and "threads s ! i = (get_then uid j k, x)"
    and "out e (calls_made s) = Okay"
  shows "cstep e i s = s\<lparr>calls_made := Suc (calls_made s),
    threads := (threads s)[i := (k (case List.find (visible uid j) (note_rows (store s)) of
       None \<Rightarrow> Inl NoRows | Some r \<Rightarrow> Inr r), x)]\<rparr>"
  using assms by (simp add: cstep_def get_then_def row_result_def sel_note_def split: option.splits)

lemma find_edited:
  "List.find (visible uid i) rs = Some r \<Longrightarrow>
   List.find (visible uid i) (upd_visible uid i (edit_note title body tm) rs) =
     Some (edit_note title body tm r)"
  by (induction rs) (auto simp: upd_visible_def visible_def split: if_splits)

section \<open>Properties\<close>

text \<open>
  C15. Concurrent writes are serialisable: for every set of note operations running at once, every
  interleaving of their statements and every pattern of failures, what the users see in the
  end is what some order of the operations one after another leaves, the order of their
  writes; every operation that reported success is among them, once.
\<close>

theorem concurrent_notes_serialise:
  "\<exists>log. distinct (map snd log) \<and> sorted_wrt (<) (map fst log) \<and>
     snd ` set log \<subseteq> {..<length ops} \<and>
     shelf_of (store (crun e sched (launch d (map (note_prog e) ops)))) =
       log_shelf e ops log (shelf_of (tabs d)) \<and>
     {i. i < length ops \<and> (case answers (crun e sched (launch d (map (note_prog e) ops))) ! i of
        Some a \<Rightarrow> note_success (ops ! i) a | None \<Rightarrow> False)} \<subseteq> snd ` set log"
proof -
  let ?s = "crun e sched (launch d (map (note_prog e) ops))"
  obtain log where l: "serial e ops d log ?s" using serial_run by blast
  have "i \<in> snd ` set log"
    if i: "i < length ops" and a: "answers ?s ! i = Some a" "note_success (ops ! i) a" for i a
  proof -
    have "answer_of (threads ?s ! i) = Some a"
      using a(1) i l by (simp add: answers_def serial_def)
    then obtain x where "threads ?s ! i = (Ret a, x)"
      by (cases "threads ?s ! i"; cases "fst (threads ?s ! i)") auto
    moreover have "writes_once e (ops ! i) (fst (threads ?s ! i)) (i \<in> snd ` set log)"
      using l i by (simp add: serial_def)
    ultimately show ?thesis using a(2) by simp
  qed
  with l show ?thesis
    by (intro exI [of _ log]) (auto simp: serial_def split: option.splits)
qed

text \<open>
  C16. The answers are not serialisable: an UPDATE of another request between the UPDATE and the
  SELECT of \<open>Notes.Update\<close> makes the first request answer with the other's title and body.
\<close>

theorem update_answers_other_text:
  assumes "\<And>n. out e n = Okay" and "List.find (visible uid i) (notes_of d) = Some r"
  shows "\<exists>r'. answers (crun e [0, 1, 0] (launch d
      (map (note_prog e) [NoteUpdate uid i title1 body1, NoteUpdate uid i title2 body2]))) ! 0 =
        Some (Noted (Inr r')) \<and> n_title r' = title2 \<and> n_body r' = body2"
proof -
  let ?f1 = "edit_note title1 body1 (now e (tick d))"
  let ?f2 = "edit_note title2 body2 (now e (Suc (tick d)))"
  let ?k = "\<lambda>r. Ret (Noted r)"
  let ?s0 = "launch d (map (note_prog e) [NoteUpdate uid i title1 body1, NoteUpdate uid i title2 body2])"
  let ?s2 = "\<lparr>calls_made = Suc (Suc (tick d)),
    store = (tabs d)\<lparr>note_rows := upd_visible uid i ?f2 (upd_visible uid i ?f1 (notes_of d))\<rparr>,
    threads = [(get_then uid i ?k, None), (get_then uid i ?k, None)]\<rparr>"
  have "crun e [0, 1] ?s0 = ?s2"
    by (simp add: cstep_update [where uid = uid and j = i and k = ?k and x = None] assms(1) launch_def)
  moreover have "cstep e 0 ?s2 = ?s2\<lparr>calls_made := Suc (calls_made ?s2),
      threads := [(?k (Inr (?f2 (?f1 r))), None), (get_then uid i ?k, None)]\<rparr>"
    by (simp add: cstep_get [where uid = uid and j = i and k = ?k and x = None] assms
        find_edited)
  ultimately have "crun e [0, 1, 0] ?s0 = ?s2\<lparr>calls_made := Suc (calls_made ?s2),
      threads := [(?k (Inr (?f2 (?f1 r))), None), (get_then uid i ?k, None)]\<rparr>"
    using crun_append [of e "[0, 1]" "[0]" ?s0] by simp
  then show ?thesis by (simp add: answers_def)
qed

theorem update_answers_other_text_witness:
  "\<exists>r'. answers (crun demo_env [0, 1, 0] (launch \<lparr>tick = 0, tabs = demo_notes\<rparr>
      (map (note_prog demo_env) [NoteUpdate 7 1 ''mine'' ''x'', NoteUpdate 7 1 ''other'' ''y'']))) ! 0 =
        Some (Noted (Inr r')) \<and> n_title r' = ''other'' \<and> n_body r' = ''y''"
proof -
  have "List.find (visible 7 1) (notes_of \<lparr>tick = 0, tabs = demo_notes\<rparr>) = Some (new_note 1 7 ''a'' ''x'' 50)"
    by (simp add: demo_notes_def visible_def new_note_def)
  from update_answers_other_text [OF _ this] show ?thesis by simp
qed

text \<open>
  Two deletions of one note at once both succeed and both report the note, although one after
  another the second would be told that the note is not there.
\<close>

theorem both_deletions_succeed:
  assumes "\<And>n. out e n = Okay" and "List.find (visible uid i) (notes_of d) = Some r"
  shows "answers (crun e [0, 1, 0, 1] (launch d (map (note_prog e) [NoteDelete uid i, NoteDelete uid i]))) =
    [Some (Noted (Inr r)), Some (Noted (Inr r))]"
  using assms
  by (simp add: cstep_def launch_def free_for_def note_progs row_result_def sel_note_def
      upd_note_deleted_def answers_def)

theorem both_deletions_succeed_witness:
  "answers (crun demo_env [0, 1, 0, 1] (launch \<lparr>tick = 0, tabs = demo_notes\<rparr>
     (map (note_prog demo_env) [NoteDelete 7 1, NoteDelete 7 1]))) =
    [Some (Noted (Inr (new_note 1 7 ''a'' ''x'' 50))), Some (Noted (Inr (new_note 1 7 ''a'' ''x'' 50)))]"
  by (rule both_deletions_succeed) (simp_all add: demo_notes_def visible_def new_note_def)

end
