(* ===== verification/Keyed_Races.thy ===== *)
theory Keyed_Races
  imports Contest Note_Races Notes_Handler
begin

text \<open>
  Updates and deletions with an idempotency key that arrive at the same time: the database
  calls that \<open>Notes.update\<close> and \<open>Notes.delete\<close> of \<open>internal/handlers/notes.go\<close> make once the
  request is read, from \<open>Idem.Claim\<close> to \<open>Idem.Complete\<close>. The lock is the key's entry in the
  unique index: an INSERT waits for the transaction that inserted the same key before it.
\<close>

definition key_lock :: "idem_schema \<Rightarrow> env \<Rightarrow> string \<Rightarrow> int \<Rightarrow> lock" where
  "key_lock sc e key uid = (weight e key, if sc = PerUserKey then uid else 0)"

type_synonym claim_result = "string option \<times> idem_err option"

definition claim_then ::
  "idem_schema \<Rightarrow> env \<Rightarrow> string \<Rightarrow> int \<Rightarrow> string \<Rightarrow> string \<Rightarrow> string \<Rightarrow>
   (claim_result \<Rightarrow> (note_find, 'a) dbprog) \<Rightarrow> (note_find, 'a) dbprog" where
  "claim_then sc e key uid meth url bodyHash k =
     (let l = key_lock sc e key uid
      in BeginTx (\<lambda>r. case r of
           Some er \<Rightarrow> k (None, Some (DbErr er))
         | None \<Rightarrow>
         TxExec [l] (ins_claim sc e key uid meth url bodyHash) (\<lambda>r. case r of
           None \<Rightarrow> Commit (\<lambda>_. k (None, None))
         | Some _ \<Rightarrow>
         Locking [l] (\<lambda>n t. map_option FoundKey (sel_claim e key uid n t)) (\<lambda>r. case r of
           Inl er \<Rightarrow> Rollback (k (None, Some (DbErr er)))
         | Inr (FoundKey row) \<Rightarrow>
             if ik_body row \<noteq> bodyHash then Rollback (k (None, Some ErrMismatch))
             else if ik_completed row = None then Rollback (k (None, Some ErrInProgress))
             else Commit (\<lambda>_. case ik_result row of
                 Some s \<Rightarrow> k (Some s, None)
               | None \<Rightarrow> k (None, Some ErrInProgress))
         | Inr _ \<Rightarrow> Rollback (k (None, Some (DbErr Fault)))))))"

definition complete_then ::
  "idem_schema \<Rightarrow> env \<Rightarrow> string \<Rightarrow> int \<Rightarrow> string \<Rightarrow> (note_find, 'a) dbprog \<Rightarrow> (note_find, 'a) dbprog" where
  "complete_then sc e key uid res p =
     Exec [key_lock sc e key uid] (upd_result e key uid res) (\<lambda>_. p)"

datatype keyed_op =
    KUpdate string int int string string string
  | KDelete string int int

text \<open>Turned away by the claim (replays included), or run, with the repository's result.\<close>

datatype keyed_answer = Turned claim_result | Ran "(dberr, note_row) result"

type_synonym keyed_program = "(note_find, keyed_op \<times> keyed_answer) dbprog"

definition finish_then ::
  "idem_schema \<Rightarrow> env \<Rightarrow> string \<Rightarrow> int \<Rightarrow> keyed_op \<Rightarrow> (dberr, note_row) result \<Rightarrow> keyed_program" where
  "finish_then sc e key uid op r =
     (case r of
        Inl er \<Rightarrow> Ret (op, Ran (Inl er))
      | Inr n \<Rightarrow> complete_then sc e key uid (marshal (note_json n)) (Ret (op, Ran (Inr n))))"

fun keyed_prog :: "idem_schema \<Rightarrow> env \<Rightarrow> keyed_op \<Rightarrow> keyed_program" where
  "keyed_prog sc e (KUpdate key uid i hash title body) =
     claim_then sc e key uid ''PUT'' (note_path i) hash (\<lambda>c.
       if c = (None, None)
       then update_then e uid i title body (finish_then sc e key uid (KUpdate key uid i hash title body))
       else Ret (KUpdate key uid i hash title body, Turned c))"
| "keyed_prog sc e (KDelete key uid i) =
     claim_then sc e key uid ''DELETE'' (note_path i) ''delete'' (\<lambda>c.
       if c = (None, None) then delete_then e uid i (finish_then sc e key uid (KDelete key uid i))
       else Ret (KDelete key uid i, Turned c))"

lemmas keyed_progs = claim_then_def complete_then_def finish_then_def note_progs

section \<open>Alone, a program makes the handler's calls\<close>

lemma solo_claim_then:
  "solo e (claim_then sc e key uid meth url h k) None n t =
   (case Idem_Claim sc e key uid meth url h \<lparr>tick = n, tabs = t\<rparr> of
      (c, d) \<Rightarrow> solo e (k c) None (tick d) (tabs d))"
  by (auto simp: claim_then_def Idem_Claim_unfold ins_claim_def claim_row_def sel_claim_def
      claim_answer_def row_result_def perform_def replay_def Let_def numeral_eq_Suc
      split: option.splits outcome.splits)

lemma solo_update_then:
  "solo e (update_then e uid i title body k) None n t =
   (case Notes_Update e uid i title body \<lparr>tick = n, tabs = t\<rparr> of
      (r, d) \<Rightarrow> solo e (k r) None (tick d) (tabs d))"
  by (auto simp: note_progs Notes_Update_def Notes_Get_def exec_def query_row_unfold row_result_def
      upd_note_text_def sel_note_def Let_def split: option.splits outcome.splits)

lemma solo_delete_then:
  "solo e (delete_then e uid i k) None n t =
   (case Notes_Delete e uid i \<lparr>tick = n, tabs = t\<rparr> of
      (r, d) \<Rightarrow> solo e (k r) None (tick d) (tabs d))"
  by (auto simp: note_progs Notes_Delete_def Notes_Get_def exec_def query_row_unfold row_result_def
      upd_note_deleted_def sel_note_def Let_def split: option.splits outcome.splits)

lemma solo_complete_then:
  "solo e (complete_then sc e key uid res (Ret a)) None n t =
   (a, tick (snd (Idem_Complete e key uid res \<lparr>tick = n, tabs = t\<rparr>)),
       tabs (snd (Idem_Complete e key uid res \<lparr>tick = n, tabs = t\<rparr>)))"
  by (auto simp: complete_then_def Idem_Complete_def exec_def upd_result_def Let_def
      split: outcome.splits)

section \<open>The contest for a key\<close>

definition key_sp :: "idem_schema \<Rightarrow> env \<Rightarrow> string \<Rightarrow> int \<Rightarrow> tables \<Rightarrow> bool" where
  "key_sp sc e key uid t \<longleftrightarrow> list_ex (key_clash sc e key uid) (idem_rows t)"

fun ran_keyed :: "idem_schema \<Rightarrow> env \<Rightarrow> string \<Rightarrow> int \<Rightarrow> keyed_op \<times> keyed_answer \<Rightarrow> bool" where
  "ran_keyed sc e key uid (KUpdate k u _ _ _ _, Ran _) \<longleftrightarrow> key_lock sc e k u = key_lock sc e key uid"
| "ran_keyed sc e key uid (KDelete k u _, Ran _) \<longleftrightarrow> key_lock sc e k u = key_lock sc e key uid"
| "ran_keyed sc e key uid _ \<longleftrightarrow> False"

lemma key_clash_lock:
  "key_lock sc e k u = key_lock sc e key uid \<Longrightarrow> key_clash sc e k u = key_clash sc e key uid"
  by (intro ext) (auto simp: key_lock_def key_clash_def text_eq_def split: if_splits)

lemma key_sp_complete:
  "list_ex (key_clash sc e key uid)
     (complete_rows e k u (\<lambda>r. r\<lparr>ik_result := v, ik_completed := c\<rparr>) rs) =
   list_ex (key_clash sc e key uid) rs"
  by (induction rs) (auto simp: complete_rows_def key_clash_def)

lemma key_keeps:
  "keeps_sp (key_sp sc e key uid) (ins_claim sc e k u meth url h)"
  "keeps_sp (key_sp sc e key uid) (upd_result e k u res)"
  "keeps_sp (key_sp sc e key uid) (upd_note_text e u i title body)"
  "keeps_sp (key_sp sc e key uid) (upd_note_deleted e u i)"
  by (auto simp: keeps_sp_def key_sp_def ins_claim_def upd_result_def upd_note_text_def
      upd_note_deleted_def key_sp_complete split: if_splits)

lemma claim_spends:
  assumes "key_lock sc e k u = key_lock sc e key uid"
  shows "spends (key_sp sc e key uid) (ins_claim sc e k u meth url h)"
    and "needs_unspent (key_sp sc e key uid) (ins_claim sc e k u meth url h)"
proof -
  have "key_clash sc e key uid r" if "ik_key r = k" "ik_user r = u" for r
    using that by (simp add: key_clash_lock [OF assms, symmetric] key_clash_def)
  then show "spends (key_sp sc e key uid) (ins_claim sc e k u meth url h)"
    by (simp add: spends_def key_sp_def ins_claim_def key_clash_lock [OF assms])
qed (simp add: needs_unspent_def key_sp_def ins_claim_def key_clash_lock [OF assms])

lemma disciplined_finish [simp]:
  "disciplined e lk (key_sp sc e key uid) un win (finish_then sc e k u op r) Won"
  by (auto simp: finish_then_def complete_then_def key_keeps split: sum.splits)

lemma disciplined_note_ops:
  assumes "\<And>r. disciplined e lk (key_sp sc e key uid) un win (k r) ph"
  shows "disciplined e lk (key_sp sc e key uid) un win (update_then e u i title body k) ph"
    and "disciplined e lk (key_sp sc e key uid) un win (delete_then e u i k) ph"
  using assms by (auto simp: note_progs key_keeps split: sum.splits)

text \<open>
  A claim brings the requests that go on to \<open>Won\<close>, and leaves the others where they were, if
  the server does not refuse the commit, whose error the code drops.
\<close>

lemma disciplined_claim:
  assumes "\<And>n. out e n \<noteq> Refused"
    and "\<And>c ph. c \<noteq> (None, None) \<Longrightarrow> disciplined e lk (key_sp sc e key uid) (\<lambda>_. False) win (k c) ph"
    and "lk = key_lock sc e key uid"
    and "disciplined e lk (key_sp sc e key uid) (\<lambda>_. False) win (k (None, None))
      (if key_lock sc e kk u = lk then Won else Out)"
  shows "disciplined e lk (key_sp sc e key uid) (\<lambda>_. False) win (claim_then sc e kk u meth url h k) Out"
proof -
  have ex: "executed lk (key_sp sc e key uid) [key_lock sc e kk u] (ins_claim sc e kk u meth url h) Out =
      (if key_lock sc e kk u = lk then Marked else Out)"
    using claim_spends [of sc e kk u key uid meth url h] assms(3) by (auto simp: executed_def)
  have pub: "disciplined e lk (key_sp sc e key uid) (\<lambda>_. False) win (k (None, None))
      (published (executed lk (key_sp sc e key uid) [key_lock sc e kk u] (ins_claim sc e kk u meth url h) Out))"
    using assms(4) by (simp add: ex published_def split: if_splits)
  show ?thesis
    using pub assms(1,2)
    by (auto simp: claim_then_def key_keeps sees_unspent_def selected_def unmarked_def Let_def
        split: option.splits sum.splits note_find.splits)
qed

interpretation key_contest: contest e "key_lock sc e key uid" "key_sp sc e key uid" "\<lambda>_. False"
    "ran_keyed sc e key uid" "keyed_prog sc e" "\<lambda>_. \<forall>n. out e n \<noteq> Refused" for e sc key uid
proof
  fix op
  assume ok: "\<forall>n. out e n \<noteq> Refused"
  show "disciplined e (key_lock sc e key uid) (key_sp sc e key uid) (\<lambda>_. False)
      (ran_keyed sc e key uid) (keyed_prog sc e op) Out"
  proof (cases op)
    case (KUpdate k u i h title body)
    show ?thesis
      unfolding KUpdate keyed_prog.simps
      by (rule disciplined_claim)
        (use ok in \<open>auto intro!: disciplined_note_ops simp: finish_then_def complete_then_def key_keeps
          split: sum.splits\<close>)
  next
    case (KDelete k u i)
    show ?thesis
      unfolding KDelete keyed_prog.simps
      by (rule disciplined_claim)
        (use ok in \<open>auto intro!: disciplined_note_ops simp: finish_then_def complete_then_def key_keeps
          split: sum.splits\<close>)
  qed
qed

section \<open>Properties\<close>

text \<open>
  A keyed update that nobody interrupts makes the handler's calls: the program, scheduled
  alone while the others hold no lock, returns and leaves the database that the handler
  \<open>Notes.update\<close> leaves.
\<close>

theorem undisturbed_keyed_update:
  assumes "i < length (threads s)" and "no_other_locks i s"
    and "threads s ! i = (keyed_prog (keying S) (senv S)
      (KUpdate key (user_of r) j (body_hash (raw_body r)) (trim_space title) body), None)"
    and "wdb w = \<lparr>tick = calls_made s, tabs = store s\<rparr>"
    and "header r ''Idempotency-Key'' = key" and "key \<noteq> []"
    and "parse_int (url_param r ''id'') = (j, None)"
    and "decode_note False (raw_body r) = Some (title, body)"
  shows "\<exists>k a x. crun (senv S) (replicate k i) s =
    \<lparr>calls_made = tick (wdb (snd (notes_update S r w))), store = tabs (wdb (snd (notes_update S r w))),
     threads = (threads s)[i := (Ret a, x)]\<rparr>"
proof -
  let ?op = "KUpdate key (user_of r) j (body_hash (raw_body r)) (trim_space title) body"
  let ?res = "wdb (snd (notes_update S r w))"
  have "\<exists>a. solo (senv S) (keyed_prog (keying S) (senv S) ?op) None (calls_made s) (store s) =
      (a, tick ?res, tabs ?res)"
    using assms(4-8)
    by (auto simp: solo_claim_then solo_update_then solo_complete_then finish_then_def
        notes_update_def claim_first_def finish_note_def fail_def answer_def on_db_def Let_def
        split: prod.splits option.splits sum.splits idem_err.splits)
  then show ?thesis using runs_alone [OF assms(1-3)] by blast
qed

text \<open>
  C21. However many requests with one idempotency key arrive at the same time, at most one of them
  is run: for every set of keyed updates and deletions, every interleaving of their database
  calls and every pattern of lost acknowledgements, at most one request with the key goes past
  its claim; the others are told to wait, or get the stored answer. The server is assumed not
  to refuse a call, because the code drops the error of the commit.
\<close>

theorem concurrent_key_runs_once:
  assumes "\<And>n. out e n \<noteq> Refused"
  shows "winners (ran_keyed sc e key uid) (crun e sched (launch d (map (keyed_prog sc e) ops))) \<le> 1"
  by (rule key_contest.at_most_one_winner) (simp add: assms list_all_iff)

definition demo_puts :: "keyed_op list" where
  "demo_puts = [KUpdate ''k'' 7 1 ''h'' ''b'' ''y'', KUpdate ''k'' 7 1 ''h'' ''b'' ''y'']"

lemma demo_race:
  "answers (crun demo_env [0, 1, 0, 1, 0, 1, 1, 0, 1, 0, 0]
     (launch \<lparr>tick = 0, tabs = demo_notes\<rparr> (map (keyed_prog PerKey demo_env) demo_puts))) =
   [Some (KUpdate ''k'' 7 1 ''h'' ''b'' ''y'', Ran (Inr (new_note 1 7 ''b'' ''y'' 50\<lparr>n_updated := 100\<rparr>))),
    Some (KUpdate ''k'' 7 1 ''h'' ''b'' ''y'', Turned (None, Some ErrInProgress))]"
  by code_simp

theorem concurrent_key_runs_once_witness:
  "winners (ran_keyed PerKey demo_env ''k'' 7) (crun demo_env [0, 1, 0, 1, 0, 1, 1, 0, 1, 0, 0]
     (launch \<lparr>tick = 0, tabs = demo_notes\<rparr> (map (keyed_prog PerKey demo_env) demo_puts))) = 1"
proof -
  let ?s = "crun demo_env [0, 1, 0, 1, 0, 1, 1, 0, 1, 0, 0]
     (launch \<lparr>tick = 0, tabs = demo_notes\<rparr> (map (keyed_prog PerKey demo_env) demo_puts))"
  have "winners (ran_keyed PerKey demo_env ''k'' 7) ?s \<le> 1"
    by (rule concurrent_key_runs_once) simp
  moreover have "winners (ran_keyed PerKey demo_env ''k'' 7) ?s \<noteq> 0"
    unfolding winners_def demo_race by simp
  ultimately show ?thesis by linarith
qed

text \<open>
  The assumption is needed: when the commit of the first claim is refused, its error is
  dropped and both requests run.
\<close>

theorem refused_commit_runs_twice:
  "answers (crun (demo_env\<lparr>out := (\<lambda>n. if n = 2 then Refused else Okay)\<rparr>)
      [0, 0, 0, 1, 1, 1, 0, 0, 0, 1, 1, 1]
      (launch \<lparr>tick = 0, tabs = demo_notes\<rparr> (map (keyed_prog PerKey demo_env) demo_puts))) =
   replicate 2 (Some (KUpdate ''k'' 7 1 ''h'' ''b'' ''y'',
     Ran (Inr (new_note 1 7 ''b'' ''y'' 50\<lparr>n_updated := 100\<rparr>))))"
  by code_simp

end
