(* ===== verification/Programs.thy ===== *)
theory Programs
  imports Server
begin

text \<open>
  The programs of \<open>cmd/\<close> and what they start from: \<open>internal/db/db.go\<close> (opening the database and
  running the migrations), \<open>internal/trace/otel.go\<close>, \<open>cmd/api\<close> up to the listening socket,
  \<open>cmd/seed-admin\<close> and \<open>cmd/jwtkeygen\<close>. The drivers' answers are a parameter: the error, if any,
  of each call in its place.
\<close>

section \<open>internal/db/db.go\<close>

datatype db_call =
    SqlOpen string
  | SetMaxOpenConns int
  | SetMaxIdleConns int
  | SetConnMaxLifetime int
  | Ping
  | NewSource string
  | WithInstance
  | NewMigrate
  | MigrateUp
  | PoolClose

datatype driver_error = NoChange | DriverError string

type_synonym drivers = "db_call \<Rightarrow> driver_error option"

text \<open>The calls that were made, in order, and the error of the first one that failed.\<close>

type_synonym opened = "driver_error option \<times> db_call list"

text \<open>A call whose error closes the pool and ends the function.\<close>

definition or_close :: "drivers \<Rightarrow> db_call \<Rightarrow> (db_call list \<Rightarrow> opened) \<Rightarrow> db_call list \<Rightarrow> opened" where
  "or_close D c rest cs =
     (case D c of
        Some e \<Rightarrow> (Some e, cs @ [c, PoolClose])
      | None \<Rightarrow> rest (cs @ [c]))"

definition OpenAndMigrate :: "drivers \<Rightarrow> config \<Rightarrow> opened" where
  "OpenAndMigrate D cfg =
     (case D (SqlOpen (c_db_dsn cfg)) of
        Some e \<Rightarrow> (Some e, [SqlOpen (c_db_dsn cfg)])
      | None \<Rightarrow>
          or_close D Ping
            (or_close D (NewSource ''file://migrations'')
              (or_close D WithInstance
                (or_close D NewMigrate
                  (\<lambda>cs. case D MigrateUp of
                     Some (DriverError e) \<Rightarrow> (Some (DriverError e), cs @ [MigrateUp, PoolClose])
                   | _ \<Rightarrow> (None, cs @ [MigrateUp])))))
            [SqlOpen (c_db_dsn cfg), SetMaxOpenConns 10, SetMaxIdleConns 5, SetConnMaxLifetime (3600 * second)])"

section \<open>internal/trace/otel.go\<close>

text \<open>\<open>ratio <= 0\<close> is false for a NaN. Without tracing there is nothing to shut down.\<close>

definition f64_not_positive :: "float64 \<Rightarrow> bool" where
  "f64_not_positive x = (case x of Fin q \<Rightarrow> q \<le> 0 | FInf neg \<Rightarrow> neg | FNaN \<Rightarrow> False)"

datatype tracing = NoTracing | TracingFailed string | Tracing string float64

definition trace_Setup :: "(string \<Rightarrow> string option) \<Rightarrow> string \<Rightarrow> float64 \<Rightarrow> tracing" where
  "trace_Setup exporter endpoint ratio =
     (if endpoint = [] \<or> f64_not_positive ratio then NoTracing
      else case exporter endpoint of
             Some e \<Rightarrow> TracingFailed e
           | None \<Rightarrow> Tracing endpoint ratio)"

section \<open>cmd/api/main.go\<close>

text \<open>How a program ends, or the server that it goes on to run.\<close>

datatype 'a ending = Crashed string | Fatal string | Done 'a

definition error_message :: "driver_error \<Rightarrow> string" where
  "error_message e = (case e of NoChange \<Rightarrow> ''no change'' | DriverError m \<Rightarrow> m)"

definition api_main :: "sys \<Rightarrow> libs \<Rightarrow> drivers \<Rightarrow> (string \<Rightarrow> string) \<Rightarrow> http_server ending" where
  "api_main S L D ge =
     (case Load_config ge of
        Inl p \<Rightarrow> Crashed p
      | Inr cfg \<Rightarrow>
     (case fst (OpenAndMigrate D cfg) of
        Some e \<Rightarrow> Fatal (''db: '' @ error_message e)
      | None \<Rightarrow> Done (HTTPServer S L (server_New cfg))))"

section \<open>cmd/seed-admin/main.go\<close>

text \<open>The messages are UTF-8; the two bytes C4 B1 are a dotless i, E2 86 92 an arrow.\<close>

definition dotless :: string where
  "dotless = [CHR 0xC4, CHR 0xB1]"

definition seed_admin ::
  "sys \<Rightarrow> drivers \<Rightarrow> (string \<Rightarrow> string) \<Rightarrow> string list \<Rightarrow> db \<Rightarrow> string ending \<times> db" where
  "seed_admin S D ge args d =
     (if length args < 2 then (Fatal (''kullan'' @ dotless @ ''m: seed-admin <email>''), d)
      else let email = args ! 1 in
     (case Load_config ge of
        Inl p \<Rightarrow> (Crashed p, d)
      | Inr cfg \<Rightarrow>
     (case fst (OpenAndMigrate D cfg) of
        Some e \<Rightarrow> (Fatal (error_message e), d)
      | None \<Rightarrow>
     (case Users_FindByEmail (senv S) email d of
        (Inl er, d1) \<Rightarrow> (Fatal (''kullan'' @ dotless @ ''c'' @ dotless @ '' yok: '' @ db_text S er), d1)
      | (Inr u, d1) \<Rightarrow>
     (case Roles_Assign (senv S) (u_id u) ''admin'' d1 of
        (Some er, d2) \<Rightarrow> (Fatal (db_text S er), d2)
      | (None, d2) \<Rightarrow>
          (Done (''ok: admin atand'' @ dotless @ '' '' @ [CHR 0xE2, CHR 0x86, CHR 0x92] @ '' '' @ email @
             [CHR 0x0A]), d2))))))"

section \<open>cmd/jwtkeygen/main.go\<close>

text \<open>What the program prints; \<open>b\<close> are the bytes of \<open>rand.Read\<close>.\<close>

definition jwtkeygen :: "8 word list \<Rightarrow> string list \<Rightarrow> string" where
  "jwtkeygen b args =
     (if length args < 2 then ''kullan'' @ dotless @ ''m: jwtkeygen <kid>'' @ [CHR 0x0A]
      else args ! 1 @ '':'' @ hex_encode b @ [CHR 0x0A])"

section \<open>Facts about keys and accounts\<close>

lemma hex_encode_set: "c \<in> set (hex_encode bs) \<Longrightarrow> c \<in> set ''0123456789abcdef''"
proof (induction bs)
  case (Cons b bs)
  have "unat b < 256" using unsigned_less [of b] by simp
  then have "unat b div 16 < length ''0123456789abcdef''" "unat b mod 16 < length ''0123456789abcdef''"
    by simp_all
  from nth_mem [OF this(1)] nth_mem [OF this(2)]
  have "hex_digit (unat b div 16) \<in> set ''0123456789abcdef''" "hex_digit (unat b mod 16) \<in> set ''0123456789abcdef''"
    by (simp_all only: hex_digit_def)
  then show ?case using Cons unfolding hex_encode.simps by (metis set_ConsD)
qed simp

lemma space_seqs_safe: "p \<in> set space_seqs \<Longrightarrow> CHR '':'' \<notin> set p \<and> last p \<notin> set ''0123456789abcdef''"
  by (auto simp: space_seqs_def)

lemma space_seqs_ne: "p \<in> set space_seqs \<Longrightarrow> p \<noteq> []"
  by (auto simp: space_seqs_def)

lemma trim_left_before_colon:
  assumes "trim_left k = k" shows "trim_left (k @ CHR '':'' # t) = k @ CHR '':'' # t"
proof -
  have "\<not> has_prefix (k @ CHR '':'' # t) p" if p: "p \<in> set space_seqs" for p
  proof
    assume "has_prefix (k @ CHR '':'' # t) p"
    then obtain q where q: "k @ CHR '':'' # t = p @ q" by (auto simp: has_prefix_iff)
    have "\<exists>q'. k = p @ q'"
    proof (cases "length p \<le> length k")
      case True
      then show ?thesis using q by (metis append_eq_append_conv_if append_take_drop_id)
    next
      case False
      then have "CHR '':'' \<in> set p" using arg_cong [OF q, of "\<lambda>x. x ! length k"] by (simp add: nth_append nth_mem)
      with space_seqs_safe [OF p] show ?thesis by simp
    qed
    then have "has_prefix (strip_units space_seqs k) p"
      using assms by (auto simp: trim_left_def has_prefix_iff)
    with strip_units_result [OF p space_seqs_ne [OF p], of k] show False by simp
  qed
  then show ?thesis unfolding trim_left_def by (intro strip_units_stop) blast
qed

lemma trim_right_after_hex:
  assumes "b \<noteq> []" shows "trim_right (s @ hex_encode b) = s @ hex_encode b"
proof -
  have ne: "hex_encode b \<noteq> []" using assms by (cases b) auto
  have "\<not> has_prefix (rev (s @ hex_encode b)) (rev p)" if p: "p \<in> set space_seqs" for p
  proof
    assume "has_prefix (rev (s @ hex_encode b)) (rev p)"
    then obtain q where "rev (s @ hex_encode b) = rev p @ q" by (auto simp: has_prefix_iff)
    then have "s @ hex_encode b = rev q @ p" by (metis rev_append rev_rev_ident)
    then have "last p = last (hex_encode b)"
      using ne space_seqs_ne [OF p] by (metis last_appendR)
    with hex_encode_set [OF last_in_set [OF ne]] space_seqs_safe [OF p] show False by simp
  qed
  then have "strip_units (map rev space_seqs) (rev (s @ hex_encode b)) = rev (s @ hex_encode b)"
    by (intro strip_units_stop) auto
  then show ?thesis by (simp add: trim_right_def)
qed

lemma trim_key_line:
  assumes "trim_left kid = kid" and "b \<noteq> []"
  shows "trim_space (kid @ '':'' @ hex_encode b @ [CHR 0x0A]) = kid @ '':'' @ hex_encode b"
proof -
  have nl: "[CHR 0x0A] \<in> set space_seqs" by (simp add: space_seqs_def)
  have "trim_space (kid @ '':'' @ hex_encode b @ [CHR 0x0A]) = trim_space ((kid @ '':'' @ hex_encode b) @ [CHR 0x0A])"
    by simp
  also have "\<dots> = trim_space (kid @ '':'' @ hex_encode b)" by (rule trim_space_unit_right [OF nl])
  also have "\<dots> = kid @ '':'' @ hex_encode b"
    using trim_right_after_hex [OF assms(2), of "kid @ '':''"] trim_left_before_colon [OF assms(1)]
    by (simp add: trim_space_def)
  finally show ?thesis .
qed

lemma keygen_set:
  assumes "trim_left kid = kid" and "b \<noteq> []" and "set kid \<inter> {CHR '':'', CHR '',''} = {}"
  shows "env_set (trim_space (jwtkeygen b [prog, kid])) = [kid \<mapsto> hex_encode b]"
proof -
  have hex: "CHR '','' \<notin> set (hex_encode b)" using hex_encode_set by force
  have line: "trim_space (jwtkeygen b [prog, kid]) = kid @ '':'' @ hex_encode b"
    using trim_key_line [OF assms(1,2)] by (simp add: jwtkeygen_def)
  have again: "trim_space (kid @ CHR '':'' # hex_encode b) = kid @ CHR '':'' # hex_encode b"
    using trim_space_idem [of "jwtkeygen b [prog, kid]"] by (simp add: line)
  have "go_index CHR '':'' (kid @ CHR '':'' # hex_encode b) = Some (length kid)"
    using assms(3) by (subst go_index_app) auto
  with again show ?thesis
    using assms(3) hex
    by (simp add: line env_set_split go_split_no_sep env_part_def go_splitn2_def)
qed

lemma find_by_email:
  assumes "\<And>n. out e n = Okay"
  shows "Users_FindByEmail e email d =
    (case sel_user e email 0 (tabs d) of None \<Rightarrow> Inl NoRows | Some u \<Rightarrow> Inr u, d\<lparr>tick := Suc (tick d)\<rparr>)"
  by (simp add: Users_FindByEmail_def query_row_unfold assms sel_user_def split: option.split)

lemma assign_known:
  assumes "roles_ok e d" and "role_known e role d"
  shows "Roles_Assign e uid role d = (None, role_step e (RAssign uid role) d)"
proof -
  obtain rid where "sel_role e role (tick d) (tabs d) = Some rid"
    using sel_role_None [of e role "tick d" d] assms(2) by auto
  with assms(1) show ?thesis
    by (simp add: role_step_def Roles_Assign_def query_row_unfold exec_def ins_user_role_def roles_ok_def Let_def)
qed

section \<open>Properties\<close>

text \<open>
  A key that \<open>jwtkeygen\<close> prints is a key of the service: with its line as \<open>JWT\_KEYS\<close>, the line
  break included, and its name as \<open>JWT\_CURRENT\_KID\<close>, login signs with exactly the printed
  secret and the middleware verifies with it, for every name without colon and comma that white space
  does not surround.
\<close>

theorem keygen_line_is_a_key:
  assumes "trim_space kid = kid" and "kid \<noteq> []" and "set kid \<inter> {CHR '':'', CHR '',''} = {}"
    and "b \<noteq> []" and "picks pick [kid \<mapsto> hex_encode b]"
    and "getenv ''JWT_KEYS'' = jwtkeygen b [prog, kid]" and "getenv ''JWT_CURRENT_KID'' = kid"
  shows "signing_key (loadFromEnv getenv) = hex_encode b \<and> CurrentKID (loadFromEnv getenv) = kid \<and>
    verify_key pick (k_set (Load pick getenv)) kid = Some (hex_encode b)"
proof -
  have "trim_left kid = kid"
  proof -
    obtain q q' where "kid = q @ trim_left kid" "trim_left kid = trim_space kid @ q'"
      using strip_units_suffix [of kid space_seqs] trim_right_prefix [of "trim_left kid"]
      by (auto simp: trim_left_def trim_space_def)
    then have "kid = q @ kid @ q'" using assms(1) by metis
    then have "length kid = length (q @ kid @ q')" by (rule arg_cong)
    then have "q = [] \<and> q' = []" by simp
    with \<open>kid = q @ trim_left kid\<close> show ?thesis by simp
  qed
  from keygen_set [OF this assms(4,3)] have set: "env_set (trim_space (getenv ''JWT_KEYS'')) = [kid \<mapsto> hex_encode b]"
    by (simp add: assms(6))
  then show ?thesis
    using assms(1,2,5,7)
    by (simp add: Load_def loadFromEnv_def load_set_env_set Let_def CurrentKID_def signing_key_def SecretFor_def
        verify_key_def)
qed

theorem keygen_line_is_a_key_witness:
  "verify_key (\<lambda>_. ''k1'') (k_set (Load (\<lambda>_. ''k1'')
     (env_of [(''JWT_KEYS'', ''k1:00ff'' @ [CHR 0x0A]), (''JWT_CURRENT_KID'', ''k1'')]))) ''k1'' = Some ''00ff''"
proof -
  let ?g = "env_of [(''JWT_KEYS'', ''k1:00ff'' @ [CHR 0x0A]), (''JWT_CURRENT_KID'', ''k1'')]"
  have hex: "hex_encode [0, 255] = ''00ff''" by code_simp
  then have "?g ''JWT_KEYS'' = jwtkeygen [0, 255] [''jwtkeygen'', ''k1'']" "?g ''JWT_CURRENT_KID'' = ''k1''"
    by (simp_all add: jwtkeygen_def env_of_def)
  moreover have "picks (\<lambda>_. ''k1'') [''k1'' \<mapsto> hex_encode [0, 255]]"
    by (simp add: picks_def del: hex_encode.simps)
  ultimately show ?thesis
    using keygen_line_is_a_key [of "''k1''" "[0, 255]" "\<lambda>_. ''k1''" ?g] trim_k1
    by (simp add: hex del: hex_encode.simps)
qed

text \<open>
  The pool does not leak and nothing starts on an old schema: when opening fails, the pool is
  closed exactly if it had been opened, as the last call; when it succeeds, the pool is open and
  the migrations have run or had nothing to do.
\<close>

theorem failed_start_closes_pool:
  "case OpenAndMigrate D cfg of
     (Some e, cs) \<Rightarrow>
       (if D (SqlOpen (c_db_dsn cfg)) = None then last cs = PoolClose \<and> count_list cs PoolClose = 1
        else PoolClose \<notin> set cs)
   | (None, cs) \<Rightarrow> PoolClose \<notin> set cs \<and> last cs = MigrateUp \<and> D MigrateUp \<in> {None, Some NoChange}"
  by (simp add: OpenAndMigrate_def or_close_def split: option.split driver_error.split)

lemma env_of_nothing: "env_of [] = (\<lambda>_. [])"
  by (simp add: fun_eq_iff env_of_def)

text \<open>
  The first administrator: where the program can start and the database answers, \<open>seed-admin\<close>
  succeeds exactly if there is an account with the address, and then the account's user, and no
  one else, has gained the role admin, and no other role.
\<close>

theorem seed_admin_grants:
  assumes "roles_ok (senv S) d" and "role_known (senv S) ''admin'' d"
    and "Load_config ge = Inr cfg" and "fst (OpenAndMigrate D cfg) = None"
  shows "case seed_admin S D ge [prog, email] d of (res, d') \<Rightarrow>
    (case sel_user (senv S) email 0 (tabs d) of
       None \<Rightarrow> (\<exists>m. res = Fatal m) \<and> tabs d' = tabs d
     | Some a \<Rightarrow> text_eq (senv S) (u_email a) email \<and> a \<in> set (user_rows (tabs d)) \<and> (\<exists>m. res = Done m) \<and>
         (\<forall>u q. holds_role (senv S) u q d' \<longleftrightarrow>
            holds_role (senv S) u q d \<or> u = u_id a \<and> text_eq (senv S) q ''admin''))"
proof -
  let ?e = "senv S"
  let ?d = "d\<lparr>tick := Suc (tick d)\<rparr>"
  have okay: "out ?e n = Okay" for n using assms(1) by (simp add: roles_ok_def)
  have ok: "roles_ok ?e ?d" and known: "role_known ?e ''admin'' ?d"
    using assms(1,2) by (simp_all add: roles_ok_def role_known_def)
  show ?thesis
  proof (cases "sel_user ?e email 0 (tabs d)")
    case None
    then show ?thesis using assms(3,4) by (simp add: seed_admin_def find_by_email okay)
  next
    case (Some a)
    then have "text_eq ?e (u_email a) email" "a \<in> set (user_rows (tabs d))"
      by (auto simp: sel_user_def dest: find_SomeD)
    then show ?thesis
      using Some assms(3,4) roles.assigned [OF ok known]
      by (simp add: seed_admin_def find_by_email okay assign_known [OF ok known] Let_def)
  qed
qed

theorem seed_admin_grants_witness:
  "case seed_admin demo_sys (\<lambda>_. None) (env_of []) [''seed-admin'', ''b''] \<lparr>tick = 0, tabs = demo_users\<rparr> of
     (res, d') \<Rightarrow> holds_role demo_env 2 ''admin'' d' \<and> \<not> holds_role demo_env 1 ''admin'' d'"
proof -
  let ?d = "\<lparr>tick = 0, tabs = demo_users\<rparr> :: db"
  have "roles_ok demo_env ?d" "role_known demo_env ''admin'' ?d"
    by (simp_all add: roles_ok_def role_known_def demo_users_def keyed_def)
  moreover obtain cfg where "Load_config (env_of []) = Inr cfg" using load_defaults [folded env_of_nothing] by blast
  moreover have "fst (OpenAndMigrate (\<lambda>_. None) cfg) = None" by (simp add: OpenAndMigrate_def or_close_def)
  ultimately have "case seed_admin demo_sys (\<lambda>_. None) (env_of []) [''seed-admin'', ''b''] ?d of (res, d') \<Rightarrow>
    (case sel_user demo_env ''b'' 0 (tabs ?d) of
       None \<Rightarrow> (\<exists>m. res = Fatal m) \<and> tabs d' = tabs ?d
     | Some a \<Rightarrow> text_eq demo_env (u_email a) ''b'' \<and> a \<in> set (user_rows (tabs ?d)) \<and> (\<exists>m. res = Done m) \<and>
         (\<forall>u q. holds_role demo_env u q d' \<longleftrightarrow> holds_role demo_env u q ?d \<or> u = u_id a \<and> text_eq demo_env q ''admin''))"
    by (rule seed_admin_grants [where S = demo_sys, unfolded demo_sys_simps(1)])
  moreover have "sel_user demo_env ''b'' 0 (tabs ?d) = Some \<lparr>u_id = 2, u_email = ''b'', u_hash = ''q''\<rparr>"
    by (simp add: sel_user_def demo_users_def)
  moreover have "\<not> holds_role demo_env u q ?d" for u q by (simp add: holds_role_def demo_users_def)
  ultimately show ?thesis by (auto split: prod.splits)
qed

end
