(* ===== verification/Lifecycle.thy ===== *)
theory Lifecycle
  imports Programs
begin

text \<open>
  The rest of \<open>cmd/api/main.go\<close>, from the built server to the end of the process: two goroutines,
  the main one that waits for a signal and shuts the server down, and the one that listens and
  serves. The interleaving, the signals and the answers of \<open>net/http\<close> are a sequence of moves; a
  move that the program is not ready for is refused (\<open>None\<close>). The deferred calls run in the
  reverse order of their statements and only when \<open>main\<close> returns: \<open>log.Fatalf\<close> ends the process
  at once, and so does a signal that arrives before \<open>signal.Notify\<close>.
\<close>

section \<open>The two goroutines\<close>

datatype main_pc =
    AtNotify
  | AtReceive
  | AtShutdown
  | AtStopped
  | AtCancel
  | AtPoolClose
  | AtMigrClose
  | AtReturned

text \<open>
  \<open>ListenAndServe\<close> in its steps: the look at \<open>inShutdown\<close> (\<open>AtListen\<close>), \<open>net.Listen\<close> (\<open>AtBind\<close>), the
  registration of the listener, which looks again (\<open>AtServe\<close>), the accept loop (\<open>Serving\<close>).
  \<open>ListenFailed\<close>: it has returned another error than \<open>ErrServerClosed\<close>, and \<open>log.Fatalf\<close> comes next.
\<close>

datatype server_pc = AtLog | AtListen | AtBind | AtServe | Serving | ListenFailed string | ServerDone

datatype process_end = Returned0 | Fatal1 string | KilledBySignal

datatype effect =
    SaidListening string
  | ShutdownStarted
  | ShutdownEnded
  | SaidStopped
  | ContextCancelled
  | PoolClosed
  | MigrationsClosed

text \<open>
  \<open>p_signals\<close> is the content of the channel, which has room for one; \<open>p_closing\<close> is the server's
  \<open>inShutdown\<close>, \<open>p_open\<close> says whether connections have been accepted, \<open>p_busy\<close> is the number of
  requests in progress.
\<close>

record process =
  p_main :: main_pc
  p_server :: server_pc
  p_signals :: nat
  p_closing :: bool
  p_open :: bool
  p_busy :: nat
  p_done :: "effect list"
  p_end :: "process_end option"

definition main_started :: process where
  "main_started = \<lparr>p_main = AtNotify, p_server = AtLog, p_signals = 0, p_closing = False, p_open = False,
     p_busy = 0, p_done = [], p_end = None\<rparr>"

datatype move =
    Signal
  | Request
  | Response
  | ServerMove
  | ListenError string
  | MainMove
  | ShutdownTimeout
  | Exit

definition does :: "effect \<Rightarrow> process \<Rightarrow> process" where
  "does x p = p\<lparr>p_done := p_done p @ [x]\<rparr>"

text \<open>
  The serving goroutine: the log line, \<open>ListenAndServe\<close> step by step, its end. When it finds the
  server shutting down it returns \<open>ErrServerClosed\<close>, which is not reported; after any other error the
  goroutine's next move is \<open>log.Fatalf\<close>, whatever the main goroutine has done in the meantime.
\<close>

definition server_move :: "process \<Rightarrow> string \<Rightarrow> process option" where
  "server_move p port =
     (case p_server p of
        AtLog \<Rightarrow> Some (does (SaidListening port) (p\<lparr>p_server := AtListen\<rparr>))
      | AtListen \<Rightarrow> Some (p\<lparr>p_server := if p_closing p then ServerDone else AtBind\<rparr>)
      | AtBind \<Rightarrow> Some (p\<lparr>p_server := AtServe\<rparr>)
      | AtServe \<Rightarrow>
          Some (if p_closing p then p\<lparr>p_server := ServerDone\<rparr> else p\<lparr>p_server := Serving, p_open := True\<rparr>)
      | Serving \<Rightarrow> if p_closing p then Some (p\<lparr>p_server := ServerDone\<rparr>) else None
      | ListenFailed err \<Rightarrow> Some (p\<lparr>p_end := Some (Fatal1 (''http: '' @ err))\<rparr>)
      | ServerDone \<Rightarrow> None)"

text \<open>
  \<open>net.Listen\<close> may fail also when the shutdown has begun since \<open>inShutdown\<close> was read; an error of
  \<open>Accept\<close> counts only while the server is not shutting down.
\<close>

definition listen_error :: "process \<Rightarrow> string \<Rightarrow> process option" where
  "listen_error p err =
     (if p_server p = AtBind \<or> p_server p = Serving \<and> \<not> p_closing p
      then Some (p\<lparr>p_server := ListenFailed err\<rparr>) else None)"

text \<open>
  The main goroutine: \<open>Shutdown\<close> waits until no request is in progress, or for ten seconds
  (\<open>ShutdownTimeout\<close>); its error is dropped. Then the deferred calls: cancel, \<open>pool.Close\<close>, the
  closer of the migrations.
\<close>

definition main_move :: "process \<Rightarrow> process option" where
  "main_move p =
     (case p_main p of
        AtNotify \<Rightarrow> Some (p\<lparr>p_main := AtReceive\<rparr>)
      | AtReceive \<Rightarrow>
          if p_signals p = 0 then None
          else Some (does ShutdownStarted (p\<lparr>p_main := AtShutdown, p_signals := p_signals p - 1, p_closing := True\<rparr>))
      | AtShutdown \<Rightarrow> if p_busy p = 0 then Some (does ShutdownEnded (p\<lparr>p_main := AtStopped\<rparr>)) else None
      | AtStopped \<Rightarrow> Some (does SaidStopped (p\<lparr>p_main := AtCancel\<rparr>))
      | AtCancel \<Rightarrow> Some (does ContextCancelled (p\<lparr>p_main := AtPoolClose\<rparr>))
      | AtPoolClose \<Rightarrow> Some (does PoolClosed (p\<lparr>p_main := AtMigrClose\<rparr>))
      | AtMigrClose \<Rightarrow> Some (does MigrationsClosed (p\<lparr>p_main := AtReturned\<rparr>))
      | AtReturned \<Rightarrow> None)"

text \<open>
  One move of the process. A connection that has been accepted may send a request at any time.
  When \<open>main\<close> has returned, the runtime ends the process (\<open>Exit\<close>), unless the other goroutine
  is faster.
\<close>

definition life_step :: "string \<Rightarrow> move \<Rightarrow> process \<Rightarrow> process option" where
  "life_step port m p =
     (if p_end p \<noteq> None then None
      else case m of
        Signal \<Rightarrow>
          if p_main p = AtNotify then Some (p\<lparr>p_end := Some KilledBySignal\<rparr>)
          else Some (p\<lparr>p_signals := 1\<rparr>)
      | Request \<Rightarrow> if p_open p then Some (p\<lparr>p_busy := Suc (p_busy p)\<rparr>) else None
      | Response \<Rightarrow> if p_busy p = 0 then None else Some (p\<lparr>p_busy := p_busy p - 1\<rparr>)
      | ServerMove \<Rightarrow> server_move p port
      | ListenError err \<Rightarrow> listen_error p err
      | MainMove \<Rightarrow> main_move p
      | ShutdownTimeout \<Rightarrow>
          if p_main p = AtShutdown then Some (does ShutdownEnded (p\<lparr>p_main := AtStopped\<rparr>)) else None
      | Exit \<Rightarrow> if p_main p = AtReturned then Some (p\<lparr>p_end := Some Returned0\<rparr>) else None)"

text \<open>The states that the process can get into.\<close>

inductive reached :: "string \<Rightarrow> process \<Rightarrow> bool" for port where
  reached_start: "reached port main_started"
| reached_step: "reached port p \<Longrightarrow> life_step port m p = Some q \<Longrightarrow> reached port q"

fun life :: "string \<Rightarrow> move list \<Rightarrow> process \<Rightarrow> process option" where
  "life port [] p = Some p"
| "life port (m # ms) p = (case life_step port m p of None \<Rightarrow> None | Some q \<Rightarrow> life port ms q)"

lemma life_reached: "reached port p \<Longrightarrow> life port ms p = Some q \<Longrightarrow> reached port q"
  by (induction ms arbitrary: p) (auto split: option.splits intro: reached_step)

lemmas moves = server_move_def main_move_def listen_error_def does_def

section \<open>The invariant\<close>

text \<open>What the main goroutine has done by the time it is where it is, without the log line of the other.\<close>

fun main_done :: "main_pc \<Rightarrow> effect list" where
  "main_done AtNotify = []"
| "main_done AtReceive = []"
| "main_done AtShutdown = [ShutdownStarted]"
| "main_done AtStopped = [ShutdownStarted, ShutdownEnded]"
| "main_done AtCancel = [ShutdownStarted, ShutdownEnded, SaidStopped]"
| "main_done AtPoolClose = [ShutdownStarted, ShutdownEnded, SaidStopped, ContextCancelled]"
| "main_done AtMigrClose = [ShutdownStarted, ShutdownEnded, SaidStopped, ContextCancelled, PoolClosed]"
| "main_done AtReturned =
     [ShutdownStarted, ShutdownEnded, SaidStopped, ContextCancelled, PoolClosed, MigrationsClosed]"

fun said :: "effect \<Rightarrow> bool" where
  "said (SaidListening _) \<longleftrightarrow> True"
| "said _ \<longleftrightarrow> False"

definition life_inv :: "process \<Rightarrow> bool" where
  "life_inv p \<longleftrightarrow>
     filter (\<lambda>x. \<not> said x) (p_done p) = main_done (p_main p) \<and>
     (p_end p = Some Returned0 \<longrightarrow> p_main p = AtReturned) \<and>
     (p_closing p \<longleftrightarrow> p_main p \<notin> {AtNotify, AtReceive}) \<and>
     p_signals p \<le> 1 \<and>
     (\<not> p_open p \<longrightarrow> p_busy p = 0) \<and>
     (p_end p = Some KilledBySignal \<longrightarrow> p_main p = AtNotify)"

lemma life_inv_start: "life_inv main_started"
  by (simp add: life_inv_def main_started_def)

lemma life_inv_main:
  "life_inv p \<Longrightarrow> p_end p = None \<Longrightarrow> pred_option life_inv (main_move p)"
  "life_inv p \<Longrightarrow> p_end p = None \<Longrightarrow> p_main p = AtShutdown \<Longrightarrow>
     life_inv (does ShutdownEnded (p\<lparr>p_main := AtStopped\<rparr>))"
  unfolding life_inv_def moves by (cases "p_main p"; simp)+

lemma life_inv_server:
  "life_inv p \<Longrightarrow> p_end p = None \<Longrightarrow> pred_option life_inv (server_move p port)"
  "life_inv p \<Longrightarrow> p_end p = None \<Longrightarrow> pred_option life_inv (listen_error p err)"
  unfolding life_inv_def moves by (cases "p_server p"; simp)+

lemma life_inv_outside:
  assumes "life_inv p" and "p_end p = None"
  shows "p_main p = AtNotify \<Longrightarrow> life_inv (p\<lparr>p_end := Some KilledBySignal\<rparr>)"
    and "p_main p \<noteq> AtNotify \<Longrightarrow> life_inv (p\<lparr>p_signals := Suc 0\<rparr>)"
    and "p_main p = AtReturned \<Longrightarrow> life_inv (p\<lparr>p_end := Some Returned0\<rparr>)"
    and "p_open p \<Longrightarrow> life_inv (p\<lparr>p_busy := Suc (p_busy p)\<rparr>)"
    and "0 < p_busy p \<Longrightarrow> life_inv (p\<lparr>p_busy := p_busy p - Suc 0\<rparr>)"
  using assms unfolding life_inv_def by simp_all

lemma life_inv_step: "life_inv p \<Longrightarrow> pred_option life_inv (life_step port m p)"
  by (cases m) (simp_all add: life_step_def life_inv_main life_inv_server life_inv_outside)

lemma reached_inv: "reached port p \<Longrightarrow> life_inv p"
proof (induction rule: reached.induct)
  case (reached_step p m q)
  then show ?case using life_inv_step [of p port m] by simp
qed (rule life_inv_start)

section \<open>How long the shutdown takes\<close>

fun main_side :: "move \<Rightarrow> bool" where
  "main_side MainMove \<longleftrightarrow> True"
| "main_side ShutdownTimeout \<longleftrightarrow> True"
| "main_side _ \<longleftrightarrow> False"

fun main_rank :: "main_pc \<Rightarrow> nat" where
  "main_rank AtShutdown = 5"
| "main_rank AtStopped = 4"
| "main_rank AtCancel = 3"
| "main_rank AtPoolClose = 2"
| "main_rank AtMigrClose = 1"
| "main_rank AtReturned = 0"
| "main_rank _ = 6"

definition moves_left :: "process \<Rightarrow> nat" where
  "moves_left p = (if p_end p = None then main_rank (p_main p) else 0)"

definition shutting_down :: "process \<Rightarrow> bool" where
  "shutting_down p \<longleftrightarrow> p_closing p \<and> p_main p \<notin> {AtNotify, AtReceive}"

lemma shutting_down_step:
  "shutting_down p \<Longrightarrow> pred_option (\<lambda>q. shutting_down q \<and>
     moves_left q + (if main_side m then 1 else 0) \<le> moves_left p) (life_step port m p)"
  unfolding shutting_down_def life_step_def moves_left_def moves
  by (cases m; cases "p_main p"; cases "p_server p"; simp)

lemma shutting_down_run:
  "shutting_down p \<Longrightarrow> life port ms p = Some q \<Longrightarrow>
   shutting_down q \<and> moves_left q + length (filter main_side ms) \<le> moves_left p"
proof (induction ms arbitrary: p)
  case (Cons m ms)
  from Cons.prems(2) obtain p1 where p1: "life_step port m p = Some p1" "life port ms p1 = Some q"
    by (auto split: option.splits)
  with shutting_down_step [OF Cons.prems(1), of m port] have "shutting_down p1"
    "moves_left p1 + (if main_side m then 1 else 0) \<le> moves_left p" by simp_all
  with Cons.IH [OF _ p1(2)] show ?case by (fastforce split: if_splits)
qed simp

lemma main_can_move:
  assumes "shutting_down p" and "p_end p = None"
  shows "\<exists>m. (main_side m \<or> m = Exit) \<and> life_step port m p \<noteq> None"
proof -
  consider "p_main p = AtShutdown" | "p_main p = AtReturned"
    | "p_main p \<in> {AtStopped, AtCancel, AtPoolClose, AtMigrClose}"
    using assms(1) by (cases "p_main p") (auto simp: shutting_down_def)
  then show ?thesis
  proof cases
    case 1
    with assms(2) show ?thesis by (intro exI [of _ ShutdownTimeout]) (simp add: life_step_def)
  next
    case 2
    with assms(2) show ?thesis by (intro exI [of _ Exit]) (simp add: life_step_def)
  next
    case 3
    with assms(2) show ?thesis
      by (intro exI [of _ MainMove]) (auto simp: life_step_def main_move_def)
  qed
qed

section \<open>Properties\<close>

text \<open>
  C30. How the process ends: in every reachable state, what the main goroutine has done is the part of
  shutting the server down, saying so, cancelling the context, closing the pool and closing
  the migrations that its position says, in this order and each once; a process that returned
  has done all of it. A process that ends because the socket could not be opened or served, which
  can happen at any moment, has closed only what the main goroutine had come to, and nothing
  when no signal had been received, for \<open>log.Fatalf\<close> skips the deferred calls.
\<close>

theorem process_end_states:
  assumes "reached port p"
  shows "filter (\<lambda>x. \<not> said x) (p_done p) = main_done (p_main p) \<and>
    (p_end p = Some Returned0 \<longrightarrow> filter (\<lambda>x. \<not> said x) (p_done p) =
      [ShutdownStarted, ShutdownEnded, SaidStopped, ContextCancelled, PoolClosed, MigrationsClosed]) \<and>
    (p_end p = Some (Fatal1 err) \<longrightarrow> \<not> p_closing p \<longrightarrow>
      PoolClosed \<notin> set (p_done p) \<and> MigrationsClosed \<notin> set (p_done p) \<and> ShutdownStarted \<notin> set (p_done p))"
proof -
  from assms have inv: "life_inv p" by (rule reached_inv)
  have "filter (\<lambda>x. \<not> said x) (p_done p) = []" if "\<not> p_closing p"
    using inv that by (auto simp: life_inv_def)
  then have "\<not> p_closing p \<Longrightarrow> PoolClosed \<notin> set (p_done p) \<and> MigrationsClosed \<notin> set (p_done p) \<and>
      ShutdownStarted \<notin> set (p_done p)"
    by (auto simp: filter_empty_conv)
  with inv show ?thesis by (simp add: life_inv_def)
qed

definition demo_life :: "move list" where
  "demo_life = [ServerMove, MainMove, ServerMove, ServerMove, ServerMove, Request, Signal, MainMove, Signal,
     ServerMove, Response, MainMove, MainMove, MainMove, MainMove, MainMove, Exit]"

theorem process_end_states_witness:
  "reached ''8080'' (the (life ''8080'' demo_life main_started)) \<and>
   filter (\<lambda>x. \<not> said x) (p_done (the (life ''8080'' demo_life main_started))) =
     [ShutdownStarted, ShutdownEnded, SaidStopped, ContextCancelled, PoolClosed, MigrationsClosed]"
proof -
  let ?p = "the (life ''8080'' demo_life main_started)"
  have l: "life ''8080'' demo_life main_started = Some ?p \<and> p_end ?p = Some Returned0"
    by (simp add: demo_life_def main_started_def life_step_def moves)
  then have r: "reached ''8080'' ?p" using life_reached [OF reached_start] by blast
  from process_end_states [OF r] l r show ?thesis by blast
qed

text \<open>
  The port may turn out to be taken while the shutdown is on its way: the process then ends with
  status 1 after the pool was closed and before the migrations were.
\<close>

theorem fatal_in_shutdown:
  "\<exists>p. reached ''8080'' p \<and> p_end p = Some (Fatal1 ''http: in use'') \<and>
     PoolClosed \<in> set (p_done p) \<and> MigrationsClosed \<notin> set (p_done p)"
proof -
  let ?ms = "[ServerMove, ServerMove, MainMove, Signal, MainMove, ListenError ''in use'', MainMove, MainMove,
    MainMove, MainMove, ServerMove]"
  let ?p = "the (life ''8080'' ?ms main_started)"
  have l: "life ''8080'' ?ms main_started = Some ?p"
    "p_end ?p = Some (Fatal1 ''http: in use'') \<and> PoolClosed \<in> set (p_done ?p) \<and>
     MigrationsClosed \<notin> set (p_done ?p)"
    by (simp_all add: main_started_def life_step_def moves)
  from life_reached [OF reached_start l(1)] l(2) show ?thesis by blast
qed

text \<open>
  C31. The shutdown terminates: once a signal has been received, whatever the serving goroutine, the
  requests in progress and further signals do, the main goroutine makes at most five more
  moves, and until the process has ended it can always make the next one, at the latest when
  the ten seconds are over, or has returned and the runtime can end the process.
\<close>

theorem shutdown_terminates:
  assumes "reached port p" and "p_closing p" and "life port ms p = Some q"
  shows "length (filter main_side ms) \<le> 5 \<and>
    (p_end q = None \<longrightarrow> (\<exists>m. (main_side m \<or> m = Exit) \<and> life_step port m q \<noteq> None))"
proof -
  from reached_inv [OF assms(1)] assms(2) have "shutting_down p"
    by (simp add: life_inv_def shutting_down_def)
  moreover from this have "moves_left p \<le> 5"
    by (cases "p_main p") (simp_all add: moves_left_def shutting_down_def)
  ultimately show ?thesis
    using shutting_down_run [OF _ assms(3)] main_can_move by fastforce
qed

theorem shutdown_terminates_witness:
  "length (filter main_side [Signal, ServerMove, ShutdownTimeout, MainMove]) \<le> 5 \<and>
   (\<exists>m. (main_side m \<or> m = Exit) \<and> life_step ''8080'' m (the (life ''8080''
      [MainMove, ServerMove, ServerMove, ServerMove, ServerMove, Request, Signal, MainMove, Signal, ServerMove, ShutdownTimeout, MainMove]
      main_started)) \<noteq> None)"
proof -
  let ?ms = "[MainMove, ServerMove, ServerMove, ServerMove, ServerMove, Request, Signal, MainMove]"
  let ?ns = "[Signal, ServerMove, ShutdownTimeout, MainMove]"
  let ?p = "the (life ''8080'' ?ms main_started)"
  have p: "life ''8080'' ?ms main_started = Some ?p" "p_closing ?p"
    by (simp_all add: main_started_def life_step_def moves)
  have q: "life ''8080'' ?ns ?p = Some (the (life ''8080'' (?ms @ ?ns) main_started))"
    "p_end (the (life ''8080'' (?ms @ ?ns) main_started)) = None"
    by (simp_all add: main_started_def life_step_def moves)
  from shutdown_terminates [OF life_reached [OF reached_start p(1)] p(2) q(1)] q(2) show ?thesis
    by simp
qed

end
