(* ===== verification/Metrics_Registry.thy ===== *)
theory Metrics_Registry
  imports Middleware Notes_Repo
begin

text \<open>
  \<open>internal/metrics/metrics.go\<close> and \<open>internal/repos/auth\_metrics.go\<close>: the registry of collectors, the
  vectors with their labels and the observations that the server and the notes repository make.
  Of the Prometheus client the model uses what it documents: \<open>MustRegister\<close> panics when a metric
  of that name is registered already, \<open>WithLabelValues\<close> panics unless it is given one value for
  each label, and makes the series of a combination of values when it is first used. A panic is
  \<open>None\<close>. Observations are durations in nanoseconds; buckets and their page are the client's.
\<close>

section \<open>Collectors\<close>

record histogram_vec =
  hv_name :: string
  hv_help :: string
  hv_labels :: "string list"
  hv_series :: "(string list \<times> int list) list"

record counter_vec =
  cv_name :: string
  cv_help :: string
  cv_labels :: "string list"
  cv_series :: "(string list \<times> nat) list"

record Registry =
  reg_names :: "string list"
  HttpDur :: histogram_vec
  DbDur :: histogram_vec
  DbErr :: counter_vec

definition must_register :: "string list \<Rightarrow> string list \<Rightarrow> string list option" where
  "must_register names reg =
     (if distinct names \<and> list_all (\<lambda>n. \<not> List.member reg n) names then Some (reg @ names) else None)"

text \<open>The names of the two collectors of the client itself are arguments.\<close>

definition metrics_New :: "string list \<Rightarrow> string list \<Rightarrow> Registry option" where
  "metrics_New go_names process_names =
     (let httpDur = \<lparr>hv_name = ''http_request_duration_seconds'', hv_help = ''HTTP request duration'',
            hv_labels = [''route'', ''method'', ''status''], hv_series = []\<rparr>;
          dbDur = \<lparr>hv_name = ''db_query_duration_seconds'', hv_help = ''DB query latency'',
            hv_labels = [''op''], hv_series = []\<rparr>;
          dbErr = \<lparr>cv_name = ''db_errors_total'', cv_help = ''DB errors by op'', cv_labels = [''op''],
            cv_series = []\<rparr>
      in case must_register ([hv_name httpDur, hv_name dbDur, cv_name dbErr] @ go_names @ process_names) [] of
           None \<Rightarrow> None
         | Some names \<Rightarrow> Some \<lparr>reg_names = names, HttpDur = httpDur, DbDur = dbDur, DbErr = dbErr\<rparr>)"

text \<open>\<open>NewAuthMetrics(reg)\<close>: the counter of failed logins, which starts at 0.\<close>

definition NewAuthMetrics :: "Registry \<Rightarrow> (Registry \<times> nat) option" where
  "NewAuthMetrics R =
     map_option (\<lambda>names. (R\<lparr>reg_names := names\<rparr>, 0)) (must_register [''auth_failed_total''] (reg_names R))"

section \<open>Observations\<close>

fun add_observation :: "string list \<Rightarrow> int \<Rightarrow> (string list \<times> int list) list \<Rightarrow> (string list \<times> int list) list" where
  "add_observation vs x [] = [(vs, [x])]"
| "add_observation vs x ((us, xs) # rest) =
     (if us = vs then (us, xs @ [x]) # rest else (us, xs) # add_observation vs x rest)"

definition observe_vec :: "string list \<Rightarrow> int \<Rightarrow> histogram_vec \<Rightarrow> histogram_vec option" where
  "observe_vec vs x h =
     (if length vs = length (hv_labels h) then Some (h\<lparr>hv_series := add_observation vs x (hv_series h)\<rparr>)
      else None)"

text \<open>The observation of \<open>Registry.MW\<close>, of \<open>ObserveDB\<close>, and of \<open>Notes.observe\<close>, which has no registry in some set-ups.\<close>

definition observe_http :: "string \<times> string \<times> string \<Rightarrow> int \<Rightarrow> Registry \<Rightarrow> Registry option" where
  "observe_http l x R =
     (case l of (route, meth, status) \<Rightarrow>
        map_option (\<lambda>h. R\<lparr>HttpDur := h\<rparr>) (observe_vec [route, meth, status] x (HttpDur R)))"

definition ObserveDB :: "string \<Rightarrow> int \<Rightarrow> Registry \<Rightarrow> Registry option" where
  "ObserveDB op x R = map_option (\<lambda>h. R\<lparr>DbDur := h\<rparr>) (observe_vec [op] x (DbDur R))"

definition notes_observe :: "string \<Rightarrow> int \<Rightarrow> int \<Rightarrow> Registry option \<Rightarrow> Registry option option" where
  "notes_observe op start tm mx =
     (case mx of None \<Rightarrow> Some None | Some R \<Rightarrow> map_option Some (ObserveDB op (tm - start) R))"

text \<open>
  The \<open>op\<close> labels that a notes operation observes, in order: its own when it returns, and before it
  that of the \<open>Get\<close> inside an update or a deletion.
\<close>

fun note_observations :: "env \<Rightarrow> note_op \<Rightarrow> db \<Rightarrow> string list" where
  "note_observations e (NoteCreate uid title body) d = [''notes_create'']"
| "note_observations e (NoteUpdate uid i title body) d =
     (case fst (exec e (upd_note_text e uid i title body) d) of
        Inl _ \<Rightarrow> [''notes_update'']
      | Inr _ \<Rightarrow> [''notes_get'', ''notes_update''])"
| "note_observations e (NoteDelete uid i) d = [''notes_get'', ''notes_delete'']"
| "note_observations e (NoteGet uid i) d = [''notes_get'']"
| "note_observations e (NoteList uid page sz q s) d = [''notes_list'']"

text \<open>All observations of a while of operation: what was observed, and for how long.\<close>

datatype observation = HttpRequest "string \<times> string \<times> string" int | DbCall string int

fun observe :: "observation \<Rightarrow> Registry \<Rightarrow> Registry option" where
  "observe (HttpRequest l x) R = observe_http l x R"
| "observe (DbCall op x) R = ObserveDB op x R"

fun observe_all :: "observation list \<Rightarrow> Registry \<Rightarrow> Registry option" where
  "observe_all [] R = Some R"
| "observe_all (x # xs) R = (case observe x R of None \<Rightarrow> None | Some R' \<Rightarrow> observe_all xs R')"

section \<open>Library\<close>

definition series_keyed :: "(string list \<times> 'a) list \<Rightarrow> bool" where
  "series_keyed ss \<longleftrightarrow> distinct (map fst ss)"

lemma add_observation_keys:
  "fst ` set (add_observation vs x ss) = insert vs (fst ` set ss)"
  by (induction vs x ss rule: add_observation.induct) auto

lemma add_observation_keyed: "series_keyed ss \<Longrightarrow> series_keyed (add_observation vs x ss)"
proof (induction vs x ss rule: add_observation.induct)
  case (2 vs x us xs rest)
  then show ?case
    using add_observation_keys [of vs x rest] by (auto simp: series_keyed_def)
qed (simp add: series_keyed_def)

lemma add_observation_count:
  "sum_list (map (length \<circ> snd) (add_observation vs x ss)) = Suc (sum_list (map (length \<circ> snd) ss))"
  by (induction vs x ss rule: add_observation.induct) auto

text \<open>A registry as \<open>New\<close> makes it, and as observations leave it.\<close>

definition well_labelled :: "Registry \<Rightarrow> bool" where
  "well_labelled R \<longleftrightarrow>
     hv_labels (HttpDur R) = [''route'', ''method'', ''status''] \<and> hv_labels (DbDur R) = [''op''] \<and>
     series_keyed (hv_series (HttpDur R)) \<and> series_keyed (hv_series (DbDur R)) \<and>
     list_all (\<lambda>s. length (fst s) = 3) (hv_series (HttpDur R)) \<and>
     list_all (\<lambda>s. length (fst s) = 1) (hv_series (DbDur R)) \<and> cv_series (DbErr R) = []"

lemma metrics_New_well_labelled: "metrics_New gs ps = Some R \<Longrightarrow> well_labelled R"
  by (auto simp: metrics_New_def well_labelled_def series_keyed_def Let_def split: option.splits)

lemma list_all_added:
  "list_all (\<lambda>s. P (fst s)) ss \<Longrightarrow> P vs \<Longrightarrow> list_all (\<lambda>s. P (fst s)) (add_observation vs x ss)"
  by (induction vs x ss rule: add_observation.induct) auto

definition http_labels :: "string \<times> string \<times> string \<Rightarrow> string list" where
  "http_labels l = (case l of (route, meth, status) \<Rightarrow> [route, meth, status])"

lemma observe_step:
  assumes "well_labelled R"
  shows "\<exists>R'. observe ob R = Some R' \<and> well_labelled R' \<and>
    fst ` set (hv_series (HttpDur R')) =
      (case ob of HttpRequest l _ \<Rightarrow> insert (http_labels l) (fst ` set (hv_series (HttpDur R)))
       | DbCall _ _ \<Rightarrow> fst ` set (hv_series (HttpDur R)))"
  using assms
  by (cases ob)
    (auto simp: observe_http_def ObserveDB_def observe_vec_def well_labelled_def http_labels_def
      add_observation_keyed add_observation_keys list_all_added [where P = "\<lambda>k. length k = 3"]
      list_all_added [where P = "\<lambda>k. length k = Suc 0"])

fun http_label_set :: "observation list \<Rightarrow> string list set" where
  "http_label_set [] = {}"
| "http_label_set (HttpRequest l _ # xs) = insert (http_labels l) (http_label_set xs)"
| "http_label_set (DbCall _ _ # xs) = http_label_set xs"

lemma observe_all_run:
  "well_labelled R \<Longrightarrow> \<exists>R'. observe_all xs R = Some R' \<and> well_labelled R' \<and>
     fst ` set (hv_series (HttpDur R')) = fst ` set (hv_series (HttpDur R)) \<union> http_label_set xs"
proof (induction xs arbitrary: R)
  case (Cons x xs)
  from observe_step [OF Cons.prems, of x] obtain R1 where R1: "observe x R = Some R1" "well_labelled R1"
    "fst ` set (hv_series (HttpDur R1)) =
      (case x of HttpRequest l _ \<Rightarrow> insert (http_labels l) (fst ` set (hv_series (HttpDur R)))
       | DbCall _ _ \<Rightarrow> fst ` set (hv_series (HttpDur R)))" by blast
  from Cons.IH [OF R1(2)] R1 show ?case by (cases x) auto
qed simp

lemma metrics_New_series: "metrics_New gs ps = Some R \<Longrightarrow> hv_series (HttpDur R) = []"
  by (auto simp: metrics_New_def Let_def split: option.splits)

section \<open>Properties\<close>

text \<open>
  The server's metrics start and never panic: when the client's own collectors have names of
  their own, \<open>New\<close> and \<open>NewAuthMetrics\<close> register, every observation that the server and the
  repository make fits its labels, whatever was observed before, and the error counter
  \<open>db\_errors\_total\<close> never gets a series. Building the router a second time would panic.
\<close>

theorem metrics_never_panic:
  assumes "distinct (gs @ ps)"
    and "set (gs @ ps) \<inter> {''http_request_duration_seconds'', ''db_query_duration_seconds'',
      ''db_errors_total'', ''auth_failed_total''} = {}"
  shows "\<exists>R R1 R2. metrics_New gs ps = Some R \<and> NewAuthMetrics R = Some (R1, 0) \<and>
    observe_all xs R1 = Some R2 \<and> cv_series (DbErr R2) = [] \<and> NewAuthMetrics R1 = None"
proof -
  have "\<exists>R. metrics_New gs ps = Some R \<and> ''auth_failed_total'' \<notin> set (reg_names R)"
    using assms by (auto simp: metrics_New_def must_register_def list_all_iff Let_def)
  then obtain R where R: "metrics_New gs ps = Some R" "''auth_failed_total'' \<notin> set (reg_names R)" by blast
  let ?R1 = "R\<lparr>reg_names := reg_names R @ [''auth_failed_total'']\<rparr>"
  have R1: "NewAuthMetrics R = Some (?R1, 0)" "NewAuthMetrics ?R1 = None"
    using R(2) by (simp_all add: NewAuthMetrics_def must_register_def)
  have "well_labelled ?R1"
    using metrics_New_well_labelled [OF R(1)] by (simp add: well_labelled_def)
  from observe_all_run [OF this, of xs] obtain R2 where
    "observe_all xs ?R1 = Some R2" "well_labelled R2" by blast
  with R(1) R1 show ?thesis by (auto simp: well_labelled_def)
qed

theorem metrics_never_panic_witness:
  "\<exists>R R1 R2. metrics_New [''go_goroutines''] [''process_open_fds''] = Some R \<and>
    NewAuthMetrics R = Some (R1, 0) \<and>
    observe_all [HttpRequest (''/notes/'', ''GET'', ''200'') 5, DbCall ''notes_list'' 3] R1 = Some R2 \<and>
    cv_series (DbErr R2) = [] \<and> NewAuthMetrics R1 = None"
  by (rule metrics_never_panic) simp_all

text \<open>
  Every path makes a series: the route label is the path of the request as it was sent, so the
  number of series, which are never dropped, is the number of different paths, methods and
  statuses seen. Requests for \<open>n\<close> different paths, all of them unknown to the router and
  unauthenticated, leave at least \<open>n\<close> series.
\<close>

theorem series_grow_with_paths:
  assumes "metrics_New gs ps = Some R" and "distinct paths"
  shows "\<exists>R'. observe_all (map (\<lambda>p. HttpRequest (p, meth, status) x) paths) R = Some R' \<and>
    length (hv_series (HttpDur R')) = length paths"
proof -
  let ?xs = "map (\<lambda>p. HttpRequest (p, meth, status) x) paths"
  from observe_all_run [OF metrics_New_well_labelled [OF assms(1)], of ?xs] metrics_New_series [OF assms(1)]
  obtain R' where R': "observe_all ?xs R = Some R'" "well_labelled R'"
    "fst ` set (hv_series (HttpDur R')) = http_label_set ?xs" by auto
  have "http_label_set ?xs = (\<lambda>p. [p, meth, status]) ` set paths"
    by (induction paths) (auto simp: http_labels_def)
  moreover have "card ((\<lambda>p. [p, meth, status]) ` set paths) = length paths"
    using assms(2) by (subst card_image) (auto simp: inj_on_def distinct_card)
  moreover have "card (fst ` set (hv_series (HttpDur R'))) = length (hv_series (HttpDur R'))"
    using R'(2) distinct_card [of "map fst (hv_series (HttpDur R'))"]
    by (simp add: well_labelled_def series_keyed_def)
  ultimately show ?thesis using R' by auto
qed

theorem series_grow_with_paths_witness:
  "\<exists>R'. observe_all (map (\<lambda>p. HttpRequest (p, ''GET'', ''404'') 7) [''/a'', ''/b'', ''/c''])
      (the (metrics_New [] [])) = Some R' \<and> length (hv_series (HttpDur R')) = length [''/a'', ''/b'', ''/c'']"
proof -
  have "metrics_New [] [] = Some (the (metrics_New [] []))"
    by (simp add: metrics_New_def must_register_def Let_def)
  then show ?thesis by (rule series_grow_with_paths) simp
qed

text \<open>The label under which the middleware \<open>Metrics\<close> observes a request that returned.\<close>

theorem request_is_observed:
  assumes "\<And>r w. fst (h r w) = Returned" and "\<And>r w. observed (snd (h r w)) = observed w"
  shows "\<exists>status. observed (snd (Metrics S h r w)) = observed w @ [(rq_path r, rq_method r, format_int status)]"
  using assms(2) [of r "on_writer tap (snd (time_now S w))"] assms(1) [of r "on_writer tap (snd (time_now S w))"]
  by (cases "h r (on_writer tap (snd (time_now S w)))")
    (auto simp: Metrics_def with_tap_def time_now_def on_writer_def split: flow.splits)

text \<open>Every notes operation, however it ends, observes its own label last and once.\<close>

theorem note_op_observed_once:
  "\<exists>op l. note_observations e p d = l @ [op] \<and> op \<notin> set l \<and>
     op = (case p of NoteCreate _ _ _ \<Rightarrow> ''notes_create'' | NoteUpdate _ _ _ _ \<Rightarrow> ''notes_update''
       | NoteDelete _ _ \<Rightarrow> ''notes_delete'' | NoteGet _ _ \<Rightarrow> ''notes_get''
       | NoteList _ _ _ _ _ \<Rightarrow> ''notes_list'')"
  by (cases p) (auto split: sum.splits)

end
