(* ===== verification/Json_Roundtrip.thy ===== *)
theory Json_Roundtrip
  imports Go_Json
begin

text \<open>
  What \<open>encoding/json\<close> writes it reads back: strings of valid UTF-8, with their escapes, and
  objects of strings, which are the bodies that the handlers and their clients exchange.
\<close>

section \<open>UTF-8\<close>

function valid_utf8 :: "string \<Rightarrow> bool" where
  "valid_utf8 [] = True"
| "valid_utf8 (c # s) =
     (case decode_rune (c # s) of
        (u, k) \<Rightarrow> \<not> (u = 0xFFFD \<and> k = 1) \<and> valid_utf8 (drop k (c # s)))"
  by pat_completeness auto
termination by (relation "measure length") (auto dest: decode_rune_posD dest!: sym [of "(_, _)"])

declare valid_utf8.simps(2) [simp del]

text \<open>\<open>AppendRune\<close> undoes the arithmetic of \<open>DecodeRune\<close>, width by width.\<close>

lemma encode_two:
  assumes "0xC2 \<le> b" "b \<le> 0xDF" "cont_byte c"
  shows "encode_rune ((b - 0xC0) * 64 + (c - 0x80)) = [char_of b, char_of c]"
proof -
  define x y where "x = b - 0xC0" and "y = c - 0x80"
  then have "b = 0xC0 + x" "c = 0x80 + y" "y < 64" "2 \<le> x" "x < 32"
    using assms by (auto simp: cont_byte_def)
  then show ?thesis by (simp add: encode_rune_def Let_def)
qed

lemma encode_three:
  assumes "0xE0 \<le> b" "b \<le> 0xEF" "second_ok b c" "cont_byte c'"
  shows "encode_rune ((b - 0xE0) * 4096 + (c - 0x80) * 64 + (c' - 0x80)) = [char_of b, char_of c, char_of c']"
proof -
  define x y z where xyz: "x = b - 0xE0" "y = c - 0x80" "z = c' - 0x80"
  then have eq: "b = 0xE0 + x" "c = 0x80 + y" "c' = 0x80 + z" and b: "x < 16" "y < 64" "z < 64"
    and nz: "x = 0 \<Longrightarrow> 32 \<le> y" and sur: "x = 13 \<Longrightarrow> y < 32"
    using assms by (auto simp: cont_byte_def second_ok_def split: if_splits)
  let ?r = "x * 4096 + y * 64 + z"
  have big: "0x800 \<le> ?r" "?r < 0x10000" using nz b by (cases "x = 0"; simp)+
  have ns: "\<not> (0xD800 \<le> ?r \<and> ?r \<le> 0xDFFF)"
    using sur b by (cases "x < 13"; cases "x = 13") auto
  have d: "?r div 4096 = x" "?r div 64 mod 64 = y" "?r mod 64 = z"
  proof -
    have "?r = (x * 64 + y) * 64 + z" by simp
    then show "?r mod 64 = z" "?r div 64 mod 64 = y" using b by (metis div_mult_self3 mod_mult_self3 mod_less div_less add.right_neutral add.commute zero_neq_numeral)+
    show "?r div 4096 = x" using b by simp
  qed
  show ?thesis using big ns d unfolding eq by (simp add: encode_rune_def Let_def)
qed
lemma encode_four:
  assumes "0xF0 \<le> b" "b \<le> 0xF4" "second_ok b c" "cont_byte c'" "cont_byte c''"
  shows "encode_rune ((b - 0xF0) * 262144 + (c - 0x80) * 4096 + (c' - 0x80) * 64 + (c'' - 0x80)) =
    [char_of b, char_of c, char_of c', char_of c'']"
proof -
  define x y z v where xyz: "x = b - 0xF0" "y = c - 0x80" "z = c' - 0x80" "v = c'' - 0x80"
  then have eq: "b = 0xF0 + x" "c = 0x80 + y" "c' = 0x80 + z" "c'' = 0x80 + v"
    and b: "x < 5" "y < 64" "z < 64" "v < 64"
    and nz: "x = 0 \<Longrightarrow> 16 \<le> y" and top: "x = 4 \<Longrightarrow> y < 16"
    using assms by (auto simp: cont_byte_def second_ok_def split: if_splits)
  let ?r = "x * 262144 + y * 4096 + z * 64 + v"
  have big: "0x10000 \<le> ?r" "?r \<le> 0x10FFFF"
    using nz b by (cases "x = 0"; simp) (use top b in \<open>cases "x = 4"; simp\<close>)
  have d: "?r div 262144 = x" "?r div 4096 mod 64 = y" "?r div 64 mod 64 = z" "?r mod 64 = v"
  proof -
    have r: "?r = v + 64 * ((x * 64 + y) * 64 + z)" by simp
    show "?r mod 64 = v" unfolding r mod_mult_self2 using b by simp
    have q: "?r div 64 = (x * 64 + y) * 64 + z" unfolding r using b by simp
    have "(x * 64 + y) * 64 + z = z + 64 * (x * 64 + y)" by simp
    then show "?r div 64 mod 64 = z" unfolding q using b by (simp only: mod_mult_self2) simp
    have "?r div 4096 = ?r div 64 div 64" by (simp add: div_mult2_eq [symmetric])
    then have "?r div 4096 = x * 64 + y" unfolding q using b by simp
    then show "?r div 4096 mod 64 = y" using b by simp
    show "?r div 262144 = x" using b by simp
  qed
  show ?thesis using big d unfolding eq by (simp add: encode_rune_def Let_def)
qed

lemma decode_ascii: "byte c < 0x80 \<Longrightarrow> decode_rune (c # s) = (byte c, 1)"
  by (simp add: decode_rune_def)

text \<open>A valid sequence decodes the same in front of any text, and encodes to its bytes.\<close>

lemma decode_encode:
  assumes "decode_rune (c # s) = (u, k)" and "\<not> (u = 0xFFFD \<and> k = 1)" and "0x80 \<le> byte c"
  shows "decode_rune (take k (c # s) @ t) = (u, k) \<and> encode_rune u = take k (c # s)"
proof -
  consider (two) c1 r where "s = c1 # r" "0xC2 \<le> byte c" "byte c \<le> 0xDF" "cont_byte (byte c1)"
      "u = (byte c - 0xC0) * 64 + (byte c1 - 0x80)" "k = 2"
    | (three) c1 c2 r where "s = c1 # c2 # r" "0xE0 \<le> byte c" "byte c \<le> 0xEF" "second_ok (byte c) (byte c1)"
      "cont_byte (byte c2)" "u = (byte c - 0xE0) * 4096 + (byte c1 - 0x80) * 64 + (byte c2 - 0x80)" "k = 3"
    | (four) c1 c2 c3 r where "s = c1 # c2 # c3 # r" "0xF0 \<le> byte c" "byte c \<le> 0xF4"
      "second_ok (byte c) (byte c1)" "cont_byte (byte c2)" "cont_byte (byte c3)"
      "u = (byte c - 0xF0) * 262144 + (byte c1 - 0x80) * 4096 + (byte c2 - 0x80) * 64 + (byte c3 - 0x80)" "k = 4"
    using assms
    by (cases s rule: remdups_adj.cases; cases "tl (tl s)")
      (auto simp: decode_rune_def split: if_splits list.splits)
  then show ?thesis
  proof cases
    case two
    then have "decode_rune (take k (c # s) @ t) = (u, k)" by (simp add: decode_rune_def)
    then show ?thesis using two encode_two [of "byte c" "byte c1"] by simp
  next
    case three
    then have "decode_rune (take k (c # s) @ t) = (u, k)" by (simp add: decode_rune_def)
    then show ?thesis using three encode_three [of "byte c" "byte c1" "byte c2"] by simp
  next
    case four
    then have "decode_rune (take k (c # s) @ t) = (u, k)" by (simp add: decode_rune_def)
    then show ?thesis using four encode_four [of "byte c" "byte c1" "byte c2" "byte c3"] by simp
  qed
qed

section \<open>Strings\<close>

lemma hex4_esc: "n < 0x10000 \<Longrightarrow> hex4 (drop 2 (esc_u n) @ t) = Some n"
proof -
  assume n: "n < 0x10000"
  have digit: "hex_val (hex_digit d) = Some d" if "d < 16" for d
  proof -
    have "\<forall>d\<in>set [0..<16]. hex_val (hex_digit d) = Some d" by code_simp
    with that show ?thesis by simp
  qed
  have "n div 16 div 16 = n div 256" "n div 256 div 16 = n div 4096"
    by (simp_all add: div_mult2_eq [symmetric])
  with div_mult_mod_eq [of n 16] div_mult_mod_eq [of "n div 16" 16] div_mult_mod_eq [of "n div 256" 16]
  have "(n div 4096 * 16 + n div 256 mod 16) * 16 + n div 16 mod 16 = n div 16"
    "n div 16 * 16 + n mod 16 = n" by simp_all
  moreover have "a * 4096 + b * 256 + c * 16 + e = m" if "(a * 16 + b) * 16 + c = q" "q * 16 + e = m"
    for a b c e q m :: nat using that by simp
  ultimately have "n div 4096 * 4096 + n div 256 mod 16 * 256 + n div 16 mod 16 * 16 + n mod 16 = n"
    by metis
  then show ?thesis using n by (simp add: hex4_def esc_u_def digit)
qed

text \<open>One escaped character in front of a text.\<close>

lemma str_body_esc_u:
  assumes "n < 0xD800 \<or> 0xE000 \<le> n" and "n < 0x10000"
  shows "str_body (esc_u n @ t) = map_option (apfst ((@) (encode_rune n))) (str_body t)"
proof -
  have "hex4 (drop 2 (esc_u n) @ t) = Some n" using assms(2) by (rule hex4_esc)
  then have "hex4 (hex_digit (n div 4096 mod 16) # hex_digit (n div 256 mod 16) # hex_digit (n div 16 mod 16) #
      hex_digit (n mod 16) # t) = Some n" by (simp add: esc_u_def)
  moreover have "surrogate_pair n t = None" using assms(1) by (auto simp: surrogate_pair_def)
  ultimately show ?thesis by (simp add: esc_u_def str_body.simps(2))
qed

lemma str_body_esc_ascii:
  assumes "byte c < 0x80"
  shows "str_body (esc_ascii c @ t) = map_option (apfst ((#) c)) (str_body t)"
proof -
  have "encode_rune (byte c) = [c]" using assms by (simp add: encode_rune_def Let_def)
  moreover have "(@) [c] = (#) c" by (rule ext) simp
  ultimately have u: "str_body (esc_u (byte c) @ t) = map_option (apfst ((#) c)) (str_body t)"
    using str_body_esc_u [of "byte c" t] assms by simp
  have simple: "str_body (CHR 0x5C # x # t) = map_option (apfst ((#) y)) (str_body t)"
    if "simple_escape x = Some y" "x \<noteq> CHR ''u''" for x y
    using that by (simp add: str_body.simps(2))
  have plain: "str_body (c # t) = map_option (apfst ((#) c)) (str_body t)"
    if "c \<noteq> CHR 0x22" "c \<noteq> CHR 0x5C" "\<not> byte c < 0x20"
    using that assms by (simp add: str_body.simps(2))
  show ?thesis
    using u plain by (simp add: esc_ascii_def simple simple_escape_def)
qed

lemma str_body_raw:
  assumes "decode_rune (c # s) = (u, k)" and "\<not> (u = 0xFFFD \<and> k = 1)" and "0x80 \<le> byte c"
  shows "str_body (take k (c # s) @ t) = map_option (apfst ((@) (take k (c # s)))) (str_body t)"
proof -
  from decode_encode [OF assms] have d: "decode_rune (take k (c # s) @ t) = (u, k)" "encode_rune u = take k (c # s)"
    by simp_all
  have k: "0 < k" "k \<le> length (c # s)"
    using decode_rune_posD [OF assms(1)] decode_rune_width(2) [of c s] assms(1) by simp_all
  then obtain s' where s': "take k (c # s) @ t = c # s'" by (cases k) simp_all
  have "drop k (c # s') = t" unfolding s' [symmetric] using k by simp
  moreover have "c \<noteq> CHR 0x22" "c \<noteq> CHR 0x5C" using assms(3) by auto
  ultimately show ?thesis
    using d assms(3) unfolding s' by (simp add: str_body.simps(2))
qed

lemma decode_special: "decode_rune (c # s) = (u, k) \<Longrightarrow> u = 0x2028 \<or> u = 0x2029 \<Longrightarrow>
  0x80 \<le> byte c \<Longrightarrow> encode_rune u = take k (c # s)"
  using decode_encode [of c s u k] by auto

theorem str_body_escape:
  "valid_utf8 s \<Longrightarrow> str_body (escape s @ CHR 0x22 # t) = Some (s, t)"
proof (induction s rule: valid_utf8.induct)
  case 1
  then show ?case by (simp add: str_body.simps(2))
next
  case (2 c s)
  obtain u k where d: "decode_rune (c # s) = (u, k)" by (cases "decode_rune (c # s)")
  from 2(2) d have v: "\<not> (u = 0xFFFD \<and> k = 1)" "valid_utf8 (drop k (c # s))"
    by (simp_all add: valid_utf8.simps(2))
  from 2(1) [OF d [symmetric] v(2)]
  have IH: "str_body (escape (drop k (c # s)) @ CHR 0x22 # t) = Some (drop k (c # s), t)" .
  show ?case
  proof (cases "byte c < 0x80")
    case True
    with d have "k = 1" by (simp add: decode_ascii)
    with IH True show ?thesis
      by (simp add: escape.simps(2) str_body_esc_ascii apfst_def)
  next
    case False
    then have c: "0x80 \<le> byte c" by simp
    have whole: "take k (c # s) @ drop k (c # s) = c # s" by (rule append_take_drop_id)
    show ?thesis
    proof (cases "u = 0x2028 \<or> u = 0x2029")
      case True
      with d v(1) False IH decode_special [OF d True c] str_body_esc_u [of u] whole show ?thesis
        by (auto simp: escape.simps(2) apfst_def)
    next
      case other: False
      with d v(1) False IH str_body_raw [OF d v(1) c] whole show ?thesis
        by (auto simp: escape.simps(2) apfst_def)
    qed
  qed
qed

section \<open>Objects of strings\<close>

abbreviation str_members :: "(string \<times> string) list \<Rightarrow> (string \<times> json) list" where
  "str_members ms \<equiv> map (\<lambda>(k, s). (k, JStr s)) ms"

definition valid_members :: "(string \<times> string) list \<Rightarrow> bool" where
  "valid_members ms \<longleftrightarrow> list_all (\<lambda>(k, s). valid_utf8 k \<and> valid_utf8 s) ms"

lemma skip_ws_plain: "\<not> is_ws c \<Longrightarrow> skip_ws (c # s) = c # s"
  by (simp add: skip_ws_def)

lemma not_ws [simp]:
  "\<not> is_ws CHR 0x22" "\<not> is_ws CHR 0x7B" "\<not> is_ws CHR 0x7D" "\<not> is_ws CHR '':''" "\<not> is_ws CHR '',''"
  by (simp_all add: is_ws_def)

lemma expect_here [simp]: "\<not> is_ws c \<Longrightarrow> expect c (c # s) = Some s"
  by (simp add: expect_def skip_ws_plain)

lemma expect_other [simp]: "\<not> is_ws x \<Longrightarrow> x \<noteq> c \<Longrightarrow> expect c (x # s) = None"
  by (simp add: expect_def skip_ws_plain)

lemma parse_quote: "valid_utf8 s \<Longrightarrow> parse_value (Suc k) d (quote s @ r) = Some (JStr s, r)"
  by (simp add: quote_def skip_ws_plain str_body_escape apfst_def)

lemma parse_member:
  assumes "valid_utf8 key" and "valid_utf8 s"
  shows "parse_members (Suc (Suc k)) d (quote key @ CHR '':'' # quote s @ r) =
    (case expect CHR '','' r of
       Some r5 \<Rightarrow> map_option (apfst ((#) (key, JStr s))) (parse_members (Suc k) d r5)
     | None \<Rightarrow> map_option (Pair [(key, JStr s)]) (expect CHR 0x7D r))"
proof -
  have "expect CHR 0x22 (quote key @ t) = Some (escape key @ CHR 0x22 # t)" for t
    by (simp add: quote_def)
  then show ?thesis
    using str_body_escape [OF assms(1)] parse_quote [OF assms(2)]
    by (simp add: parse_members.simps del: parse_value.simps parse_elems.simps)
qed

lemma parse_flat:
  "ms \<noteq> [] \<Longrightarrow> valid_members ms \<Longrightarrow> length ms < k \<Longrightarrow>
   parse_members k d (marshal_members (str_members ms) @ CHR 0x7D # r) = Some (str_members ms, r)"
proof (induction ms arbitrary: k)
  case (Cons m ms)
  obtain key s where m: "m = (key, s)" by (cases m)
  from Cons.prems(3) obtain j where k: "k = Suc (Suc j)" by (cases k; cases "k - 1") auto
  have v: "valid_utf8 key" "valid_utf8 s" "valid_members ms"
    using Cons.prems(2) by (simp_all add: m valid_members_def)
  show ?case
  proof (cases ms)
    case Nil
    then show ?thesis
      using parse_member [OF v(1,2), of j d "CHR 0x7D # r"] by (simp add: m k)
  next
    case (Cons m' ms')
    obtain key' s' where m': "m' = (key', s')" by (cases m')
    have "marshal_members (str_members (m # ms)) @ CHR 0x7D # r =
        quote key @ CHR '':'' # quote s @ CHR '','' # marshal_members (str_members ms) @ CHR 0x7D # r"
      by (simp add: m Cons m')
    with parse_member [OF v(1,2), of j d] Cons.IH [of "Suc j"] v(3) Cons.prems(3) Cons
    show ?thesis by (simp add: m k apfst_def del: marshal_members.simps parse_members.simps)
  qed
qed simp

lemma marshal_members_length: "length ms \<le> length (marshal_members (str_members ms))"
proof (induction ms rule: induct_list012)
  case (3 m m' ms)
  obtain key s key' s' where "m = (key, s)" "m' = (key', s')" by (cases m; cases m')
  with 3 show ?case by (simp add: quote_def)
qed (auto simp: quote_def)

theorem decode_marshal_members:
  assumes "valid_members ms"
  shows "decode_value broken (marshal (JObj (str_members ms)) @ r) = Some (JObj (str_members ms))"
proof -
  let ?t = "marshal (JObj (str_members ms)) @ r"
  have t: "?t = CHR 0x7B # marshal_members (str_members ms) @ CHR 0x7D # r" by simp
  define k where "k = 2 * length ?t"
  have fuel: "json_fuel ?t = Suc k" by (simp add: json_fuel_def k_def)
  have "length ms < k"
    using marshal_members_length [of ms] unfolding k_def t by simp
  have "parse_value (Suc k) max_depth ?t = Some (JObj (str_members ms), r)"
  proof (cases ms)
    case Nil
    then show ?thesis unfolding t by (simp add: skip_ws_plain max_depth_def)
  next
    case (Cons m ms')
    obtain key s where m: "m = (key, s)" by (cases m)
    have "\<exists>u. marshal_members (str_members ms) = CHR 0x22 # u"
      using Cons m by (cases ms') (auto simp: quote_def)
    then obtain u where u: "marshal_members (str_members ms) = CHR 0x22 # u" ..
    have "ms \<noteq> []" using Cons by simp
    from parse_flat [OF this assms \<open>length ms < k\<close>, of "max_depth - 1" r]
    have "parse_members k (max_depth - 1) (CHR 0x22 # u @ CHR 0x7D # r) = Some (str_members ms, r)"
      unfolding u by (simp only: append_Cons)
    then show ?thesis
      unfolding t u by (simp add: skip_ws_plain max_depth_def apfst_def del: parse_members.simps)
  qed
  then show ?thesis unfolding decode_value_def fuel by simp
qed

text \<open>\<open>Decode\<close> into a struct of two string fields reads back what was marshalled.\<close>

theorem decode_two_marshal:
  assumes "valid_members [(f, a), (g, b)]" and "f \<noteq> g"
  shows "decode_two f g broken (marshal (JObj (str_members [(f, a), (g, b)])) @ r) = Some (a, b)"
  using decode_marshal_members [OF assms(1), of broken r] assms(2)
  by (simp add: decode_two_def struct_value_def field_values_def field_for_def string_field_def
      assigned_string_def del: marshal.simps marshal_members.simps)

lemma valid_utf8_ascii: "list_all (\<lambda>c. byte c < 0x80) s \<Longrightarrow> valid_utf8 s"
  by (induction s) (simp_all add: valid_utf8.simps(2) decode_ascii)

end
