(* ===== verification/Test_Client.thy ===== *)
theory Test_Client
  imports Auth_Handler Json_Roundtrip Demo_Http
begin

text \<open>
  \<open>tests/integration/helpers.go\<close>: the client with which the integration tests talk to a running
  server. \<open>http.Post\<close> is an argument: from URL, content type and body to an error or a status
  and a body.
\<close>

section \<open>Where the server is, and whether it is up\<close>

definition baseURL :: "(string \<Rightarrow> string) \<Rightarrow> string" where
  "baseURL ge = (if ge ''BASE_URL'' \<noteq> [] then ge ''BASE_URL'' else ''http://localhost:8080'')"

definition half_second :: int where
  "half_second = 500000000"

text \<open>
  One attempt: \<open>None\<close> when \<open>http.Get\<close> does not return, as the default client has no time-out;
  else how long it took, the status if it gave one, and by how much the sleep of half a second
  overran, in nanoseconds.
\<close>

type_synonym attempt = "(nat \<times> int option \<times> nat) option"

text \<open>
  The loop at time \<open>tm\<close> after \<open>n\<close> attempts: whether the server is ready, the attempts made and the
  time at the end; \<open>None\<close> when the loop hangs in an attempt.
\<close>

function wait_loop :: "(nat \<Rightarrow> attempt) \<Rightarrow> int \<Rightarrow> nat \<Rightarrow> int \<Rightarrow> (bool \<times> nat \<times> int) option" where
  "wait_loop try_get dead n tm =
     (if tm < dead then
        (case try_get n of
           None \<Rightarrow> None
         | Some (took, status, over) \<Rightarrow>
             if status = Some 204 then Some (True, Suc n, tm + int took)
             else wait_loop try_get dead (Suc n) (tm + int took + half_second + int over))
      else Some (False, n, tm))"
  by pat_completeness auto
termination by (relation "measure (\<lambda>(g, dead, n, tm). nat (dead - tm))") (auto simp: half_second_def)

declare wait_loop.simps [simp del]

definition waitReady :: "(nat \<Rightarrow> attempt) \<Rightarrow> int \<Rightarrow> int \<Rightarrow> (string option \<times> nat \<times> int) option" where
  "waitReady try_get start timeout =
     (case wait_loop try_get (start + timeout) 0 start of
        None \<Rightarrow> None
      | Some (True, n, tm) \<Rightarrow> Some (None, n, tm)
      | Some (False, n, tm) \<Rightarrow> Some (Some ''ready timeout'', n, tm))"

section \<open>Accounts\<close>

text \<open>\<open>json.Marshal\<close> of a map writes its keys in order.\<close>

definition creds_json :: "string \<Rightarrow> string \<Rightarrow> string" where
  "creds_json email pass = marshal (JObj (str_members [(''email'', email), (''password'', pass)]))"

type_synonym post = "string \<Rightarrow> string \<Rightarrow> string \<Rightarrow> string + int \<times> string"

definition register_call :: "(string \<Rightarrow> string) \<Rightarrow> post \<Rightarrow> string \<Rightarrow> string \<Rightarrow> string + int \<times> string" where
  "register_call ge post email pass =
     post (baseURL ge @ ''/auth/register'') ''application/json'' (creds_json email pass)"

text \<open>The error of \<open>Decode(&tok)\<close> is dropped: what could be assigned is.\<close>

definition decode_tokens :: "string \<Rightarrow> string \<times> string" where
  "decode_tokens body =
     (case decode_value False body of
        None \<Rightarrow> ([], [])
      | Some j \<Rightarrow> (assigned_string (field_values [''access'', ''refresh''] ''access'' j),
          assigned_string (field_values [''access'', ''refresh''] ''refresh'' j)))"

definition login_call ::
  "(string \<Rightarrow> string) \<Rightarrow> post \<Rightarrow> string \<Rightarrow> string \<Rightarrow> string \<times> string \<times> string option" where
  "login_call ge post email pass =
     (case post (baseURL ge @ ''/auth/login'') ''application/json'' (creds_json email pass) of
        Inl err \<Rightarrow> ([], [], Some err)
      | Inr (status, body) \<Rightarrow> (case decode_tokens body of (access, refresh) \<Rightarrow> (access, refresh, None)))"

definition authHeader :: "string \<Rightarrow> string \<rightharpoonup> string" where
  "authHeader tok = [''Authorization'' \<mapsto> ''Bearer '' @ tok, ''Content-Type'' \<mapsto> ''application/json'']"

section \<open>Facts\<close>

text \<open>An attempt that returns in time, and one that finds the server ready.\<close>

definition prompt :: "int \<Rightarrow> int \<Rightarrow> attempt \<Rightarrow> bool" where
  "prompt longest late a \<longleftrightarrow>
     (case a of None \<Rightarrow> False | Some (took, status, over) \<Rightarrow> int took \<le> longest \<and> int over \<le> late)"

definition ready :: "attempt \<Rightarrow> bool" where
  "ready a \<longleftrightarrow> (case a of None \<Rightarrow> False | Some (took, status, over) \<Rightarrow> status = Some 204)"

lemma promptE:
  assumes "prompt longest late a"
  obtains took status over where "a = Some (took, status, over)" "int took \<le> longest" "int over \<le> late"
  using assms by (auto simp: prompt_def split: option.splits prod.splits)

lemma wait_loop_returns:
  assumes "\<forall>i. prompt longest late (try_get i)" and "tm < dead + longest + half_second + late"
  shows "\<exists>r m tm'. wait_loop try_get dead n tm = Some (r, m, tm') \<and> n \<le> m \<and>
    tm' < dead + longest + half_second + late \<and>
    (n < m \<longrightarrow> int (m - n) * half_second < dead - tm + half_second) \<and>
    (r \<longrightarrow> n < m \<and> ready (try_get (m - 1))) \<and> (\<not> r \<longrightarrow> dead \<le> tm') \<and>
    (\<forall>i. n \<le> i \<longrightarrow> i < m \<longrightarrow> (r \<longrightarrow> i \<noteq> m - 1) \<longrightarrow> \<not> ready (try_get i))"
  using assms
proof (induction try_get dead n tm rule: wait_loop.induct)
  case (1 try_get dead n tm)
  from 1(2) obtain took status over where
    g: "try_get n = Some (took, status, over)" "int took \<le> longest" "int over \<le> late"
    by (metis promptE)
  note step = wait_loop.simps [of try_get dead n tm]
  consider "\<not> tm < dead" | "tm < dead" "status = Some 204" | "tm < dead" "status \<noteq> Some 204" by blast
  then show ?case
  proof cases
    case 1
    then show ?thesis using "1.prems"(2) by (intro exI [of _ False]) (simp add: step)
  next
    case 2
    then show ?thesis
      using g by (intro exI [of _ True] exI [of _ "Suc n"] exI [of _ "tm + int took"])
        (auto simp: step ready_def half_second_def)
  next
    case 3
    let ?tm = "tm + int took + half_second + int over"
    have "?tm < dead + longest + half_second + late" using 3(1) g by simp
    from 1(1) [OF 3(1) g(1) refl refl 3(2) "1.prems"(1) this] obtain r m tm' where
      IH: "wait_loop try_get dead (Suc n) ?tm = Some (r, m, tm')" "Suc n \<le> m"
        "tm' < dead + longest + half_second + late"
        "Suc n < m \<longrightarrow> int (m - Suc n) * half_second < dead - ?tm + half_second"
        "r \<longrightarrow> Suc n < m \<and> ready (try_get (m - 1))" "\<not> r \<longrightarrow> dead \<le> tm'"
        "\<forall>i. Suc n \<le> i \<longrightarrow> i < m \<longrightarrow> (r \<longrightarrow> i \<noteq> m - 1) \<longrightarrow> \<not> ready (try_get i)"
      by blast
    have "int (m - n) * half_second < dead - tm + half_second"
    proof (cases "Suc n < m")
      case True
      then have "int (m - n) * half_second = int (m - Suc n) * half_second + half_second"
        by (simp add: of_nat_diff algebra_simps)
      with IH(4) True show ?thesis by simp
    next
      case False
      with IH(2) 3(1) have "m - n = 1" by simp
      with 3(1) show ?thesis by simp
    qed
    moreover have "\<not> ready (try_get i)" if "n \<le> i" "i < m" "r \<longrightarrow> i \<noteq> m - 1" for i
      using that IH(7) g(1) 3(2) by (cases "i = n") (auto simp: ready_def)
    ultimately show ?thesis
      using IH(1,2,3,5,6) 3 g(1)
      by (intro exI [of _ r] exI [of _ m] exI [of _ tm']) (auto simp: step)
  qed
qed

section \<open>Properties\<close>

text \<open>
  C34. The readiness loop ends: if no attempt takes longer than \<open>longest\<close> and no sleep overruns by more
  than \<open>late\<close>, it returns before the deadline plus one such attempt and one pause, after at most
  one attempt per half second; it reports the server as ready exactly if an attempt, the
  last, was answered with 204, and a time-out only once the deadline has passed.
\<close>

theorem wait_ready_terminates:
  assumes "0 \<le> timeout" and "\<forall>i. prompt longest late (try_get i)"
  shows "\<exists>err n tm. waitReady try_get start timeout = Some (err, n, tm) \<and>
    tm < start + timeout + longest + half_second + late \<and>
    int n * half_second < timeout + half_second \<and>
    (err = None \<longleftrightarrow> (\<exists>i<n. ready (try_get i))) \<and> (\<forall>i<n - 1. \<not> ready (try_get i)) \<and>
    (err \<noteq> None \<longrightarrow> start + timeout \<le> tm)"
proof -
  from assms(2) have "0 \<le> longest" "0 \<le> late" by (metis promptE of_nat_0_le_iff order_trans)+
  then have "start < (start + timeout) + longest + half_second + late"
    using assms(1) by (simp add: half_second_def)
  from wait_loop_returns [OF assms(2) this, of 0] obtain r n tm where
    w: "wait_loop try_get (start + timeout) 0 start = Some (r, n, tm)"
      "tm < start + timeout + longest + half_second + late"
      "0 < n \<longrightarrow> int n * half_second < timeout + half_second"
      "r \<longrightarrow> 0 < n \<and> ready (try_get (n - 1))" "\<not> r \<longrightarrow> start + timeout \<le> tm"
      "\<And>i. i < n \<Longrightarrow> (r \<longrightarrow> i \<noteq> n - 1) \<Longrightarrow> \<not> ready (try_get i)"
    by auto
  have "int n * half_second < timeout + half_second"
    using w(3) assms(1) by (cases "n = 0") (auto simp: half_second_def)
  moreover have "r \<longleftrightarrow> (\<exists>i<n. ready (try_get i))" using w(4,6) by (metis diff_less zero_less_one)
  moreover have "\<not> ready (try_get i)" if "i < n - 1" for i using w(6) [of i] that by simp
  ultimately show ?thesis
    using w(1,2,5) by (cases r) (simp_all add: waitReady_def)
qed

theorem wait_ready_terminates_witness:
  "\<exists>tm. waitReady (\<lambda>i. Some (1000, if i = 2 then Some 204 else None, 0)) 0 (30 * (2 * half_second)) =
     Some (None, 3, tm) \<and> tm < 0 + 30 * (2 * half_second) + 1000 + half_second + 0"
proof -
  let ?g = "\<lambda>i. Some (1000, if i = (2::nat) then Some (204::int) else None, 0)"
  have "waitReady ?g 0 (30 * (2 * half_second)) = Some (None, 3, 1000003000)"
    by (simp add: waitReady_def wait_loop.simps half_second_def)
  moreover have "\<forall>i. prompt 1000 0 (?g i)" by (simp add: prompt_def)
  ultimately show ?thesis
    using wait_ready_terminates [of "30 * (2 * half_second)" 1000 0 ?g 0] by (auto simp: half_second_def)
qed

text \<open>Without that condition it need not end: a request that is never answered holds it for good.\<close>

theorem wait_ready_may_hang:
  assumes "0 < timeout" and "try_get 0 = None"
  shows "waitReady try_get start timeout = None"
  using assms by (simp add: waitReady_def wait_loop.simps)

text \<open>
  C25. Client and server read each other's JSON: what the test client posts for an account decodes
  in the server to the same e-mail address and password, whatever characters they hold, and the
  tokens that the server answers are the tokens that the client's login returns, when all of
  them are valid UTF-8.
\<close>

theorem client_and_server_agree:
  assumes "valid_utf8 email" and "valid_utf8 pass" and "valid_utf8 access" and "valid_utf8 refresh"
    and "rq_body r = creds_json email pass" and "post = (\<lambda>url ct body. Inr (200, encode_line (tokens_json access refresh)))"
  shows "decode_creds r = Some (email, pass) \<and> login_call ge post email pass = (access, refresh, None)"
proof
  have "valid_members [(''email'', email), (''password'', pass)]"
    using assms(1,2) by (simp add: valid_members_def valid_utf8_ascii)
  from decode_two_marshal [OF this, of "rq_broken r" "[]"] assms(5)
  show "decode_creds r = Some (email, pass)" by (simp add: decode_creds_def creds_json_def)
  have "valid_members [(''access'', access), (''refresh'', refresh)]"
    using assms(3,4) by (simp add: valid_members_def valid_utf8_ascii)
  from decode_marshal_members [OF this, of False "[CHR 0x0A]"]
  have "decode_value False (encode_line (tokens_json access refresh)) = Some (JObj (str_members [(''access'', access), (''refresh'', refresh)]))"
    by (simp add: encode_line_def tokens_json_def del: marshal.simps marshal_members.simps)
  then show "login_call ge post email pass = (access, refresh, None)"
    by (simp add: login_call_def decode_tokens_def assms(6) field_values_def field_for_def assigned_string_def)
qed

theorem client_and_server_agree_witness:
  "login_call (\<lambda>_. []) (\<lambda>url ct body. Inr (200, encode_line (tokens_json ''t'' ''<u>''))) ''a@b'' ''p'' =
    (''t'', ''<u>'', None)"
  by (rule conjunct2 [OF client_and_server_agree [of "''a@b''" "''p''" "''t''" "''<u>''"
        "bare_req\<lparr>rq_body := creds_json ''a@b'' ''p''\<rparr>"]])
    (simp_all add: valid_utf8_ascii)

end
