(* ===== verification/Spec2Isabelle.thy ===== *)
theory Spec2Isabelle
  imports Refresh_Tokens Idempotency Notes_Replay Users_Repo Roles_Repo Jwt_Keys Redis_Store
    Auth_Middleware Config Auth_Http Admin_Handler Middleware Local_Limiter Effects Server
    Server_Effects Server_Http Server_Service Token_Races Note_Races Keyed_Races Lifecycle
    Metrics_Registry Test_Client
begin

text \<open>
  The Go-Notes API: a verification library.

  \<^bold>\<open>The program.\<close> Go-Notes is an HTTP service in Go: accounts with passwords, access tokens (JWT) and
  refresh tokens, notes that belong to a user, idempotency keys for repeated updates, roles,
  an audit log, and limits kept in Redis. A request passes the middleware of
  \<open>internal/server/server.go\<close> (tracing, request id, real address, security headers, CORS, body
  limit, panic recovery, limiter, metrics, access log, audit), then, by its route, the limiter of
  \<open>/auth\<close> or the token and role checks, and reaches a handler of \<open>internal/handlers\<close>. Handlers
  call the repositories of \<open>internal/repos\<close>, which send SQL statements through \<open>database/sql\<close>, and
  the Redis stores of \<open>internal/jti\<close>, \<open>internal/security\<close> and \<open>internal/middleware\<close>.

  \<^bold>\<open>State.\<close> \<open>Sql\<close>: \<open>db\<close> is the tables of \<open>migrations/\<close> (\<open>tables\<close>, a record of row lists) and a
  counter of the calls made so far. The environment \<open>env\<close> says for every call by its number whether it
  succeeds, fails (\<open>Refused\<close>) or succeeds while its answer is lost (\<open>Lost\<close>), what \<open>NOW()\<close> is, which
  id is given out, how text compares, what \<open>LIKE\<close> matches and in which order ties are listed; every
  theorem holds for all environments that its hypotheses allow. A transaction works on a copy that
  \<open>commit\<close> installs. \<open>Http\<close>: \<open>req\<close>, the response \<open>writer\<close> with the wrappers of the middleware, and
  \<open>world\<close>: database, writer, Redis keys, log, observations, the failure counter, and the numbers of
  clock readings and random draws so far. \<open>sys\<close> holds the services outside: SQL and Redis servers, clock,
  \<open>crypto/rand\<close>, bcrypt, the JWT library, Unicode tables. A handler is a function of a request and a
  world that returns or panics.

  \<^bold>\<open>Go's standard library\<close>, as far as the program uses it, is defined, not assumed: \<open>Go_Strings\<close>
  (\<open>Split\<close>, \<open>TrimSpace\<close>, \<open>Index\<close>), \<open>Go_Numbers\<close> (64-bit wrap-around, \<open>ParseInt\<close>, \<open>FormatInt\<close>, hex,
  CRC-32), \<open>Go_Crypto\<close> (SHA-256), \<open>Go_Json\<close> (UTF-8, the decoder into structs, the encoder), \<open>Go_Time\<close>
  (RFC 3339 in both directions), \<open>Go_Duration\<close> (\<open>ParseDuration\<close>, \<open>ParseFloat\<close> with the rounding of IEEE
  doubles), \<open>Go_Net\<close> (\<open>SplitHostPort\<close>, \<open>ParseIP\<close>, \<open>ParseCIDR\<close>, \<open>Contains\<close>), \<open>Go_Csv\<close> (the CSV writer, and
  a reader after RFC 4180 to state round trips against).

  \<^bold>\<open>Repositories.\<close> \<open>Refresh_Tokens\<close>, \<open>Idempotency\<close> (both key stores), \<open>Notes_Repo\<close>, \<open>Users_Repo\<close> (with the
  audit repository), \<open>Roles_Repo\<close> model one file of \<open>internal/repos\<close> each, a definition per
  statement (\<open>sel_\<dots>\<close>, \<open>ins_\<dots>\<close>, \<open>upd_\<dots>\<close>, \<open>del_\<dots>\<close>) and per operation, under the names of the code. Their
  lemmas show the table invariants, what each operation does to the rows and to the rows of other users,
  and histories: a refresh token is exchanged once, reuse ends the session, a key is granted once and
  replayed, notes refine a map from user and id to title and body, pages partition a listing, roles
  follow the last change. Two interfaces carry these proofs: \<open>One_Shot\<close> (locale \<open>one_shot\<close>: a resource that can be
  taken once; interpreted for tokens, sessions, keys and deleted notes) and \<open>Paging\<close> (locale \<open>pager\<close>;
  interpreted for notes and users); \<open>Roles_Repo\<close> has \<open>role_store\<close>.

  \<^bold>\<open>Keys, limits, configuration.\<close> \<open>Jwt_Keys\<close> (\<open>internal/jwtauth\<close>): the two readers of \<open>JWT_KEYS\<close> and that
  signer and verifier agree. \<open>Redis_Store\<close>: INCR with EXPIRE, the request limiter, the login guard and
  the revoked ids, with the locale \<open>window_counter\<close>; \<open>Client_Addr\<close>: by which address a client is
  counted. \<open>Local_Limiter\<close>: the in-memory limiters, on the locale \<open>cell_store\<close>. \<open>Config\<close>:
  \<open>config.Load\<close>, with a panic as an error value.

  \<^bold>\<open>Handlers.\<close> \<open>App_Errors\<close> (\<open>internal/errors\<close>), \<open>Notes_Handler\<close>, \<open>Auth_Handler\<close>, \<open>Admin_Handler\<close> (with
  health and the API description), one definition per handler with every early return as a branch;
  \<open>Notes_Http\<close>, \<open>Notes_Replay\<close> and \<open>Auth_Http\<close> state what they guarantee: the answer on each branch,
  which requests get tokens, that issued tokens are accepted (locale \<open>token_keys\<close>), what a keyed update
  replays, and what goes wrong (see the findings of the manifest).

  \<^bold>\<open>Middleware and server.\<close> \<open>Auth_Middleware\<close> (\<open>AuthWith\<close>, \<open>RequireRole\<close>) and \<open>Middleware\<close> (all others) are
  functions from handler to handler; \<open>Server\<close> puts them together as \<open>router\<close> does and holds the table
  of routes; \<open>serve\<close> is one request to the whole server. \<open>Effects\<close> defines an inductive relation: a
  request acts on the database by a sequence of repository operations out of a given set; it has a rule for
  each kind of call, and an effect lemma per handler. \<open>Server_Effects\<close> says which operations each part of
  the routes permits, to whom, and that \<open>serve\<close> keeps to it; \<open>Server_Http\<close> concludes for the server as a
  whole: notes are private, roles cannot be gained, protected routes are closed, the keys of all
  tables are an invariant of every history of requests, every answer carries the security headers;
  \<open>Server_Service\<close> is the other half: who holds a token and the role is served by the handler of the
  route, what one posts is what one reads, and a new account can work. \<open>Prelude\<close> holds the generic
  lemmas and the named collections; \<open>Demo\<close> and \<open>Demo_Http\<close> hold the sample systems of the witnesses.

  \<^bold>\<open>Requests at the same time.\<close> In the theories above a request runs to its end before the next
  one. \<open>Interleaving\<close> gives the repository operations a second form, a program of database calls with
  continuations, and runs a pool of them under a schedule, a list of numbers that says which request
  makes the next call; transactions see their own writes, publish them with the commit and wait for
  row locks. \<open>Token_Races\<close>, \<open>Note_Races\<close> and \<open>Keyed_Races\<close> hold the programs of \<open>refresh_tokens.go\<close>, of
  \<open>repos/notes.go\<close> and of the keyed updates and deletions in \<open>handlers/notes.go\<close>. Each shows first that a
  program which is not interrupted is the operation of the sequential model (\<open>solo_\<dots>\<close>,
  \<open>undisturbed_\<dots>\<close>), so that the two forms cannot drift apart, and then what every schedule keeps. The
  locale \<open>contest\<close> of \<open>Contest\<close> carries this: a program that declares a win only after it found a
  thing unspent under its lock, spent it and committed; it is interpreted for tokens and for
  idempotency keys. For notes, the writes are serialisable and the answers are not.

  \<^bold>\<open>Programs, metrics, test client.\<close> \<open>Programs\<close> has the three programs of \<open>cmd/\<close> with the opening of the
  database. \<open>Lifecycle\<close> goes on where the API's \<open>main\<close> has built its server: the main and the serving
  goroutine with the steps of \<open>ListenAndServe\<close>, signals, requests in progress, the shutdown with its deadline
  and the deferred calls, as a step function with an inductive reachability relation and an invariant. \<open>Metrics_Registry\<close>:
  the collectors of \<open>internal/metrics\<close> and \<open>internal/repos/auth_metrics.go\<close> with their series. \<open>Json_Roundtrip\<close>
  shows that the decoder reads back what the encoder wrote, for all valid UTF-8, and
  \<open>Test_Client\<close>, the helpers of \<open>tests/integration\<close>, concludes that client and server agree.

  \<^bold>\<open>Bounds and fuel.\<close> The JSON parser runs on fuel, twice the length of its input plus one, and more never changes its
  result (\<open>decode_value_fuel\<close>). The IPv6 parser has nine rounds for at most eight groups. A program of database calls is a well-founded tree, so it needs no fuel; a
  schedule is a finite list of any length. The shutdown has a rank that falls with each of its moves. All other functions are structurally
  recursive or have a termination proof. Integers are \<open>int\<close> with the 64-bit wrap-around \<open>i64\<close> written out
  where the code can overflow, and \<open>w word\<close> in the hashes and addresses.

  \<^bold>\<open>Hypotheses.\<close> \<open>libs_ok\<close>: the tracing wrapper hands the request on, the pages of \<open>promhttp\<close> and of unknown
  paths touch no table. \<open>jwt_library\<close>, about the claims that login and refresh issue: a token that was
  signed with a key is verified with that key, its claims (integers a float holds, no \<open>nbf\<close>) are
  read back, and they are valid until \<open>exp\<close> for their issuer and audience. \<open>picks\<close>: iterating over a non-empty Go
  map yields a key of it. \<open>steady_clock\<close>, \<open>fresh_ids\<close>, \<open>sorts\<close>: the server's clock does not go back,
  ids do not repeat, and \<open>ORDER BY\<close> sorts. Every theorem with such a hypothesis has a witness.

  \<^bold>\<open>Not modelled.\<close> Interleavings below the database call (Go's memory model; handlers share no variables but the
  in-memory limiters, which hold a mutex), and of operations other than those of tokens, notes and
  idempotency keys. Fewer locks are taken than by the server; a deadlock is a failed call and does not roll
  the transaction back by itself. Time-outs and cancellation of contexts are failed calls. chi's path
  matching and \<open>RealIP\<close>, bcrypt, the JWT library, the token bucket of \<open>x/time/rate\<close> and the e-mail
  rule are parameters, because their code is not in the repository. Left out as pure calls of libraries: the
  set-up of the logger (\<open>internal/logging\<close>), the buckets and the page of the Prometheus client, the OTLP
  exporter behind \<open>trace.Setup\<close>, the content of the migrations, sockets, and the sleep after
  a failed login.
\<close>

end
